(* ===== verification/Prelude.thy ===== *)
theory Prelude
  imports Main "HOL-Library.AList"
begin

text \<open>
  Shared vocabulary of the development: the lemma collections the component proofs
  are driven by, facts on lists, association lists and line splitting that the
  HOL library does not state in the form the components need, and the generic
  interface locales (a state machine with an invariant, a codec) that several
  components instantiate.
\<close>

named_theorems path_simps \<open>facts on path strings and path components\<close>
named_theorems io_simps \<open>equations and frame facts of the kernel calls\<close>
named_theorems inv_intros \<open>invariant preservation, one rule per operation\<close>
named_theorems parse_simps \<open>facts on line and field scanning\<close>

type_synonym ('k, 'v) alist = "('k \<times> 'v) list"

section \<open>Association lists\<close>

lemma alist_delete_fresh [simp]:
  "k \<notin> fst ` set al \<Longrightarrow> AList.delete k al = al"
  by (induction al) auto

lemma alist_map_of_None_fst: "map_of al k = None \<longleftrightarrow> k \<notin> fst ` set al"
  by (simp add: map_of_eq_None_iff)

lemma alist_lookup_update [simp]:
  "map_of (AList.update k v al) k' = (if k' = k then Some v else map_of al k')"
  by (simp add: update_conv')

lemma alist_lookup_delete [simp]:
  "map_of (AList.delete k al) k' = (if k' = k then None else map_of al k')"
  by (simp add: AList.delete_conv')

lemma alist_update_update [simp]:
  "AList.update k v (AList.update k w al) = AList.update k v al"
  by (induction al) auto

lemma update_new: "map_of al k = None \<Longrightarrow> AList.update k v al = al @ [(k, v)]"
  by (induction al) auto

lemma delete_append: "AList.delete k (a @ b) = AList.delete k a @ AList.delete k b"
  by (simp add: AList.delete_eq)

section \<open>Lists and scanning\<close>

lemma takeWhile_stop [parse_simps]:
  "(\<And>x. x \<in> set xs \<Longrightarrow> P x) \<Longrightarrow> \<not> P y \<Longrightarrow> takeWhile P (xs @ y # ys) = xs"
  by (induction xs) auto

lemma dropWhile_stop [parse_simps]:
  "(\<And>x. x \<in> set xs \<Longrightarrow> P x) \<Longrightarrow> \<not> P y \<Longrightarrow> dropWhile P (xs @ y # ys) = y # ys"
  by (induction xs) auto

lemma takeWhile_all [parse_simps]:
  "(\<And>x. x \<in> set xs \<Longrightarrow> P x) \<Longrightarrow> takeWhile P xs = xs"
  by (induction xs) auto

lemma dropWhile_all [parse_simps]:
  "(\<And>x. x \<in> set xs \<Longrightarrow> P x) \<Longrightarrow> dropWhile P xs = []"
  by (induction xs) auto

lemma length_dropWhile_le' [simp]: "length (dropWhile P xs) \<le> length xs"
  by (induction xs) auto

lemma dropWhile_Cons_shorter:
  "dropWhile P xs = y # ys \<Longrightarrow> length ys < length xs"
  using length_dropWhile_le' [of P xs] by simp

lemma takeWhile_neq_dropWhile:
  "dropWhile (\<lambda>x. x \<noteq> c) xs = y # ys \<Longrightarrow> y = c \<and> xs = takeWhile (\<lambda>x. x \<noteq> c) xs @ c # ys"
  by (induction xs) (auto split: if_splits)

lemma dropWhile_neq_Nil: "dropWhile (\<lambda>x. x \<noteq> c) xs = [] \<longleftrightarrow> c \<notin> set xs"
  by (induction xs) auto

lemma takeWhile_neq_notin [simp]: "c \<notin> set (takeWhile (\<lambda>x. x \<noteq> c) xs)"
  by (auto dest: set_takeWhileD)

lemma takeWhile_neq_id [simp]: "c \<notin> set xs \<Longrightarrow> takeWhile (\<lambda>x. x \<noteq> c) xs = xs"
  by (induction xs) auto

text \<open>Trailing characters stripped, the loop \<open>while (l > 0 && p (buf[l-1])) l--\<close>.\<close>

definition rstrip :: "('a \<Rightarrow> bool) \<Rightarrow> 'a list \<Rightarrow> 'a list" where
  "rstrip P xs = rev (dropWhile P (rev xs))"

lemma rstrip_Nil [simp]: "rstrip P [] = []"
  by (simp add: rstrip_def)

lemma rstrip_snoc [simp]: "rstrip P (xs @ [x]) = (if P x then rstrip P xs else xs @ [x])"
  by (simp add: rstrip_def)

lemma rstrip_id: "xs = [] \<or> \<not> P (last xs) \<Longrightarrow> rstrip P xs = xs"
  by (cases xs rule: rev_cases) auto

lemma rstrip_append: "xs = [] \<or> \<not> P (last xs) \<Longrightarrow> (\<And>y. y \<in> set ys \<Longrightarrow> P y) \<Longrightarrow>
    rstrip P (xs @ ys) = xs"
proof (induction ys rule: rev_induct)
  case Nil
  then show ?case by (simp add: rstrip_id)
next
  case (snoc y ys)
  then have "rstrip P (xs @ ys) = xs" and "P y" by auto
  then show ?case
    by (simp flip: append_assoc)
qed

lemma rstrip_prefix: "\<exists>zs. xs = rstrip P xs @ zs \<and> (\<forall>z \<in> set zs. P z)"
proof -
  have "xs = rev (dropWhile P (rev xs)) @ rev (takeWhile P (rev xs))"
    by (metis rev_append rev_rev_ident takeWhile_dropWhile_id)
  then show ?thesis
    unfolding rstrip_def by (metis set_rev set_takeWhileD)
qed

lemma length_rstrip_le: "length (rstrip P xs) \<le> length xs"
  by (metis rstrip_prefix le_add1 length_append)

lemma set_rstrip_subset: "set (rstrip P xs) \<subseteq> set xs"
  by (metis rstrip_prefix Un_upper1 set_append)

section \<open>Interfaces\<close>

text \<open>
  A component that moves by steps from an initial state, and a predicate every step
  keeps. The invariant then holds after every sequence of events.
\<close>

locale state_machine =
  fixes start :: "'s \<Rightarrow> bool"
    and step :: "'e \<Rightarrow> 's \<Rightarrow> 's"
    and invar :: "'s \<Rightarrow> bool"
  assumes start_invar: "start s \<Longrightarrow> invar s"
    and step_invar: "invar s \<Longrightarrow> invar (step e s)"
begin

lemma run_invar: "invar s \<Longrightarrow> invar (fold step es s)"
  by (induction es arbitrary: s) (auto intro: step_invar)

lemma reach_invar: "start s \<Longrightarrow> invar (fold step es s)"
  by (rule run_invar) (rule start_invar)

end

text \<open>
  A codec: what an encoder writes for a value of its domain, the decoder reads back.
  Encodings of distinct values are then distinct.
\<close>

locale codec =
  fixes encode :: "'a \<Rightarrow> 'b"
    and decode :: "'b \<Rightarrow> 'a option"
    and dom :: "'a \<Rightarrow> bool"
  assumes decode_encode: "dom x \<Longrightarrow> decode (encode x) = Some x"
begin

lemma encode_inj: "dom x \<Longrightarrow> dom y \<Longrightarrow> encode x = encode y \<longleftrightarrow> x = y"
  by (metis decode_encode option.inject)

lemma encode_inj_on: "inj_on encode {x. dom x}"
  by (auto simp: inj_on_def encode_inj)

end

text \<open>
  A component that accepts some strings as file names: what it accepts is neither empty
  nor hidden and has no separator and no NUL, so joining it to a directory stays a
  direct child of that directory.
\<close>

locale path_component =
  fixes valid :: "string \<Rightarrow> bool"
  assumes valid_nonempty: "valid s \<Longrightarrow> s \<noteq> []"
    and valid_no_slash: "valid s \<Longrightarrow> CHR ''/'' \<notin> set s"
    and valid_no_nul: "valid s \<Longrightarrow> CHR 0x00 \<notin> set s"
    and valid_not_hidden: "valid s \<Longrightarrow> hd s \<noteq> CHR ''.''"
begin

lemma not_dot: "valid s \<Longrightarrow> s \<noteq> ''.'' \<and> s \<noteq> ''..''"
  using valid_not_hidden by fastforce

lemma child_inj:
  "valid s \<Longrightarrow> valid s' \<Longrightarrow> d @ ''/'' @ s = d' @ ''/'' @ s' \<longleftrightarrow> d = d' \<and> s = s'"
proof
  assume v: "valid s" "valid s'" and "d @ ''/'' @ s = d' @ ''/'' @ s'"
  then have "rev (d @ ''/'' @ s) = rev (d' @ ''/'' @ s')" by (simp only:)
  then have eq: "rev s @ CHR ''/'' # rev d = rev s' @ CHR ''/'' # rev d'" by simp
  have ns: "x \<noteq> CHR ''/''" if "x \<in> set (rev s) \<or> x \<in> set (rev s')" for x
    using that v valid_no_slash by auto
  have "rev s = rev s'"
    using takeWhile_stop [of "rev s" "\<lambda>x. x \<noteq> CHR ''/''" "CHR ''/''" "rev d"]
      takeWhile_stop [of "rev s'" "\<lambda>x. x \<noteq> CHR ''/''" "CHR ''/''" "rev d'"] eq ns by simp
  with eq show "d = d' \<and> s = s'" by simp
qed simp

end

text \<open>
  A store of named values per owner, on a state that can refuse a write. Reads do not
  disturb what later reads return; a successful write is what the next read of the same
  key returns and leaves every other key alone. After any sequence of successful writes a
  key then holds the last value written to it.
\<close>

fun puts :: "('k \<Rightarrow> 'v \<Rightarrow> 's \<Rightarrow> ('e + unit) \<times> 's) \<Rightarrow> ('k \<times> 'v) list \<Rightarrow> 's \<Rightarrow> 's option" where
  "puts put [] s = Some s"
| "puts put ((k, v) # r) s = (case put k v s of (Inl _, _) \<Rightarrow> None | (Inr _, s') \<Rightarrow> puts put r s')"

locale value_store =
  fixes put :: "'k \<Rightarrow> 'v \<Rightarrow> 's \<Rightarrow> ('e + unit) \<times> 's"
    and get :: "'k \<Rightarrow> 's \<Rightarrow> 'v option \<times> 's"
    and ready :: "'k \<Rightarrow> 's \<Rightarrow> bool"
    and storable :: "'v \<Rightarrow> bool"
  assumes get_put: "ready k s \<Longrightarrow> storable v \<Longrightarrow> put k v s = (Inr u, s') \<Longrightarrow> fst (get k s') = Some v"
    and get_put_other: "ready k s \<Longrightarrow> ready k' s \<Longrightarrow> k \<noteq> k' \<Longrightarrow> put k v s = (Inr u, s') \<Longrightarrow>
      fst (get k' s') = fst (get k' s)"
    and ready_put: "ready k s \<Longrightarrow> ready k' s \<Longrightarrow> put k v s = (Inr u, s') \<Longrightarrow> ready k' s'"
    and get_get: "ready k s \<Longrightarrow> ready k' s \<Longrightarrow> fst (get k' (snd (get k s))) = fst (get k' s)"
    and ready_get: "ready k s \<Longrightarrow> ready k' s \<Longrightarrow> ready k' (snd (get k s))"
begin

lemma puts_last:
  "puts put kvs s = Some s' \<Longrightarrow> \<forall>(k, v) \<in> set kvs. ready k s \<and> storable v \<Longrightarrow> ready k s \<Longrightarrow>
     fst (get k s') = (case map_of (rev kvs) k of Some v \<Rightarrow> Some v | None \<Rightarrow> fst (get k s))"
proof (induction kvs arbitrary: s)
  case (Cons kv kvs)
  obtain k1 v1 where kv: "kv = (k1, v1)" by fastforce
  from Cons.prems(1) kv obtain s1 u where p: "put k1 v1 s = (Inr u, s1)" and r: "puts put kvs s1 = Some s'"
    by (auto split: prod.splits sum.splits)
  have rk: "ready k1 s" "storable v1" using Cons.prems(2) kv by auto
  have all: "\<forall>(k, v) \<in> set kvs. ready k s1 \<and> storable v"
    using Cons.prems(2) ready_put [OF rk(1) _ p] by fastforce
  have "fst (get k s1) = (if k = k1 then Some v1 else fst (get k s))"
    using get_put [OF rk p] get_put_other [OF rk(1) Cons.prems(3) _ p] by auto
  with Cons.IH [OF r all ready_put [OF rk(1) Cons.prems(3) p]] kv show ?case
    by (auto simp: map_add_def split: option.splits)
qed simp

end

end
