(* ===== verification/CLib.thy ===== *)
theory CLib
  imports Prelude
begin

text \<open>
  The part of the C library the sources use on bytes and strings: a byte is a
  \<^typ>\<open>char\<close>, a buffer a \<^typ>\<open>string\<close>; a C string is what precedes the first NUL of its
  buffer. The classification functions are those of the C locale; \<open>strtol\<close> works at
  base ten on a 64-bit \<open>long\<close>; the numeric conversions of \<open>printf\<close> are
  \<open>%d\<close>/\<open>%ld\<close>/\<open>%zu\<close> and their zero-padded forms; \<open>gmtime_r\<close> is the proleptic
  Gregorian calendar.
\<close>

abbreviation NUL :: char where "NUL \<equiv> CHR 0x00"
abbreviation NL :: char where "NL \<equiv> CHR 0x0A"
abbreviation CR :: char where "CR \<equiv> CHR 0x0D"
abbreviation TAB :: char where "TAB \<equiv> CHR 0x09"
abbreviation SP :: char where "SP \<equiv> CHR 0x20"

section \<open>Definitions\<close>

definition cstr :: "string \<Rightarrow> string" where
  "cstr s = takeWhile (\<lambda>c. c \<noteq> NUL) s"

definition c_isdigit :: "char \<Rightarrow> bool" where
  "c_isdigit c \<longleftrightarrow> 48 \<le> (of_char c :: nat) \<and> (of_char c :: nat) \<le> 57"

definition c_isalpha :: "char \<Rightarrow> bool" where
  "c_isalpha c \<longleftrightarrow> (65 \<le> (of_char c :: nat) \<and> (of_char c :: nat) \<le> 90) \<or>
                  (97 \<le> (of_char c :: nat) \<and> (of_char c :: nat) \<le> 122)"

definition c_isalnum :: "char \<Rightarrow> bool" where
  "c_isalnum c \<longleftrightarrow> c_isalpha c \<or> c_isdigit c"

definition c_isspace :: "char \<Rightarrow> bool" where
  "c_isspace c \<longleftrightarrow> c = SP \<or> (9 \<le> (of_char c :: nat) \<and> (of_char c :: nat) \<le> 13)"

definition is_blank :: "char \<Rightarrow> bool" where
  "is_blank c \<longleftrightarrow> c = SP \<or> c = TAB"

text \<open>Decimal output.\<close>

definition digit_chr :: "nat \<Rightarrow> char" where
  "digit_chr d = char_of (48 + d)"

definition digit_val :: "char \<Rightarrow> nat" where
  "digit_val c = of_char c - 48"

fun dec_nat :: "nat \<Rightarrow> string" where
  "dec_nat n = (if n < 10 then [digit_chr n] else dec_nat (n div 10) @ [digit_chr (n mod 10)])"

declare dec_nat.simps [simp del]

definition dec_int :: "int \<Rightarrow> string" where
  "dec_int i = (if i < 0 then CHR ''-'' # dec_nat (nat (- i)) else dec_nat (nat i))"

definition pad0 :: "nat \<Rightarrow> string \<Rightarrow> string" where
  "pad0 w s = replicate (w - length s) (CHR ''0'') @ s"

text \<open>Decimal input.\<close>

definition digits_val :: "string \<Rightarrow> nat" where
  "digits_val ds = foldl (\<lambda>a c. 10 * a + digit_val c) 0 ds"

definition LONG_MAX :: int where "LONG_MAX = 2 ^ 63 - 1"
definition LONG_MIN :: int where "LONG_MIN = - (2 ^ 63)"
definition INT_MAX :: int where "INT_MAX = 2 ^ 31 - 1"

text \<open>
  \<open>strtol (s, &end, 10)\<close>: the value, the text at \<open>end\<close>, and whether \<open>errno\<close> was set
  to \<open>ERANGE\<close>. Without a digit nothing is consumed and the value is 0.
\<close>

definition strtol_sign :: "string \<Rightarrow> bool \<times> string" where
  "strtol_sign t = (case t of [] \<Rightarrow> (False, [])
     | c # r \<Rightarrow> if c = CHR ''-'' then (True, r) else if c = CHR ''+'' then (False, r) else (False, t))"

definition strtol :: "string \<Rightarrow> int \<times> string \<times> bool" where
  "strtol s =
     (let (neg, u) = strtol_sign (dropWhile c_isspace s);
          ds = takeWhile c_isdigit u;
          rest = dropWhile c_isdigit u
      in if ds = [] then (0, s, False)
         else let v = (if neg then - int (digits_val ds) else int (digits_val ds))
              in if v > LONG_MAX then (LONG_MAX, rest, True)
                 else if v < LONG_MIN then (LONG_MIN, rest, True)
                 else (v, rest, False))"

text \<open>
  \<open>atoi\<close> is \<open>(int) strtol\<close> as the C library in use defines it: the low 32 bits of the
  value, read as two's complement.
\<close>

definition wrap_int :: "int \<Rightarrow> int" where
  "wrap_int v = (v + 2 ^ 31) mod 2 ^ 32 - 2 ^ 31"

definition atoi :: "string \<Rightarrow> int" where
  "atoi s = wrap_int (fst (strtol s))"

text \<open>\<open>snprintf(dst, n, "%s", s)\<close> with its result ignored: truncation to \<open>n - 1\<close> bytes.\<close>

definition snprintf_trunc :: "nat \<Rightarrow> string \<Rightarrow> string" where
  "snprintf_trunc n s = take (n - 1) s"

text \<open>Scanning for a byte: the text before it, and the text after it if it occurs.\<close>

definition split_at :: "char \<Rightarrow> string \<Rightarrow> string \<times> string option" where
  "split_at c s = (takeWhile (\<lambda>x. x \<noteq> c) s,
     case dropWhile (\<lambda>x. x \<noteq> c) s of [] \<Rightarrow> None | _ # r \<Rightarrow> Some r)"

definition starts_with :: "string \<Rightarrow> string \<Rightarrow> bool" where
  "starts_with p s \<longleftrightarrow> take (length p) s = p"

text \<open>\<open>strrchr\<close>: the text before the last occurrence and the text after it.\<close>

definition split_last :: "char \<Rightarrow> string \<Rightarrow> (string \<times> string) option" where
  "split_last c s = (case dropWhile (\<lambda>x. x \<noteq> c) (rev s) of [] \<Rightarrow> None
     | _ # r \<Rightarrow> Some (rev r, rev (takeWhile (\<lambda>x. x \<noteq> c) (rev s))))"

text \<open>
  The text up to its end in lines, as the scanning loops
  \<open>while (*p) { eol = strchr (p, '\n'); ...; if (!eol) break; p = eol + 1; }\<close> visit
  them: a final newline is not followed by an empty line.
\<close>

function c_lines :: "string \<Rightarrow> string list" where
  "c_lines s = (if s = [] then [] else
     (case split_at NL s of (l, None) \<Rightarrow> [l] | (l, Some r) \<Rightarrow> l # c_lines r))"
  by pat_completeness auto
termination
  by (relation "measure length")
    (auto simp: split_at_def split: list.splits dest!: dropWhile_Cons_shorter)

declare c_lines.simps [simp del]

text \<open>Broken-down time.\<close>

record tm =
  tm_year :: int  \<comment> \<open>full year, \<open>tm.tm_year + 1900\<close>\<close>
  tm_mon :: int   \<comment> \<open>1 to 12, \<open>tm.tm_mon + 1\<close>\<close>
  tm_mday :: int
  tm_hour :: int
  tm_min :: int
  tm_sec :: int

definition gmtime_r :: "int \<Rightarrow> tm" where
  "gmtime_r t =
     (let days = t div 86400; rem = t mod 86400;
          z = days + 719468;
          era = z div 146097;
          doe = z mod 146097;
          yoe = (doe - doe div 1460 + doe div 36524 - doe div 146096) div 365;
          doy = doe - (365 * yoe + yoe div 4 - yoe div 100);
          mp = (5 * doy + 2) div 153;
          d = doy - (153 * mp + 2) div 5 + 1;
          m = (if mp < 10 then mp + 3 else mp - 9);
          y = yoe + era * 400 + (if m \<le> 2 then 1 else 0)
      in \<lparr>tm_year = y, tm_mon = m, tm_mday = d,
         tm_hour = rem div 3600, tm_min = rem mod 3600 div 60, tm_sec = rem mod 60\<rparr>)"

text \<open>\<open>%04d%02d%02dT%02d%02d%02dZ\<close> and \<open>%04d-%02d-%02dT%02d:%02d:%02dZ\<close>.\<close>

definition stamp_basic :: "tm \<Rightarrow> string" where
  "stamp_basic t = pad0 4 (dec_int (tm_year t)) @ pad0 2 (dec_int (tm_mon t)) @
     pad0 2 (dec_int (tm_mday t)) @ ''T'' @ pad0 2 (dec_int (tm_hour t)) @
     pad0 2 (dec_int (tm_min t)) @ pad0 2 (dec_int (tm_sec t)) @ ''Z''"

definition stamp_iso :: "tm \<Rightarrow> string" where
  "stamp_iso t = pad0 4 (dec_int (tm_year t)) @ ''-'' @ pad0 2 (dec_int (tm_mon t)) @ ''-'' @
     pad0 2 (dec_int (tm_mday t)) @ ''T'' @ pad0 2 (dec_int (tm_hour t)) @ '':'' @
     pad0 2 (dec_int (tm_min t)) @ '':'' @ pad0 2 (dec_int (tm_sec t)) @ ''Z''"

text \<open>Lower-case hexadecimal, two digits per byte.\<close>

definition hex_digits :: string where
  "hex_digits = ''0123456789abcdef''"

definition hex_digit :: "nat \<Rightarrow> char" where
  "hex_digit n = hex_digits ! n"

definition hex_byte :: "char \<Rightarrow> string" where
  "hex_byte c = [hex_digit (of_char c div 16), hex_digit (of_char c mod 16)]"

definition hex_bytes :: "string \<Rightarrow> string" where
  "hex_bytes bs = concat (map hex_byte bs)"

section \<open>Facts\<close>

lemma cstr_id [simp]: "NUL \<notin> set s \<Longrightarrow> cstr s = s"
  by (simp add: cstr_def)

lemma cstr_no_NUL [simp]: "NUL \<notin> set (cstr s)"
  by (simp add: cstr_def)

lemma cstr_stop [simp]: "NUL \<notin> set s \<Longrightarrow> cstr (s @ NUL # r) = s"
  unfolding cstr_def by (rule takeWhile_stop) auto

lemma cstr_idem [simp]: "cstr (cstr s) = cstr s"
  by simp

lemma length_cstr_le: "length (cstr s) \<le> length s"
  by (simp add: cstr_def length_takeWhile_le)

lemma set_cstr_subset: "set (cstr s) \<subseteq> set s"
  by (auto simp: cstr_def dest: set_takeWhileD)

lemma digit_chr_isdigit [simp]: "d < 10 \<Longrightarrow> c_isdigit (digit_chr d)"
  by (simp add: c_isdigit_def digit_chr_def of_char_of take_bit_eq_mod)

lemma digit_val_chr [simp]: "d < 10 \<Longrightarrow> digit_val (digit_chr d) = d"
  by (simp add: digit_val_def digit_chr_def of_char_of take_bit_eq_mod)

lemma digits_val_snoc [simp]: "digits_val (ds @ [c]) = 10 * digits_val ds + digit_val c"
  by (simp add: digits_val_def)

lemma digits_val_Nil [simp]: "digits_val [] = 0"
  by (simp add: digits_val_def)

lemma dec_nat_small: "n < 10 \<Longrightarrow> dec_nat n = [digit_chr n]"
  by (simp add: dec_nat.simps)

lemma digits_val_single [simp]: "digits_val [c] = digit_val c"
  by (simp add: digits_val_def)

lemma digits_val_dec_nat [simp]: "digits_val (dec_nat n) = n"
proof (induction n rule: dec_nat.induct)
  case (1 n)
  then show ?case by (subst dec_nat.simps) auto
qed

lemma dec_nat_nonempty [simp]: "dec_nat n \<noteq> []"
  by (subst dec_nat.simps) simp

lemma dec_nat_digits: "c \<in> set (dec_nat n) \<Longrightarrow> c_isdigit c"
proof (induction n rule: dec_nat.induct)
  case (1 n)
  then show ?case by (subst (asm) (2) dec_nat.simps) (auto split: if_splits)
qed

lemma dec_nat_inj [simp]: "dec_nat m = dec_nat n \<longleftrightarrow> m = n"
  by (metis digits_val_dec_nat)

lemma length_dec_nat: "0 < k \<Longrightarrow> n < 10 ^ k \<Longrightarrow> length (dec_nat n) \<le> k"
proof (induction k arbitrary: n)
  case (Suc k)
  show ?case
  proof (cases "n < 10")
    case True
    then show ?thesis by (simp add: dec_nat_small)
  next
    case False
    with Suc.prems have "n div 10 < 10 ^ k" "0 < k"
      by (auto intro: gr0I)
    with Suc.IH False show ?thesis
      by (subst dec_nat.simps) simp
  qed
qed simp

lemma isdigit_not_space: "c_isdigit c \<Longrightarrow> \<not> c_isspace c"
  by (auto simp: c_isdigit_def c_isspace_def)

lemma isdigit_not_sign: "c_isdigit c \<Longrightarrow> c \<noteq> CHR ''-'' \<and> c \<noteq> CHR ''+''"
  by (auto simp: c_isdigit_def)

definition no_digit_ahead :: "string \<Rightarrow> bool" where
  "no_digit_ahead r \<longleftrightarrow> r = [] \<or> \<not> c_isdigit (hd r)"

lemma takeWhile_digits_app:
  "(\<And>c. c \<in> set ds \<Longrightarrow> c_isdigit c) \<Longrightarrow> no_digit_ahead r \<Longrightarrow>
     takeWhile c_isdigit (ds @ r) = ds \<and> dropWhile c_isdigit (ds @ r) = r"
  by (induction ds) (cases r, auto simp: no_digit_ahead_def)

lemma dropWhile_head: "xs \<noteq> [] \<Longrightarrow> \<not> P (hd xs) \<Longrightarrow> dropWhile P xs = xs"
  by (cases xs) auto

lemma hd_dec_nat_digit [simp]: "c_isdigit (hd (dec_nat n))"
  using dec_nat_digits [of "hd (dec_nat n)" n] by simp

lemma strtol_digits:
  assumes "ds \<noteq> []" "\<And>c. c \<in> set ds \<Longrightarrow> c_isdigit c" "no_digit_ahead r"
    and "int (digits_val ds) \<le> LONG_MAX"
  shows "strtol (ds @ r) = (int (digits_val ds), r, False)"
proof -
  obtain c cs where ds: "ds = c # cs" using assms(1) by (cases ds) auto
  with assms(2) have c: "c_isdigit c" by simp
  have sp: "dropWhile c_isspace (ds @ r) = ds @ r"
    using c by (simp add: ds isdigit_not_space)
  have sg: "strtol_sign (ds @ r) = (False, ds @ r)"
    using isdigit_not_sign [OF c] by (simp add: strtol_sign_def ds)
  show ?thesis
    using takeWhile_digits_app [OF assms(2,3)] assms(1,4)
    by (simp add: strtol_def sp sg LONG_MIN_def)
qed

lemma strtol_dec_nat [simp]:
  "no_digit_ahead r \<Longrightarrow> int n \<le> LONG_MAX \<Longrightarrow> strtol (dec_nat n @ r) = (int n, r, False)"
  by (subst strtol_digits) (auto intro: dec_nat_digits)

lemma strtol_dec_int:
  assumes "no_digit_ahead r" "LONG_MIN \<le> i" "i \<le> LONG_MAX"
  shows "strtol (dec_int i @ r) = (i, r, False)"
proof (cases "i < 0")
  case True
  have "dropWhile c_isspace (CHR ''-'' # dec_nat (nat (- i)) @ r) = CHR ''-'' # dec_nat (nat (- i)) @ r"
    by (simp add: c_isspace_def)
  with True assms takeWhile_digits_app [of "dec_nat (nat (- i))" r, OF dec_nat_digits] show ?thesis
    by (simp add: strtol_def strtol_sign_def dec_int_def LONG_MAX_def LONG_MIN_def)
next
  case False
  then show ?thesis using assms by (simp add: dec_int_def)
qed

lemma strtol_dec_nat_full [simp]: "int n \<le> LONG_MAX \<Longrightarrow> strtol (dec_nat n) = (int n, [], False)"
  using strtol_dec_nat [of "[]" n] by (simp add: no_digit_ahead_def)

lemma strtol_range: "strtol s = (v, r, e) \<Longrightarrow> LONG_MIN \<le> v \<and> v \<le> LONG_MAX"
  by (auto simp: strtol_def Let_def LONG_MIN_def LONG_MAX_def split: prod.splits if_splits)

lemma wrap_int_id: "- (2 ^ 31) \<le> v \<Longrightarrow> v \<le> INT_MAX \<Longrightarrow> wrap_int v = v"
  by (simp add: wrap_int_def INT_MAX_def)

lemma wrap_int_range: "- (2 ^ 31) \<le> wrap_int v \<and> wrap_int v \<le> INT_MAX"
  using pos_mod_bound [of "2 ^ 32" "v + 2 ^ 31"] by (simp add: wrap_int_def INT_MAX_def)

lemma split_at_found [parse_simps]:
  "c \<notin> set a \<Longrightarrow> split_at c (a @ c # b) = (a, Some b)"
proof -
  assume "c \<notin> set a"
  then have "\<And>x. x \<in> set a \<Longrightarrow> x \<noteq> c" by auto
  then show ?thesis
    by (simp add: split_at_def takeWhile_stop dropWhile_stop)
qed

lemma split_at_absent [parse_simps]: "c \<notin> set a \<Longrightarrow> split_at c a = (a, None)"
  by (simp add: split_at_def dropWhile_neq_Nil [THEN iffD2])

lemma split_at_SomeD: "split_at c s = (a, Some b) \<Longrightarrow> s = a @ c # b \<and> c \<notin> set a"
  by (auto simp: split_at_def split: list.splits dest: takeWhile_neq_dropWhile)

lemma split_at_NoneD: "split_at c s = (a, None) \<Longrightarrow> s = a \<and> c \<notin> set a"
  by (auto simp: split_at_def dropWhile_neq_Nil split: list.splits)

lemma starts_with_iff: "starts_with p s \<longleftrightarrow> (\<exists>r. s = p @ r)"
  by (auto simp: starts_with_def) (metis append_take_drop_id)

lemma starts_with_append [simp]: "starts_with p (p @ r)"
  by (auto simp: starts_with_iff)

lemma c_lines_Nil [simp]: "c_lines [] = []"
  by (simp add: c_lines.simps)

lemma c_lines_line [parse_simps]: "NL \<notin> set l \<Longrightarrow> c_lines (l @ NL # r) = l # c_lines r"
  by (subst c_lines.simps) (simp add: split_at_found)

lemma c_lines_last [parse_simps]: "NL \<notin> set l \<Longrightarrow> l \<noteq> [] \<Longrightarrow> c_lines l = [l]"
  by (subst c_lines.simps) (simp add: split_at_absent)

lemma c_lines_no_NL: "l \<in> set (c_lines s) \<Longrightarrow> NL \<notin> set l"
proof (induction s rule: c_lines.induct)
  case (1 s)
  show ?case
  proof (cases "s = []")
    case False
    then show ?thesis using 1
      by (cases "split_at NL s") (auto simp: c_lines.simps [of s]
          split: option.splits dest: split_at_SomeD split_at_NoneD)
  qed (use 1 in simp)
qed

lemma split_last_found: "c \<notin> set b \<Longrightarrow> split_last c (a @ c # b) = Some (a, b)"
proof -
  assume "c \<notin> set b"
  then have "\<And>x. x \<in> set (rev b) \<Longrightarrow> x \<noteq> c" by auto
  from takeWhile_stop [of "rev b" "\<lambda>x. x \<noteq> c" c "rev a", OF this]
    dropWhile_stop [of "rev b" "\<lambda>x. x \<noteq> c" c "rev a", OF this]
  show ?thesis by (simp add: split_last_def)
qed

lemma split_last_absent: "c \<notin> set s \<Longrightarrow> split_last c s = None"
  by (simp add: split_last_def dropWhile_neq_Nil [THEN iffD2] split: list.splits)

lemma split_last_SomeD: "split_last c s = Some (a, b) \<Longrightarrow> s = a @ c # b \<and> c \<notin> set b"
proof -
  assume *: "split_last c s = Some (a, b)"
  then obtain x r where d: "dropWhile (\<lambda>x. x \<noteq> c) (rev s) = x # r"
    and a: "a = rev r" and b: "b = rev (takeWhile (\<lambda>x. x \<noteq> c) (rev s))"
    by (auto simp: split_last_def split: list.splits)
  have "rev s = takeWhile (\<lambda>x. x \<noteq> c) (rev s) @ c # r"
    using takeWhile_neq_dropWhile [OF d] by simp
  then have "rev (rev s) = rev (takeWhile (\<lambda>x. x \<noteq> c) (rev s) @ c # r)" by (rule arg_cong)
  then show ?thesis by (simp add: a b)
qed

lemma split_last_NoneD: "split_last c s = None \<Longrightarrow> c \<notin> set s"
  by (auto simp: split_last_def dropWhile_neq_Nil split: list.splits)

lemma length_pad0: "length (pad0 w s) = max w (length s)"
  by (simp add: pad0_def)

lemma set_pad0: "set (pad0 w s) \<subseteq> insert (CHR ''0'') (set s)"
  by (auto simp: pad0_def)

lemma hex_digit_in: "n < 16 \<Longrightarrow> hex_digit n \<in> set hex_digits"
  unfolding hex_digit_def by (rule nth_mem) (simp add: hex_digits_def)

lemma hex_byte_digits: "set (hex_byte b) \<subseteq> set hex_digits"
proof -
  have "(of_char b :: nat) div 16 < 16" using nat_of_char_less_256 [of b] by (simp add: div_less_iff_less_mult)
  then show ?thesis by (simp add: hex_byte_def hex_digit_in)
qed

lemma hex_bytes_digits: "set (hex_bytes bs) \<subseteq> set hex_digits"
  using hex_byte_digits by (fastforce simp: hex_bytes_def)

lemma hex_bytes_length [simp]: "length (hex_bytes bs) = 2 * length bs"
  by (induction bs) (simp_all add: hex_bytes_def hex_byte_def)

end
