(* ===== verification/AgentFS.thy ===== *)
theory AgentFS
  imports CLib "HOL-Library.Word" "HOL-Library.Multiset"
begin

text \<open>
  The kernel module (\<open>src/kernel/agentfs.c\<close>): agents bound to tasks, with an inbox and an
  outbox each, behind a small file system.

  Kernel memory is a map from addresses to live \<open>struct agent\<close>s; an address that was
  given to \<open>kfree\<close> is no longer in it, and an address is never used twice, so a stale
  pointer shows. Allocations succeed or fail by the schedule \<open>oom\<close> (empty: they all
  succeed). Task references taken with \<open>get_task_struct\<close> and not yet put are the multiset
  \<open>refs\<close>. A critical section is one step, as the mutexes make it; a blocking \<open>read\<close> is its
  loop body, with the value \<open>Blocked\<close> when it would sleep. Counters are 64-bit words. A
  user buffer is the list of bytes that can be read at its address, or the number of bytes
  that can be written there.
\<close>

section \<open>Definitions\<close>

datatype kerr = K_ENOENT | K_EIO | K_ENOMEM | K_EFAULT | K_EINVAL | K_EEXIST | K_EAGAIN |
  K_EMSGSIZE | K_ENOSPC | K_ESHUTDOWN

definition AGENTFS_MAX_NAME :: nat where "AGENTFS_MAX_NAME = 64"
definition AGENTFS_MAX_MESSAGE :: "64 word" where "AGENTFS_MAX_MESSAGE = push_bit 20 1"
definition AGENTFS_MAX_QUEUE_BYTES :: "64 word" where "AGENTFS_MAX_QUEUE_BYTES = push_bit 20 8"
definition AGENTFS_MAX_QUEUE_MSGS :: "64 word" where "AGENTFS_MAX_QUEUE_MSGS = 1024"

datatype mailbox_kind = MBOX_INBOX | MBOX_OUTBOX

record mailbox =
  messages :: "string list"
  queued_bytes :: "64 word"
  queued_messages :: "64 word"
  messages_processed :: "64 word"

record agent =
  agname :: string
  owner :: "nat option"
  uid :: nat
  gid :: nat
  agpid :: int
  dead :: bool
  inbox :: mailbox
  outbox :: mailbox
  agdir :: nat

record task =
  tid :: nat
  t_uid :: nat
  t_gid :: nat
  t_pid :: int

datatype node_ops = DirOps | RegisterOps | PidOps | StatusOps | OwnerOps | StatsOps | MailboxOps

record dentry =
  d_parent :: nat
  d_name :: string
  d_ops :: node_ops
  d_mode :: nat
  d_priv :: "nat option"

record afs =
  heap :: "(nat, agent) alist"
  next_addr :: nat
  g_agents :: "nat list"
  dentries :: "(nat, dentry) alist"
  next_dentry :: nat
  alive :: "nat list"
  refs :: "nat multiset"
  oom :: "bool list"

text \<open>The letters and digits of the kernel's table include the Latin-1 letters.\<close>

definition k_isalnum :: "char \<Rightarrow> bool" where
  "k_isalnum c \<longleftrightarrow> c_isalnum c \<or> 192 \<le> (of_char c :: nat) \<and> of_char c \<noteq> (215 :: nat) \<and> of_char c \<noteq> (247 :: nat)"

definition agentfs_valid_name :: "string \<Rightarrow> bool" where
  "agentfs_valid_name s \<longleftrightarrow> s \<noteq> [] \<and> length s < AGENTFS_MAX_NAME \<and> hd s \<noteq> CHR ''.'' \<and> hd s \<noteq> CHR ''-'' \<and>
     (\<forall>c \<in> set s. k_isalnum c \<or> c = CHR ''_'' \<or> c = CHR ''-'' \<or> c = CHR ''.'')"

definition mailbox_init :: mailbox where
  "mailbox_init = \<lparr>messages = [], queued_bytes = 0, queued_messages = 0, messages_processed = 0\<rparr>"

definition mailbox_drain_locked :: "mailbox \<Rightarrow> mailbox" where
  "mailbox_drain_locked m = m\<lparr>messages := [], queued_bytes := 0, queued_messages := 0\<rparr>"

fun agent_mailbox :: "mailbox_kind \<Rightarrow> agent \<Rightarrow> mailbox" where
  "agent_mailbox MBOX_INBOX a = inbox a"
| "agent_mailbox MBOX_OUTBOX a = outbox a"

fun set_mailbox :: "mailbox_kind \<Rightarrow> mailbox \<Rightarrow> agent \<Rightarrow> agent" where
  "set_mailbox MBOX_INBOX m a = a\<lparr>inbox := m\<rparr>"
| "set_mailbox MBOX_OUTBOX m a = a\<lparr>outbox := m\<rparr>"

definition agent_status_word :: "agent \<Rightarrow> string" where
  "agent_status_word a = (if dead a then ''dead'' else ''running'')"

text \<open>Access to kernel memory; a stale address is \<open>None\<close>.\<close>

definition deref :: "afs \<Rightarrow> nat \<Rightarrow> agent option" where
  "deref s p = map_of (heap s) p"

definition store :: "nat \<Rightarrow> agent \<Rightarrow> afs \<Rightarrow> afs" where
  "store p a s = s\<lparr>heap := AList.update p a (heap s)\<rparr>"

definition kmalloc :: "afs \<Rightarrow> bool \<times> afs" where
  "kmalloc s = (case oom s of [] \<Rightarrow> (True, s) | b # r \<Rightarrow> (b, s\<lparr>oom := r\<rparr>))"

definition pid_alive :: "afs \<Rightarrow> nat \<Rightarrow> bool" where
  "pid_alive s t \<longleftrightarrow> t \<in> set (alive s)"

definition put_owner :: "agent \<Rightarrow> afs \<Rightarrow> afs" where
  "put_owner a s = (case owner a of None \<Rightarrow> s | Some t \<Rightarrow> s\<lparr>refs := refs s - {#t#}\<rparr>)"

definition get_task :: "task \<Rightarrow> afs \<Rightarrow> afs" where
  "get_task t s = s\<lparr>refs := refs s + {#tid t#}\<rparr>"

text \<open>The reaper: one pass over the list.\<close>

definition owner_alive :: "afs \<Rightarrow> agent \<Rightarrow> bool" where
  "owner_alive s a \<longleftrightarrow> (case owner a of None \<Rightarrow> False | Some t \<Rightarrow> pid_alive s t)"

definition bury :: "agent \<Rightarrow> agent" where
  "bury a = a\<lparr>dead := True, inbox := mailbox_drain_locked (inbox a), outbox := mailbox_drain_locked (outbox a)\<rparr>"

definition reap_one :: "nat \<Rightarrow> afs \<Rightarrow> afs" where
  "reap_one p s = (case deref s p of
       None \<Rightarrow> s
     | Some a \<Rightarrow> if dead a \<or> owner_alive s a then s
                 else put_owner a (store p ((bury a)\<lparr>owner := None\<rparr>) s))"

definition agentfs_reaper :: "afs \<Rightarrow> afs" where
  "agentfs_reaper s = fold reap_one (g_agents s) s"

text \<open>The mailbox files.\<close>

datatype read_result = Got string | Eof | Rerr kerr | Blocked

definition take_message :: "mailbox \<Rightarrow> string \<times> mailbox" where
  "take_message mb = (hd (messages mb), mb\<lparr>messages := tl (messages mb),
     queued_bytes := queued_bytes mb - of_nat (length (hd (messages mb))),
     queued_messages := queued_messages mb - 1, messages_processed := messages_processed mb + 1\<rparr>)"

definition copy_to_user :: "nat \<Rightarrow> string \<Rightarrow> bool" where
  "copy_to_user room bs \<longleftrightarrow> length bs \<le> room"

definition copy_from_user :: "string \<Rightarrow> nat \<Rightarrow> string option" where
  "copy_from_user u n = (if n \<le> length u then Some (take n u) else None)"

definition mailbox_read :: "bool \<Rightarrow> nat \<Rightarrow> mailbox_kind \<Rightarrow> 64 word \<Rightarrow> agent \<Rightarrow> read_result \<times> agent" where
  "mailbox_read nonblock room k len a =
     (let mb = agent_mailbox k a in
      if dead a \<and> messages mb = [] then (Eof, a)
      else if messages mb \<noteq> [] then
        (let (m, mb) = take_message mb; a = set_mailbox k mb a; out = take (min (length m) (unat len)) m in
         if copy_to_user room out then (Got out, a) else (Rerr K_EFAULT, a))
      else if nonblock then (Rerr K_EAGAIN, a)
      else (Blocked, a))"

definition wait_over :: "mailbox_kind \<Rightarrow> agent \<Rightarrow> bool" where
  "wait_over k a \<longleftrightarrow> messages (agent_mailbox k a) \<noteq> [] \<or> dead a"

definition add_message :: "string \<Rightarrow> 64 word \<Rightarrow> mailbox \<Rightarrow> mailbox" where
  "add_message m len mb = mb\<lparr>messages := messages mb @ [m], queued_bytes := queued_bytes mb + len,
     queued_messages := queued_messages mb + 1\<rparr>"

definition mailbox_write :: "bool \<Rightarrow> string \<Rightarrow> mailbox_kind \<Rightarrow> 64 word \<Rightarrow> agent \<Rightarrow> (kerr + 64 word) \<times> agent" where
  "mailbox_write mem u k len a =
     (if len = 0 then (Inr 0, a)
      else if len > AGENTFS_MAX_MESSAGE then (Inl K_EMSGSIZE, a)
      else if \<not> mem then (Inl K_ENOMEM, a)
      else (case copy_from_user u (unat len) of
          None \<Rightarrow> (Inl K_EFAULT, a)
        | Some m \<Rightarrow>
            (let mb = agent_mailbox k a in
             if dead a then (Inl K_ESHUTDOWN, a)
             else if queued_messages mb \<ge> AGENTFS_MAX_QUEUE_MSGS \<or> queued_bytes mb + len > AGENTFS_MAX_QUEUE_BYTES
             then (Inl K_ENOSPC, a)
             else (Inr len, set_mailbox k (add_message m len mb) a))))"

datatype poll_bit = EPOLLIN | EPOLLRDNORM | EPOLLHUP | EPOLLOUT | EPOLLWRNORM

definition mailbox_poll :: "mailbox_kind \<Rightarrow> agent \<Rightarrow> poll_bit list" where
  "mailbox_poll k a = (let mb = agent_mailbox k a in
     (if messages mb \<noteq> [] then [EPOLLIN, EPOLLRDNORM] else []) @
     (if dead a then [EPOLLHUP] else []) @
     (if \<not> dead a \<and> queued_messages mb < AGENTFS_MAX_QUEUE_MSGS \<and> queued_bytes mb < AGENTFS_MAX_QUEUE_BYTES
      then [EPOLLOUT, EPOLLWRNORM] else []))"

record mailbox_ctx =
  c_agent :: nat
  c_kind :: mailbox_kind

definition mailbox_open :: "dentry \<Rightarrow> afs \<Rightarrow> (kerr + mailbox_ctx) \<times> afs" where
  "mailbox_open d s = (case d_priv d of
       None \<Rightarrow> (Inl K_ENOENT, s)
     | Some p \<Rightarrow> (let (mem, s) = kmalloc s in
         if \<not> mem then (Inl K_ENOMEM, s)
         else (Inr \<lparr>c_agent = p, c_kind = (if d_name d = ''outbox'' then MBOX_OUTBOX else MBOX_INBOX)\<rparr>, s)))"

text \<open>The text files; \<open>simple_read_from_buffer\<close> from offset \<open>off\<close>.\<close>

definition simple_read :: "nat \<Rightarrow> nat \<Rightarrow> nat \<Rightarrow> string \<Rightarrow> kerr + string" where
  "simple_read room len off buf = (let out = take len (drop off buf) in
     if copy_to_user room out then Inr out else Inl K_EFAULT)"

definition agent_pid_text :: "agent \<Rightarrow> string" where
  "agent_pid_text a = dec_int (agpid a) @ [NL]"

definition agent_status_text :: "agent \<Rightarrow> string" where
  "agent_status_text a = agent_status_word a @ [NL]"

definition agent_owner_text :: "agent \<Rightarrow> string" where
  "agent_owner_text a = ''uid='' @ dec_nat (uid a) @ '' gid='' @ dec_nat (gid a) @ [NL]"

definition mailbox_stats :: "string \<Rightarrow> mailbox \<Rightarrow> string" where
  "mailbox_stats l m = l @ ''_messages='' @ dec_nat (unat (queued_messages m)) @ [NL] @
     l @ ''_bytes='' @ dec_nat (unat (queued_bytes m)) @ [NL] @
     l @ ''_processed='' @ dec_int (sint (messages_processed m)) @ [NL]"

definition agent_stats_text :: "agent \<Rightarrow> string" where
  "agent_stats_text a = snprintf_trunc 256 (mailbox_stats ''inbox'' (inbox a) @ mailbox_stats ''outbox'' (outbox a))"

fun agent_text :: "node_ops \<Rightarrow> (agent \<Rightarrow> string) option" where
  "agent_text PidOps = Some agent_pid_text"
| "agent_text StatusOps = Some agent_status_text"
| "agent_text OwnerOps = Some agent_owner_text"
| "agent_text StatsOps = Some agent_stats_text"
| "agent_text _ = None"

definition agent_text_read :: "dentry \<Rightarrow> nat \<Rightarrow> nat \<Rightarrow> nat \<Rightarrow> afs \<Rightarrow> (kerr + string) option" where
  "agent_text_read d room len off s = (case agent_text (d_ops d) of
       None \<Rightarrow> None
     | Some f \<Rightarrow> (case d_priv d of
           None \<Rightarrow> Some (Inl K_EIO)
         | Some p \<Rightarrow> map_option (\<lambda>a. simple_read room len off (f a)) (deref s p)))"

text \<open>Directory entries: one allocation for the entry, one for the inode.\<close>

definition agentfs_add :: "nat \<Rightarrow> string \<Rightarrow> node_ops \<Rightarrow> nat option \<Rightarrow> nat \<Rightarrow> afs \<Rightarrow> (kerr + nat) \<times> afs" where
  "agentfs_add parent name ops priv mode s =
     (let (d, s) = kmalloc s in if \<not> d then (Inl K_ENOMEM, s)
      else (let (i, s) = kmalloc s in if \<not> i then (Inl K_ENOMEM, s)
        else (Inr (next_dentry s), s\<lparr>next_dentry := next_dentry s + 1, dentries := AList.update (next_dentry s)
          \<lparr>d_parent = parent, d_name = name, d_ops = ops, d_mode = mode, d_priv = priv\<rparr> (dentries s)\<rparr>)))"

definition agentfs_add_file :: "nat \<Rightarrow> string \<Rightarrow> node_ops \<Rightarrow> nat option \<Rightarrow> nat \<Rightarrow> afs \<Rightarrow> (kerr + nat) \<times> afs" where
  "agentfs_add_file parent name fops priv mode = agentfs_add parent name fops priv mode"

definition agentfs_add_dir :: "nat \<Rightarrow> string \<Rightarrow> afs \<Rightarrow> (kerr + nat) \<times> afs" where
  "agentfs_add_dir parent name = agentfs_add parent name DirOps None 493"

definition ROOT :: nat where "ROOT = 0"
definition g_agents_dentry :: nat where "g_agents_dentry = 2"

definition agent_files :: "(string \<times> node_ops \<times> nat) list" where
  "agent_files = [(''pid'', PidOps, 292), (''status'', StatusOps, 292), (''owner'', OwnerOps, 292),
     (''stats'', StatsOps, 292), (''inbox'', MailboxOps, 384), (''outbox'', MailboxOps, 384)]"

fun add_files :: "nat \<Rightarrow> nat \<Rightarrow> (string \<times> node_ops \<times> nat) list \<Rightarrow> afs \<Rightarrow> (kerr + unit) \<times> afs" where
  "add_files dir p [] s = (Inr (), s)"
| "add_files dir p ((n, f, m) # fs) s = (case agentfs_add_file dir n f (Some p) m s of
       (Inl e, s) \<Rightarrow> (Inl e, s) | (Inr _, s) \<Rightarrow> add_files dir p fs s)"

definition agentfs_build_agent_tree :: "nat \<Rightarrow> agent \<Rightarrow> afs \<Rightarrow> (kerr + unit) \<times> afs" where
  "agentfs_build_agent_tree p a s = (case agentfs_add_dir g_agents_dentry (agname a) s of
       (Inl e, s) \<Rightarrow> (Inl e, s)
     | (Inr dir, s) \<Rightarrow> add_files dir p agent_files (store p (a\<lparr>agdir := dir\<rparr>) s))"

text \<open>Registration.\<close>

definition find_agent :: "string \<Rightarrow> afs \<Rightarrow> nat option" where
  "find_agent name s = find (\<lambda>p. case deref s p of Some a \<Rightarrow> agname a = name | None \<Rightarrow> False) (g_agents s)"

definition recyclable :: "afs \<Rightarrow> agent \<Rightarrow> bool" where
  "recyclable s a \<longleftrightarrow> dead a \<or> (case owner a of Some t \<Rightarrow> \<not> pid_alive s t | None \<Rightarrow> False)"

definition adopt :: "task \<Rightarrow> agent \<Rightarrow> agent" where
  "adopt t a = a\<lparr>owner := Some (tid t), uid := t_uid t, gid := t_gid t, agpid := t_pid t, dead := False\<rparr>"

definition recycle :: "task \<Rightarrow> agent \<Rightarrow> agent" where
  "recycle t a = adopt t (a\<lparr>inbox := (mailbox_drain_locked (inbox a))\<lparr>messages_processed := 0\<rparr>,
     outbox := (mailbox_drain_locked (outbox a))\<lparr>messages_processed := 0\<rparr>\<rparr>)"

definition new_agent :: "task \<Rightarrow> string \<Rightarrow> agent" where
  "new_agent t name = adopt t \<lparr>agname = snprintf_trunc AGENTFS_MAX_NAME name, owner = None, uid = 0, gid = 0, agpid = 0,
     dead = False, inbox = mailbox_init, outbox = mailbox_init, agdir = 0\<rparr>"

definition agentfs_register :: "task \<Rightarrow> string \<Rightarrow> afs \<Rightarrow> (kerr + unit) \<times> afs" where
  "agentfs_register cur name s = (case find_agent name s of
       Some p \<Rightarrow> (case deref s p of
           None \<Rightarrow> (Inl K_EIO, s)
         | Some a \<Rightarrow> if \<not> recyclable s a then (Inl K_EEXIST, s)
                     else (Inr (), store p (recycle cur a) (get_task cur (put_owner a s))))
     | None \<Rightarrow> (let (mem, s) = kmalloc s in
         if \<not> mem then (Inl K_ENOMEM, s)
         else (let p = next_addr s; a = new_agent cur name;
                   s = store p a (get_task cur (s\<lparr>next_addr := p + 1, g_agents := p # g_agents s\<rparr>))
               in case agentfs_build_agent_tree p a s of
                    (Inr _, s) \<Rightarrow> (Inr (), s)
                  | (Inl e, s) \<Rightarrow> (Inl e, put_owner a (s\<lparr>g_agents := remove1 p (g_agents s), heap := AList.delete p (heap s)\<rparr>)))))"

definition register_name :: "string \<Rightarrow> string" where
  "register_name b = (if b \<noteq> [] \<and> last b = NL then butlast b else b)"

definition register_write :: "task \<Rightarrow> string \<Rightarrow> 64 word \<Rightarrow> afs \<Rightarrow> (kerr + 64 word) \<times> afs" where
  "register_write cur u len s =
     (if len = 0 then (Inr 0, s)
      else (case copy_from_user u (min (unat len) (AGENTFS_MAX_NAME - 1)) of
          None \<Rightarrow> (Inl K_EFAULT, s)
        | Some b \<Rightarrow> (let n = register_name b in
            if \<not> agentfs_valid_name n then (Inl K_EINVAL, s)
            else (case agentfs_register cur n s of
                (Inl e, s) \<Rightarrow> (Inl e, s) | (Inr _, s) \<Rightarrow> (Inr len, s)))))"

text \<open>Mounting and unloading.\<close>

definition agentfs_empty :: afs where
  "agentfs_empty = \<lparr>heap = [], next_addr = 0, g_agents = [], dentries = [], next_dentry = 0, alive = [], refs = {#}, oom = []\<rparr>"

definition agentfs_fill_super :: "afs \<Rightarrow> (kerr + unit) \<times> afs" where
  "agentfs_fill_super s = (case agentfs_add ROOT [] DirOps None 493 s of
       (Inl e, s) \<Rightarrow> (Inl e, s)
     | (Inr _, s) \<Rightarrow>
         (let (reg, s) = agentfs_add_file ROOT ''register'' RegisterOps None 128 s;
              (agents, s) = agentfs_add_dir ROOT ''agents'' s
          in (case reg of Inl e \<Rightarrow> Inl e | Inr _ \<Rightarrow> (case agents of Inl e \<Rightarrow> Inl e | Inr _ \<Rightarrow> Inr ()), s)))"

definition exit_one :: "nat \<Rightarrow> afs \<Rightarrow> afs" where
  "exit_one p s = (case deref s p of
       None \<Rightarrow> s
     | Some a \<Rightarrow> put_owner a (s\<lparr>g_agents := remove1 p (g_agents s), heap := AList.delete p (heap s)\<rparr>))"

definition agentfs_exit :: "afs \<Rightarrow> afs" where
  "agentfs_exit s = fold exit_one (g_agents s) s"

text \<open>One event of the module: a system call of some task, a tick of the reaper, a task's end.\<close>

datatype afs_event =
    Register task string "64 word"
  | Open nat
  | Read mailbox_ctx bool nat "64 word"
  | Write mailbox_ctx string "64 word"
  | Tick
  | Born nat
  | Gone nat

definition ctx_read :: "mailbox_ctx \<Rightarrow> bool \<Rightarrow> nat \<Rightarrow> 64 word \<Rightarrow> afs \<Rightarrow> read_result option \<times> afs" where
  "ctx_read c nb room len s = (case deref s (c_agent c) of
       None \<Rightarrow> (None, s)
     | Some a \<Rightarrow> (let (r, a) = mailbox_read nb room (c_kind c) len a in (Some r, store (c_agent c) a s)))"

definition ctx_write :: "mailbox_ctx \<Rightarrow> string \<Rightarrow> 64 word \<Rightarrow> afs \<Rightarrow> (kerr + 64 word) option \<times> afs" where
  "ctx_write c u len s = (case deref s (c_agent c) of
       None \<Rightarrow> (None, s)
     | Some a \<Rightarrow> (let (mem, s) = (if len = 0 \<or> len > AGENTFS_MAX_MESSAGE then (True, s) else kmalloc s);
                      (r, a) = mailbox_write mem u (c_kind c) len a
                  in (Some r, store (c_agent c) a s)))"

fun afs_step :: "afs_event \<Rightarrow> afs \<Rightarrow> afs" where
  "afs_step (Register t u len) s = snd (register_write t u len s)"
| "afs_step (Open d) s = (case map_of (dentries s) d of None \<Rightarrow> s | Some d \<Rightarrow> snd (mailbox_open d s))"
| "afs_step (Read c nb room len) s = snd (ctx_read c nb room len s)"
| "afs_step (Write c u len) s = snd (ctx_write c u len s)"
| "afs_step Tick s = agentfs_reaper s"
| "afs_step (Born t) s = s\<lparr>alive := t # alive s\<rparr>"
| "afs_step (Gone t) s = s\<lparr>alive := removeAll t (alive s)\<rparr>"

section \<open>Mailboxes\<close>

definition volume :: "string list \<Rightarrow> nat" where
  "volume ms = sum_list (map length ms)"

lemma volume_simps [simp]: "volume [] = 0" "volume (m # ms) = length m + volume ms"
  "volume (ms @ ns) = volume ms + volume ns"
  by (simp_all add: volume_def)

definition message_ok :: "string \<Rightarrow> bool" where
  "message_ok m \<longleftrightarrow> 0 < length m \<and> length m \<le> 1048576"

definition mailbox_ok :: "mailbox \<Rightarrow> bool" where
  "mailbox_ok m \<longleftrightarrow> unat (queued_bytes m) = volume (messages m) \<and> unat (queued_messages m) = length (messages m) \<and>
     length (messages m) \<le> 1024 \<and> volume (messages m) \<le> 8388608 \<and> list_all message_ok (messages m)"

definition agent_ok :: "agent \<Rightarrow> bool" where
  "agent_ok a \<longleftrightarrow> mailbox_ok (inbox a) \<and> mailbox_ok (outbox a) \<and> agentfs_valid_name (agname a) \<and>
     (dead a \<longrightarrow> owner a = None \<and> messages (inbox a) = [] \<and> messages (outbox a) = []) \<and>
     (\<not> dead a \<longrightarrow> owner a \<noteq> None)"

lemma limits [simp]: "unat AGENTFS_MAX_MESSAGE = 1048576" "unat AGENTFS_MAX_QUEUE_BYTES = 8388608"
  "unat AGENTFS_MAX_QUEUE_MSGS = 1024"
  by (simp_all add: AGENTFS_MAX_MESSAGE_def AGENTFS_MAX_QUEUE_BYTES_def AGENTFS_MAX_QUEUE_MSGS_def push_bit_eq_mult)

lemma mailbox_ok_empty [simp]: "mailbox_ok mailbox_init" "mailbox_ok (mailbox_drain_locked m)"
  "mailbox_ok ((mailbox_drain_locked m)\<lparr>messages_processed := x\<rparr>)"
  by (simp_all add: mailbox_ok_def mailbox_init_def mailbox_drain_locked_def)

lemma agent_mailbox_set [simp]:
  "agent_mailbox k (set_mailbox j m a) = (if k = j then m else agent_mailbox k a)"
  "owner (set_mailbox k m a) = owner a" "agname (set_mailbox k m a) = agname a" "dead (set_mailbox k m a) = dead a"
  by (cases k; cases j; simp)+

lemma agent_ok_mailbox: "agent_ok a \<Longrightarrow> mailbox_ok (agent_mailbox k a)"
  by (cases k) (auto simp: agent_ok_def)

lemma agent_ok_dead: "agent_ok a \<Longrightarrow> dead a \<Longrightarrow> messages (agent_mailbox k a) = []"
  by (cases k) (auto simp: agent_ok_def)

lemma agent_ok_set: "agent_ok a \<Longrightarrow> \<not> dead a \<Longrightarrow> mailbox_ok m \<Longrightarrow> agent_ok (set_mailbox k m a)"
  by (cases k) (auto simp: agent_ok_def)

text \<open>The counters do not wrap: the checks of \<open>mailbox_write\<close> are the ones on numbers.\<close>

lemma full_iff:
  assumes "mailbox_ok mb" "unat len \<le> 1048576"
  shows "queued_messages mb \<ge> AGENTFS_MAX_QUEUE_MSGS \<or> queued_bytes mb + len > AGENTFS_MAX_QUEUE_BYTES \<longleftrightarrow>
    length (messages mb) \<ge> 1024 \<or> volume (messages mb) + unat len > 8388608"
proof -
  have "unat (queued_bytes mb + len) = volume (messages mb) + unat len"
    using assms by (simp add: mailbox_ok_def unat_word_ariths)
  then show ?thesis using assms(1) by (simp add: mailbox_ok_def word_le_nat_alt word_less_nat_alt)
qed

lemma add_message_ok:
  assumes "mailbox_ok mb" "unat len = length m" "message_ok m"
    and "length (messages mb) < 1024" "volume (messages mb) + length m \<le> 8388608"
  shows "mailbox_ok (add_message m len mb)"
  using assms by (simp add: mailbox_ok_def add_message_def unat_word_ariths message_ok_def)

lemma take_message_ok:
  assumes "mailbox_ok mb" "take_message mb = (m, mb')" "messages mb \<noteq> []"
  shows "mailbox_ok mb' \<and> messages mb = m # messages mb'"
proof -
  obtain ms where ms: "messages mb = m # ms" using assms(2,3) by (cases "messages mb") (auto simp: take_message_def)
  have ok: "unat (queued_bytes mb) = length m + volume ms" "unat (queued_messages mb) = Suc (length ms)"
      "length m + volume ms \<le> 8388608" "Suc (length ms) \<le> 1024" "message_ok m" "list_all message_ok ms"
    using assms(1) ms by (auto simp: mailbox_ok_def)
  have l: "unat (of_nat (length m) :: 64 word) = length m"
    using ok(3) by (simp add: unat_of_nat)
  have "unat (queued_bytes mb - of_nat (length m)) = volume ms"
    using ok(1) l by (subst unat_sub) (simp_all add: word_le_nat_alt)
  moreover have "unat (queued_messages mb - 1) = length ms"
    using ok(2) by (subst unat_sub) (simp_all add: word_le_nat_alt)
  ultimately show ?thesis using assms(2) ms ok by (auto simp: take_message_def mailbox_ok_def)
qed

text \<open>Reading and writing by the list of messages.\<close>

lemma mailbox_read_cases:
  assumes "agent_ok a"
  shows "mailbox_read nb room k len a = (case messages (agent_mailbox k a) of
      [] \<Rightarrow> (if dead a then Eof else if nb then Rerr K_EAGAIN else Blocked, a)
    | m # ms \<Rightarrow> (if min (length m) (unat len) \<le> room then Got (take (unat len) m) else Rerr K_EFAULT,
        set_mailbox k (snd (take_message (agent_mailbox k a))) a))"
  by (auto simp: mailbox_read_def take_message_def copy_to_user_def Let_def min_def split: list.splits)

lemma mailbox_read_ok:
  assumes "agent_ok a" "mailbox_read nb room k len a = (r, a')"
  shows "agent_ok a' \<and> owner a' = owner a \<and> agname a' = agname a"
proof (cases "messages (agent_mailbox k a)")
  case Nil
  then show ?thesis using assms by (auto simp: mailbox_read_cases)
next
  case (Cons m ms)
  then have "\<not> dead a" using assms(1) agent_ok_dead by fastforce
  moreover have "mailbox_ok (snd (take_message (agent_mailbox k a)))"
    using take_message_ok [OF agent_ok_mailbox [OF assms(1)], of k] Cons by (metis list.distinct(1) prod.collapse)
  ultimately have "agent_ok (set_mailbox k (snd (take_message (agent_mailbox k a))) a)"
    using agent_ok_set assms(1) by blast
  then show ?thesis using assms Cons by (auto simp: mailbox_read_cases)
qed

text \<open>What a write does, with numbers in place of the 64-bit counters.\<close>

definition write_spec :: "bool \<Rightarrow> string \<Rightarrow> nat \<Rightarrow> bool \<Rightarrow> string list \<Rightarrow> (kerr + nat) \<times> string list" where
  "write_spec mem u n closed ms =
     (if n = 0 then (Inr 0, ms)
      else if n > 1048576 then (Inl K_EMSGSIZE, ms)
      else if \<not> mem then (Inl K_ENOMEM, ms)
      else if n > length u then (Inl K_EFAULT, ms)
      else if closed then (Inl K_ESHUTDOWN, ms)
      else if length ms \<ge> 1024 \<or> volume ms + n > 8388608 then (Inl K_ENOSPC, ms)
      else (Inr n, ms @ [take n u]))"

lemma mailbox_write_spec:
  assumes "agent_ok a" "mailbox_write mem u k len a = (r, a')"
  shows "write_spec mem u (unat len) (dead a) (messages (agent_mailbox k a)) =
      (map_sum id unat r, messages (agent_mailbox k a')) \<and>
    agent_ok a' \<and> owner a' = owner a \<and> agname a' = agname a \<and> dead a' = dead a"
proof (cases "r = Inr len \<and> len \<noteq> 0")
  case True
  have len: "unat len \<noteq> 0" using True by (simp add: unat_eq_0)
  have big: "unat len \<le> 1048576" and mem: mem and u: "unat len \<le> length u" and alive: "\<not> dead a"
    and a': "a' = set_mailbox k (add_message (take (unat len) u) len (agent_mailbox k a)) a"
    and nofull: "\<not> (queued_messages (agent_mailbox k a) \<ge> AGENTFS_MAX_QUEUE_MSGS \<or>
        queued_bytes (agent_mailbox k a) + len > AGENTFS_MAX_QUEUE_BYTES)"
    using assms(2) True
    by (auto simp: mailbox_write_def copy_from_user_def Let_def word_less_nat_alt not_less split: if_splits)
  have room: "length (messages (agent_mailbox k a)) < 1024" "volume (messages (agent_mailbox k a)) + unat len \<le> 8388608"
    using nofull full_iff [OF agent_ok_mailbox [OF assms(1)] big] by auto
  have "mailbox_ok (add_message (take (unat len) u) len (agent_mailbox k a))"
    using add_message_ok [OF agent_ok_mailbox [OF assms(1)], of len "take (unat len) u" k] room big len u
    by (simp add: message_ok_def min_def)
  then have "agent_ok a'" using agent_ok_set [OF assms(1) alive] a' by simp
  then show ?thesis using True len big mem u alive a' room
    by (simp add: write_spec_def add_message_def)
next
  case False
  have a': "a' = a" using assms(2) False
    by (auto simp: mailbox_write_def Let_def split: if_splits option.splits)
  have "r = Inr 0 \<and> unat len = 0 \<or> fst (write_spec mem u (unat len) (dead a) (messages (agent_mailbox k a))) = map_sum id unat r
      \<and> unat len \<noteq> 0 \<and> (\<exists>e. r = Inl e)"
    using assms(2) False full_iff [OF agent_ok_mailbox [OF assms(1)], of len k]
    by (auto simp: mailbox_write_def write_spec_def copy_from_user_def Let_def unat_eq_0 word_less_nat_alt not_less not_le
        split: if_splits)
  then show ?thesis using a' assms(1) by (auto simp: write_spec_def split: if_splits)
qed

text \<open>
  A queue under any sequence of writes and reads. \<open>push\<close> says which message it took, if any,
  and \<open>pop\<close> what its caller got; a reader sees \<open>view j m\<close> of the message \<open>m\<close> it removes.
\<close>

fun queue_run :: "('i \<Rightarrow> 's \<Rightarrow> 'm option \<times> 's) \<Rightarrow> ('j \<Rightarrow> 's \<Rightarrow> 'o option \<times> 's) \<Rightarrow> ('i + 'j) list \<Rightarrow> 's \<Rightarrow>
    'm list \<times> ('j \<times> 'o) list \<times> 's" where
  "queue_run push pop [] s = ([], [], s)"
| "queue_run push pop (Inl i # ops) s =
     (let (r, s) = push i s; (ins, outs, s) = queue_run push pop ops s
      in ((case r of None \<Rightarrow> ins | Some m \<Rightarrow> m # ins), outs, s))"
| "queue_run push pop (Inr j # ops) s =
     (let (r, s) = pop j s; (ins, outs, s) = queue_run push pop ops s
      in (ins, (case r of None \<Rightarrow> outs | Some x \<Rightarrow> (j, x) # outs), s))"

locale fifo_queue =
  fixes content :: "'s \<Rightarrow> 'm list"
    and push :: "'i \<Rightarrow> 's \<Rightarrow> 'm option \<times> 's"
    and pop :: "'j \<Rightarrow> 's \<Rightarrow> 'o option \<times> 's"
    and view :: "'j \<Rightarrow> 'm \<Rightarrow> 'o"
    and invar :: "'s \<Rightarrow> bool"
  assumes push_content: "invar s \<Longrightarrow> push i s = (r, s') \<Longrightarrow>
      content s' = content s @ (case r of None \<Rightarrow> [] | Some m \<Rightarrow> [m])"
    and pop_none: "invar s \<Longrightarrow> pop j s = (None, s') \<Longrightarrow> content s' = content s"
    and pop_some: "invar s \<Longrightarrow> pop j s = (Some x, s') \<Longrightarrow> \<exists>m. content s = m # content s' \<and> x = view j m"
    and push_invar: "invar s \<Longrightarrow> invar (snd (push i s))"
    and pop_invar: "invar s \<Longrightarrow> invar (snd (pop j s))"
begin

lemma in_order: "queue_run push pop ops s = (ins, outs, s') \<Longrightarrow> invar s \<Longrightarrow>
   \<exists>ms. content s @ ins = ms @ content s' \<and> list_all2 (\<lambda>(j, x) m. x = view j m) outs ms"
proof (induction ops arbitrary: s ins outs)
  case (Cons op ops)
  show ?case
  proof (cases op)
    case (Inl i)
    obtain r s1 where r: "push i s = (r, s1)" by fastforce
    obtain ins1 where q: "queue_run push pop ops s1 = (ins1, outs, s')"
      and i: "ins = (case r of None \<Rightarrow> ins1 | Some m \<Rightarrow> m # ins1)"
      using Cons.prems(1) Inl r by (auto simp: Let_def split: prod.splits)
    have "invar s1" using push_invar [OF Cons.prems(2), of i] r by simp
    from Cons.IH [OF q this] push_content [OF Cons.prems(2) r] i show ?thesis by (auto split: option.splits)
  next
    case (Inr j)
    obtain r s1 where r: "pop j s = (r, s1)" by fastforce
    obtain outs1 where q: "queue_run push pop ops s1 = (ins, outs1, s')"
      and o: "outs = (case r of None \<Rightarrow> outs1 | Some x \<Rightarrow> (j, x) # outs1)"
      using Cons.prems(1) Inr r by (auto simp: Let_def split: prod.splits)
    have "invar s1" using pop_invar [OF Cons.prems(2), of j] r by simp
    from Cons.IH [OF q this] obtain ms where ms: "content s1 @ ins = ms @ content s'"
      "list_all2 (\<lambda>(j, x) m. x = view j m) outs1 ms" by blast
    show ?thesis
    proof (cases r)
      case None
      then show ?thesis using ms o pop_none [OF Cons.prems(2)] r by auto
    next
      case (Some x)
      with pop_some [OF Cons.prems(2)] r obtain m where "content s = m # content s1" "x = view j m" by blast
      with ms o Some show ?thesis by (intro exI [of _ "m # ms"]) auto
    qed
  qed
qed simp

end

definition send_op :: "mailbox_kind \<Rightarrow> bool \<times> string \<times> 64 word \<Rightarrow> agent \<Rightarrow> string option \<times> agent" where
  "send_op k i a = (case i of (mem, u, len) \<Rightarrow> (case mailbox_write mem u k len a of
       (Inl _, a) \<Rightarrow> (None, a) | (Inr n, a) \<Rightarrow> (if n = 0 then None else Some (take (unat n) u), a)))"

definition recv_op :: "mailbox_kind \<Rightarrow> bool \<times> nat \<times> 64 word \<Rightarrow> agent \<Rightarrow> read_result option \<times> agent" where
  "recv_op k j a = (case j of (nb, room, len) \<Rightarrow> (case mailbox_read nb room k len a of
       (r, a) \<Rightarrow> (if r \<in> {Eof, Blocked, Rerr K_EAGAIN} then None else Some r, a)))"

definition delivered :: "bool \<times> nat \<times> 64 word \<Rightarrow> string \<Rightarrow> read_result" where
  "delivered j m = (case j of (nb, room, len) \<Rightarrow>
     if min (length m) (unat len) \<le> room then Got (take (unat len) m) else Rerr K_EFAULT)"

lemma write_spec_err: "write_spec mem u n c ms = (Inl e, ms') \<Longrightarrow> ms' = ms"
  by (auto simp: write_spec_def split: if_splits)

lemma write_spec_done: "write_spec mem u n c ms = (Inr j, ms') \<Longrightarrow> ms' = (if j = 0 then ms else ms @ [take j u])"
  by (auto simp: write_spec_def split: if_splits)

interpretation mbox: fifo_queue "\<lambda>a. messages (agent_mailbox k a)" "send_op k" "recv_op k" delivered agent_ok
proof unfold_locales
  fix s s' :: agent and i r
  assume ok: "agent_ok s" and p: "send_op k i s = (r, s')"
  obtain mem u len where i: "i = (mem, u, len)" by (metis surj_pair)
  obtain w a' where w: "mailbox_write mem u k len s = (w, a')" by fastforce
  note spec = mailbox_write_spec [OF ok w, THEN conjunct1]
  show "messages (agent_mailbox k s') = messages (agent_mailbox k s) @ (case r of None \<Rightarrow> [] | Some m \<Rightarrow> [m])"
  proof (cases w)
    case (Inl e)
    then show ?thesis using p i w write_spec_err spec by (fastforce simp: send_op_def)
  next
    case (Inr n)
    have "messages (agent_mailbox k a') = (if unat n = 0 then messages (agent_mailbox k s)
        else messages (agent_mailbox k s) @ [take (unat n) u])"
      using spec Inr by (intro write_spec_done) simp
    then show ?thesis using p i w Inr by (auto simp: send_op_def unat_eq_0)
  qed
next
  fix s s' :: agent and j
  assume "agent_ok s" "recv_op k j s = (None, s')"
  then show "messages (agent_mailbox k s') = messages (agent_mailbox k s)"
    by (auto simp: recv_op_def mailbox_read_cases split: prod.splits list.splits if_splits)
next
  fix s s' :: agent and j x
  assume ok: "agent_ok s" and p: "recv_op k j s = (Some x, s')"
  obtain nb room len where j: "j = (nb, room, len)" by (metis surj_pair)
  from p j ok show "\<exists>m. messages (agent_mailbox k s) = m # messages (agent_mailbox k s') \<and> x = delivered j m"
    by (auto simp: recv_op_def mailbox_read_cases delivered_def take_message_def split: list.splits if_splits)
next
  fix s :: agent and i :: "bool \<times> string \<times> 64 word"
  assume ok: "agent_ok s"
  obtain mem u len where i: "i = (mem, u, len)" by (metis surj_pair)
  obtain w a' where w: "mailbox_write mem u k len s = (w, a')" by fastforce
  from mailbox_write_spec [OF ok w] i w show "agent_ok (snd (send_op k i s))"
    by (auto simp: send_op_def split: sum.splits)
next
  fix s :: agent and j :: "bool \<times> nat \<times> 64 word"
  assume ok: "agent_ok s"
  obtain nb room len where j: "j = (nb, room, len)" by (metis surj_pair)
  obtain w a' where w: "mailbox_read nb room k len s = (w, a')" by fastforce
  from mailbox_read_ok [OF ok w] j w show "agent_ok (snd (recv_op k j s))" by (simp add: recv_op_def)
qed

text \<open>
  C31. A mailbox is a queue: after any sequence of writes and reads, with any failures of
  allocation or of the user's buffers, what was in it followed by the accepted messages
  is what the reads removed, in order, followed by what is in it now; a read returns the
  start of its message that fits, and only a reader's own fault loses a message.\<close>

theorem mailbox_fifo:
  assumes "agent_ok a" "queue_run (send_op k) (recv_op k) ops a = (accepted, outs, a')"
  shows "\<exists>ms. messages (agent_mailbox k a) @ accepted = ms @ messages (agent_mailbox k a') \<and>
    list_all2 (\<lambda>(j, r) m. r = delivered j m) outs ms"
  using mbox.in_order [OF assms(2,1)] .

definition demo_task :: task where
  "demo_task = \<lparr>tid = 7, t_uid = 1000, t_gid = 1000, t_pid = 42\<rparr>"

definition demo_ops :: "(bool \<times> string \<times> 64 word + bool \<times> nat \<times> 64 word) list" where
  "demo_ops = [Inl (True, ''hello'', 5), Inl (True, ''world'', 5), Inr (True, 9, 3), Inl (False, ''x'', 1)]"

lemma demo_agent_ok: "agent_ok (new_agent demo_task ''a'')"
  by (simp add: agent_ok_def new_agent_def adopt_def snprintf_trunc_def AGENTFS_MAX_NAME_def agentfs_valid_name_def
      k_isalnum_def c_isalnum_def c_isalpha_def)

theorem mailbox_fifo_witness:
  "case queue_run (send_op MBOX_INBOX) (recv_op MBOX_INBOX) demo_ops (new_agent demo_task ''a'') of (accepted, outs, a') \<Rightarrow>
     (accepted = [''hello'', ''world''] \<and> map snd outs = [Got ''hel'']) \<and>
     (\<exists>ms. messages (agent_mailbox MBOX_INBOX (new_agent demo_task ''a'')) @ accepted = ms @ messages (agent_mailbox MBOX_INBOX a') \<and>
       list_all2 (\<lambda>(j, r) m. r = delivered j m) outs ms)"
proof -
  obtain acc outs a' where r: "queue_run (send_op MBOX_INBOX) (recv_op MBOX_INBOX) demo_ops (new_agent demo_task ''a'') =
     (acc, outs, a')" by (metis surj_pair)
  have v: "acc = [''hello'', ''world''] \<and> map snd outs = [Got ''hel'']"
    using r by (auto simp: demo_ops_def send_op_def recv_op_def mailbox_write_def mailbox_read_def new_agent_def adopt_def
        copy_from_user_def copy_to_user_def take_message_def add_message_def mailbox_init_def AGENTFS_MAX_MESSAGE_def
        AGENTFS_MAX_QUEUE_MSGS_def AGENTFS_MAX_QUEUE_BYTES_def push_bit_eq_mult word_le_nat_alt Let_def)
  show ?thesis unfolding r prod.case by (rule conjI [OF v mailbox_fifo [OF demo_agent_ok r]])
qed

text \<open>
  C32. The two halves of a mailbox against its contract on numbers. A write that finds the
  mailbox in a consistent state answers exactly as the unbounded specification says, the
  64-bit sum of the size check never wraps, and a reader sleeps exactly when there is
  nothing to read and the owner lives; \<open>poll\<close> reports readable or hung up exactly then not.\<close>

theorem mailbox_refines:
  assumes "agent_ok a"
  shows "(case mailbox_write mem u k len a of (r, a') \<Rightarrow>
      (map_sum id unat r, messages (agent_mailbox k a')) =
         write_spec mem u (unat len) (dead a) (messages (agent_mailbox k a)) \<and> agent_ok a') \<and>
    (fst (mailbox_read False room k len a) = Blocked \<longleftrightarrow> \<not> wait_over k a) \<and>
    (set (mailbox_poll k a) \<inter> {EPOLLIN, EPOLLHUP} = {} \<longleftrightarrow> \<not> wait_over k a)"
proof (intro conjI)
  show "case mailbox_write mem u k len a of (r, a') \<Rightarrow>
      (map_sum id unat r, messages (agent_mailbox k a')) =
         write_spec mem u (unat len) (dead a) (messages (agent_mailbox k a)) \<and> agent_ok a'"
  proof (cases "mailbox_write mem u k len a")
    case (Pair r a')
    from mailbox_write_spec [OF assms Pair] show ?thesis unfolding Pair prod.case by metis
  qed
  show "fst (mailbox_read False room k len a) = Blocked \<longleftrightarrow> \<not> wait_over k a"
    by (simp add: mailbox_read_cases [OF assms] wait_over_def split: list.splits)
  show "set (mailbox_poll k a) \<inter> {EPOLLIN, EPOLLHUP} = {} \<longleftrightarrow> \<not> wait_over k a"
    by (simp add: wait_over_def mailbox_poll_def Let_def)
qed

theorem mailbox_refines_witness:
  "case mailbox_write True ''ab'' MBOX_INBOX 2 (new_agent demo_task ''a'') of (r, a') \<Rightarrow>
    (map_sum id unat r, messages (agent_mailbox MBOX_INBOX a')) = (Inr 2, [''ab''])"
proof -
  have "messages (agent_mailbox MBOX_INBOX (new_agent demo_task ''a'')) = []" "dead (new_agent demo_task ''a'') = False"
    by (simp_all add: new_agent_def adopt_def mailbox_init_def)
  then show ?thesis
    using mailbox_refines [OF demo_agent_ok, where mem = True and u = "''ab''" and k = MBOX_INBOX and len = 2]
    by (auto simp: write_spec_def split: prod.splits)
qed

end
