(* ===== verification/Registry.thy ===== *)
theory Registry
  imports AgentFS
begin

text \<open>
  The agents of the kernel module as a whole: the list, the memory behind it and the task
  references, under every sequence of system calls, reaper passes and task ends.
\<close>

section \<open>The module\<close>

definition own :: "agent \<Rightarrow> nat multiset" where
  "own a = (case owner a of None \<Rightarrow> {#} | Some t \<Rightarrow> {#t#})"

fun owners :: "(nat, agent) alist \<Rightarrow> nat multiset" where
  "owners [] = {#}"
| "owners ((p, a) # h) = own a + owners h"

definition afs_ok :: "afs \<Rightarrow> bool" where
  "afs_ok s \<longleftrightarrow> distinct (map fst (heap s)) \<and> distinct (map (agname \<circ> snd) (heap s)) \<and>
     (\<forall>(p, a) \<in> set (heap s). agent_ok a \<and> p < next_addr s) \<and>
     mset (g_agents s) = mset (map fst (heap s)) \<and> refs s = owners (heap s)"

lemma owners_lookup: "map_of h p = Some a \<Longrightarrow> own a \<subseteq># owners h"
  by (induction h) (auto split: if_splits simp: subset_mset.add_increasing)

lemma owners_swap: "map_of h p = Some a \<Longrightarrow> owners (AList.update p b h) + own a = owners h + own b"
  by (induction h) (auto split: if_splits simp: ac_simps)

lemma owners_update:
  assumes "map_of h p = Some a"
  shows "owners (AList.update p b h) = owners h - own a + own b"
proof -
  from owners_lookup [OF assms] obtain r where "owners h = own a + r" by (auto simp: mset_subset_eq_exists_conv)
  then show ?thesis using owners_swap [OF assms, of b] by (simp add: ac_simps)
qed

lemma owners_append: "owners (g @ h) = owners g + owners h"
  by (induction g rule: owners.induct) auto

lemma names_update: "map_of h p = Some a \<Longrightarrow> agname b = agname a \<Longrightarrow>
    map (agname \<circ> snd) (AList.update p b h) = map (agname \<circ> snd) h"
  by (induction h) (auto split: if_splits)

lemma keys_update: "map_of h p = Some a \<Longrightarrow> map fst (AList.update p b h) = map fst h"
  by (induction h) (auto split: if_splits)

lemma set_update: "(q, c) \<in> set (AList.update p b h) \<Longrightarrow> (q, c) = (p, b) \<or> (q, c) \<in> set h"
  by (induction h) (auto split: if_splits)

text \<open>Replacing one agent by another of the same name, with the references adjusted.\<close>

lemma afs_ok_replace:
  assumes "afs_ok s" "deref s p = Some a" "agent_ok b" "agname b = agname a"
    and "heap s' = AList.update p b (heap s)" "refs s' = refs s - own a + own b"
    and "g_agents s' = g_agents s" "next_addr s \<le> next_addr s'"
  shows "afs_ok s'"
proof -
  have m: "map_of (heap s) p = Some a" using assms(2) by (simp add: deref_def)
  have "(p, a) \<in> set (heap s)" using m by (rule map_of_SomeD)
  then have "p < next_addr s" using assms(1) by (auto simp: afs_ok_def)
  moreover have "\<forall>(q, c) \<in> set (heap s'). agent_ok c \<and> (q, c) \<in> insert (p, b) (set (heap s))"
    using assms(1,3,5) set_update [of _ _ p b "heap s"] by (fastforce simp: afs_ok_def)
  ultimately show ?thesis
    using assms(1,5-8) owners_update [OF m] keys_update [OF m] names_update [OF m assms(4)]
    by (fastforce simp: afs_ok_def)
qed

lemma afs_ok_deref: "afs_ok s \<Longrightarrow> deref s p = Some a \<Longrightarrow> agent_ok a"
  by (auto simp: afs_ok_def deref_def dest!: map_of_SomeD)

lemma own_refs: "afs_ok s \<Longrightarrow> deref s p = Some a \<Longrightarrow> own a \<subseteq># refs s"
  by (simp add: afs_ok_def deref_def owners_lookup)

lemma put_owner_refs: "put_owner a s = s\<lparr>refs := refs s - own a\<rparr>"
  by (simp add: put_owner_def own_def split: option.splits)

text \<open>Steps that touch only the tree, the schedule and the tasks.\<close>

definition same_agents :: "afs \<Rightarrow> afs \<Rightarrow> bool" where
  "same_agents s s' \<longleftrightarrow> heap s' = heap s \<and> g_agents s' = g_agents s \<and> refs s' = refs s \<and> next_addr s \<le> next_addr s'"

lemma same_ok: "same_agents s s' \<Longrightarrow> afs_ok s \<Longrightarrow> afs_ok s'"
  by (fastforce simp: same_agents_def afs_ok_def)

lemma same_refl [simp]: "same_agents s s"
  by (simp add: same_agents_def)

lemma same_trans: "same_agents s t \<Longrightarrow> same_agents t v \<Longrightarrow> same_agents s v"
  by (auto simp: same_agents_def)

lemma kmalloc_same: "kmalloc s = (b, s') \<Longrightarrow> same_agents s s' \<and> dentries s' = dentries s \<and> alive s' = alive s"
  by (auto simp: kmalloc_def same_agents_def split: list.splits)

lemma agentfs_add_same: "agentfs_add d n f q m s = (r, s') \<Longrightarrow> same_agents s s'"
  unfolding agentfs_add_def Let_def
  by (auto simp: same_agents_def dest!: kmalloc_same split: prod.splits if_splits)

lemma add_files_same: "add_files d p fs s = (r, s') \<Longrightarrow> same_agents s s'"
proof (induction fs arbitrary: s)
  case (Cons f fs)
  obtain n o1 m where f: "f = (n, o1, m)" by (metis surj_pair)
  obtain x s1 where a: "agentfs_add_file d n o1 (Some p) m s = (x, s1)" by fastforce
  have "same_agents s s1" using a by (auto simp: agentfs_add_file_def dest: agentfs_add_same)
  then show ?case using Cons.IH [of s1] Cons.prems f a same_trans by (fastforce split: sum.splits)
qed simp

lemma build_tree_same:
  assumes "agentfs_build_agent_tree p a s = (r, s')" "deref s p = Some a"
  shows "\<exists>b. heap s' = AList.update p b (heap s) \<and> b = a\<lparr>agdir := agdir b\<rparr> \<and>
    g_agents s' = g_agents s \<and> refs s' = refs s \<and> next_addr s \<le> next_addr s'"
proof -
  obtain x s1 where x: "agentfs_add_dir g_agents_dentry (agname a) s = (x, s1)" by fastforce
  have s1: "same_agents s s1" using x by (auto simp: agentfs_add_dir_def dest: agentfs_add_same)
  have id: "AList.update p a (heap s) = heap s"
    using assms(2) by (simp add: deref_def) (rule update_triv)
  show ?thesis
  proof (cases x)
    case (Inl e)
    then show ?thesis using assms(1) x s1 id
      by (intro exI [of _ a]) (auto simp: agentfs_build_agent_tree_def same_agents_def)
  next
    case (Inr d)
    have "add_files d p agent_files (store p (a\<lparr>agdir := d\<rparr>) s1) = (r, s')"
      using assms(1) x Inr by (simp add: agentfs_build_agent_tree_def)
    from add_files_same [OF this] s1 show ?thesis
      by (intro exI [of _ "a\<lparr>agdir := d\<rparr>"]) (auto simp: same_agents_def store_def)
  qed
qed

lemma reap_one_ok: "afs_ok s \<Longrightarrow> afs_ok (reap_one p s)"
proof (cases "deref s p")
  case (Some a)
  assume ok: "afs_ok s"
  have a: "agent_ok a" by (rule afs_ok_deref [OF ok Some])
  let ?b = "(bury a)\<lparr>owner := None\<rparr>"
  have "agent_ok ?b" using a
    by (simp add: agent_ok_def bury_def) (simp add: mailbox_drain_locked_def)
  then show ?thesis using Some ok
    by (auto simp: reap_one_def put_owner_refs store_def own_def bury_def intro!: afs_ok_replace [OF ok Some, of ?b])
qed (simp add: reap_one_def)

lemma fold_ok: "(\<And>x s. afs_ok s \<Longrightarrow> afs_ok (f x s)) \<Longrightarrow> afs_ok s \<Longrightarrow> afs_ok (fold f xs s)"
  by (induction xs arbitrary: s) auto

lemma ctx_read_ok: "afs_ok s \<Longrightarrow> afs_ok (snd (ctx_read c nb room len s))"
proof (cases "deref s (c_agent c)")
  case (Some a)
  assume ok: "afs_ok s"
  obtain r a' where r: "mailbox_read nb room (c_kind c) len a = (r, a')" by fastforce
  note m = mailbox_read_ok [OF afs_ok_deref [OF ok Some] r]
  show ?thesis using Some r m own_refs [OF ok Some]
    by (auto simp: ctx_read_def store_def own_def intro!: afs_ok_replace [OF ok Some, of a'])
qed (simp add: ctx_read_def)

lemma ctx_write_ok: "afs_ok s \<Longrightarrow> afs_ok (snd (ctx_write c u len s))"
proof (cases "deref s (c_agent c)")
  case (Some a)
  assume ok: "afs_ok s"
  obtain mem s1 where k: "(if len = 0 \<or> len > AGENTFS_MAX_MESSAGE then (True, s) else kmalloc s) = (mem, s1)" by fastforce
  then have s1: "same_agents s s1" by (auto split: if_splits dest: kmalloc_same)
  obtain r a' where r: "mailbox_write mem u (c_kind c) len a = (r, a')" by fastforce
  note m = mailbox_write_spec [OF afs_ok_deref [OF ok Some] r]
  have "afs_ok (store (c_agent c) a' s1)" using s1 m own_refs [OF ok Some]
    by (intro afs_ok_replace [OF ok Some, of a']) (auto simp: same_agents_def store_def own_def)
  then show ?thesis using Some k r by (simp add: ctx_write_def Let_def)
qed (simp add: ctx_write_def)

lemma find_agent_none:
  assumes "afs_ok s" "find_agent name s = None" "(p, a) \<in> set (heap s)"
  shows "agname a \<noteq> name"
proof -
  have "p \<in> set (g_agents s)" using assms(1,3) by (metis afs_ok_def fst_conv image_eqI list.set_map set_mset_mset)
  moreover have "deref s p = Some a" using assms(1,3) by (simp add: afs_ok_def deref_def)
  ultimately show ?thesis using assms(2) by (auto simp: find_agent_def find_None_iff)
qed

lemma find_agent_some:
  assumes "find_agent name s = Some p"
  obtains a where "deref s p = Some a" "agname a = name" "p \<in> set (g_agents s)"
  using assms by (auto simp: find_agent_def find_Some_iff split: option.splits)

lemma recycle_ok: "agent_ok a \<Longrightarrow> agent_ok (recycle t a) \<and> own (recycle t a) = {#tid t#} \<and> agname (recycle t a) = agname a"
  by (simp add: agent_ok_def recycle_def adopt_def own_def)

lemma new_agent_ok: "agentfs_valid_name n \<Longrightarrow> agent_ok (new_agent t n) \<and> own (new_agent t n) = {#tid t#} \<and>
    agname (new_agent t n) = n"
  by (auto simp: agent_ok_def new_agent_def adopt_def own_def snprintf_trunc_def agentfs_valid_name_def AGENTFS_MAX_NAME_def)

lemma agdir_only:
  assumes "b = a\<lparr>agdir := d\<rparr>"
  shows "agent_ok b = agent_ok a" "own b = own a" "agname b = agname a"
  using assms by (simp_all add: agent_ok_def own_def)

lemma fresh_addr: "afs_ok s \<Longrightarrow> map_of (heap s) (next_addr s) = None"
  by (fastforce simp: afs_ok_def map_of_eq_None_iff)

lemma agname_inj:
  assumes "afs_ok s" "deref s q = Some b" "deref s p = Some a" "agname b = agname a"
  shows "q = p \<and> b = a"
proof -
  have "(q, b) \<in> set (heap s)" "(p, a) \<in> set (heap s)" using assms(2,3) by (auto simp: deref_def dest: map_of_SomeD)
  moreover have "inj_on (agname \<circ> snd) (set (heap s))" using assms(1) by (simp add: afs_ok_def distinct_map)
  ultimately show ?thesis using assms(4) by (metis comp_apply inj_onD prod.inject snd_conv)
qed

lemma add_quiet: "oom s = [] \<Longrightarrow> \<exists>n s'. agentfs_add d m f q x s = (Inr n, s') \<and> oom s' = []"
  by (simp add: agentfs_add_def kmalloc_def)

lemma add_files_quiet: "oom s = [] \<Longrightarrow> \<exists>s'. add_files d p fs s = (Inr (), s')"
proof (induction fs arbitrary: s)
  case (Cons f fs)
  obtain n g m where f: "f = (n, g, m)" by (metis surj_pair)
  from add_quiet [OF Cons.prems] obtain k s1 where "agentfs_add d n g (Some p) m s = (Inr k, s1)" "oom s1 = []" by blast
  with Cons.IH f show ?case by (simp add: agentfs_add_file_def)
qed simp

lemma register_quiet:
  assumes "find_agent name s = None" "oom s = []"
  shows "fst (agentfs_register cur name s) = Inr ()"
proof -
  let ?p = "next_addr s" and ?a = "new_agent cur name"
  let ?s = "store ?p ?a (get_task cur (s\<lparr>next_addr := ?p + 1, g_agents := ?p # g_agents s\<rparr>))"
  have "oom ?s = []" using assms(2) by (simp add: store_def get_task_def)
  from add_quiet [OF this] obtain k s1 where 1: "agentfs_add_dir g_agents_dentry (agname ?a) ?s = (Inr k, s1)" "oom s1 = []"
    unfolding agentfs_add_dir_def by blast
  have "oom (store ?p (?a\<lparr>agdir := k\<rparr>) s1) = []" using 1(2) by (simp add: store_def)
  from add_files_quiet [OF this] obtain s2 where "add_files k ?p agent_files (store ?p (?a\<lparr>agdir := k\<rparr>) s1) = (Inr (), s2)"
    by blast
  then show ?thesis using assms 1(1) by (simp add: agentfs_register_def agentfs_build_agent_tree_def kmalloc_def Let_def)
qed

text \<open>Registration of a name that is not in the list: all or nothing, up to the tree.\<close>

lemma register_new:
  assumes "afs_ok s" "find_agent name s = None" "agentfs_register cur name s = (r, s')"
  shows "(\<exists>e. r = Inl e) \<and> same_agents s s' \<or> r = Inr () \<and> (\<exists>b. b = (new_agent cur name)\<lparr>agdir := agdir b\<rparr> \<and>
     heap s' = heap s @ [(next_addr s, b)]) \<and> g_agents s' = next_addr s # g_agents s \<and>
     refs s' = refs s + {#tid cur#} \<and> next_addr s < next_addr s'"
proof -
  let ?a = "new_agent cur name" and ?p = "next_addr s"
  obtain mem s1 where k: "kmalloc s = (mem, s1)" by fastforce
  have s1: "heap s1 = heap s" "g_agents s1 = g_agents s" "refs s1 = refs s" "next_addr s1 = ?p"
    using k by (auto simp: kmalloc_def split: list.splits)
  have fresh: "map_of (heap s) ?p = None"
    by (rule fresh_addr [OF assms(1)])
  define s2 where "s2 = store ?p ?a (get_task cur (s1\<lparr>next_addr := ?p + 1, g_agents := ?p # g_agents s1\<rparr>))"
  have s2: "heap s2 = heap s @ [(?p, ?a)]" "g_agents s2 = ?p # g_agents s" "refs s2 = refs s + {#tid cur#}"
      "next_addr s2 = ?p + 1"
    using s1 fresh by (simp_all add: s2_def store_def get_task_def update_new)
  obtain x s3 where t: "agentfs_build_agent_tree ?p ?a s2 = (x, s3)" by fastforce
  have "deref s2 ?p = Some ?a" using s2(1) fresh by (simp add: deref_def map_add_def)
  from build_tree_same [OF t this] obtain b where b: "heap s3 = AList.update ?p b (heap s2)" "b = ?a\<lparr>agdir := agdir b\<rparr>"
      "g_agents s3 = g_agents s2" "refs s3 = refs s2" "next_addr s2 \<le> next_addr s3" by blast
  have h3: "heap s3 = heap s @ [(?p, b)]"
    using b(1) s2(1) fresh update_new [OF fresh] alist_update_update by metis
  have "agentfs_register cur name s = (if \<not> mem then (Inl K_ENOMEM, s1) else case x of
      Inr _ \<Rightarrow> (Inr (), s3) | Inl e \<Rightarrow> (Inl e, put_owner ?a (s3\<lparr>g_agents := remove1 ?p (g_agents s3),
        heap := AList.delete ?p (heap s3)\<rparr>)))"
    using assms(2) k t s1(4) by (simp add: agentfs_register_def Let_def s2_def split: sum.splits)
  moreover have "own ?a = {#tid cur#}" by (simp add: own_def new_agent_def adopt_def)
  moreover have "AList.delete ?p (heap s3) = heap s"
    using h3 fresh by (simp add: delete_append map_of_eq_None_iff)
  ultimately show ?thesis
    using assms(3) s1 s2 b h3
    by (auto simp: put_owner_refs same_agents_def split: if_splits sum.splits)
qed

lemma register_ok:
  assumes "afs_ok s" "agentfs_valid_name name" "agentfs_register cur name s = (r, s')"
  shows "afs_ok s'"
proof (cases "find_agent name s")
  case (Some p)
  obtain a where a: "deref s p = Some a" using find_agent_some [OF Some] .
  note ra = recycle_ok [OF afs_ok_deref [OF assms(1) a], of cur]
  show ?thesis
  proof (cases "recyclable s a")
    case True
    then have "s' = store p (recycle cur a) (get_task cur (put_owner a s))"
      using assms(3) Some a by (simp add: agentfs_register_def)
    then show ?thesis using ra
      by (intro afs_ok_replace [OF assms(1) a, of "recycle cur a"]) (auto simp: store_def get_task_def put_owner_refs)
  qed (use assms Some a in \<open>simp add: agentfs_register_def\<close>)
next
  case None
  show ?thesis
    using register_new [OF assms(1) None assms(3)]
  proof
    assume "(\<exists>e. r = Inl e) \<and> same_agents s s'"
    then show ?thesis using same_ok assms(1) by blast
  next
    assume "r = Inr () \<and> (\<exists>b. b = (new_agent cur name)\<lparr>agdir := agdir b\<rparr> \<and>
     heap s' = heap s @ [(next_addr s, b)]) \<and> g_agents s' = next_addr s # g_agents s \<and>
     refs s' = refs s + {#tid cur#} \<and> next_addr s < next_addr s'"
    then obtain b where b: "b = (new_agent cur name)\<lparr>agdir := agdir b\<rparr>" "heap s' = heap s @ [(next_addr s, b)]"
      and g: "g_agents s' = next_addr s # g_agents s" "refs s' = refs s + {#tid cur#}" "next_addr s < next_addr s'" by blast
    have n: "agent_ok b" "own b = {#tid cur#}" "agname b = name"
      using new_agent_ok [OF assms(2), of cur] b(1) agdir_only [OF b(1)] by simp_all
    have "next_addr s \<notin> fst ` set (heap s)" using assms(1) by (fastforce simp: afs_ok_def)
    moreover have "name \<notin> (agname \<circ> snd) ` set (heap s)"
      using find_agent_none [OF assms(1) None] by fastforce
    ultimately show ?thesis
      using assms(1) b(2) g n by (auto simp: afs_ok_def owners_append)
  qed
qed

lemma register_write_ok: "afs_ok s \<Longrightarrow> afs_ok (snd (register_write cur u len s))"
  by (auto simp: register_write_def Let_def split: option.splits prod.splits sum.splits intro: register_ok)

definition afs_start :: "afs \<Rightarrow> bool" where
  "afs_start s \<longleftrightarrow> heap s = [] \<and> g_agents s = [] \<and> refs s = {#}"

interpretation afs: state_machine afs_start afs_step afs_ok
proof
  fix s
  assume "afs_start s"
  then show "afs_ok s" by (simp add: afs_start_def afs_ok_def)
next
  fix s e
  assume ok: "afs_ok s"
  show "afs_ok (afs_step e s)"
  proof (cases e)
    case (Open d)
    then show ?thesis using ok
      by (auto simp: mailbox_open_def Let_def split: option.splits prod.splits dest!: kmalloc_same intro: same_ok)
  next
    case Tick
    then show ?thesis using ok by (simp add: agentfs_reaper_def fold_ok reap_one_ok)
  next
    case (Born t)
    then show ?thesis using ok by (auto intro: same_ok simp: same_agents_def)
  next
    case (Gone t)
    then show ?thesis using ok by (auto intro: same_ok simp: same_agents_def)
  qed (simp_all add: ok register_write_ok ctx_read_ok ctx_write_ok)
qed



text \<open>
  C33. Registration. A name whose owner lives is refused and nothing changes; in every other
  case in which the kernel has memory the caller becomes the owner of the only agent with that name, which
  is alive with empty mailboxes, whether its slot is new or recycled.\<close>

theorem agentfs_register_owner:
  assumes "afs_ok s" "agentfs_valid_name name" "agentfs_register cur name s = (r, s')" "oom s = []"
  shows "if \<exists>p a. p \<in> set (g_agents s) \<and> deref s p = Some a \<and> agname a = name \<and> owner_alive s a
     then r = Inl K_EEXIST \<and> s' = s
     else r = Inr () \<and> afs_ok s' \<and> (\<exists>p a. p \<in> set (g_agents s') \<and> deref s' p = Some a \<and> agname a = name \<and>
       owner a = Some (tid cur) \<and> \<not> dead a \<and> messages (inbox a) = [] \<and> messages (outbox a) = [])"
proof (cases "find_agent name s")
  case (Some p)
  obtain a where a: "deref s p = Some a" "agname a = name" "p \<in> set (g_agents s)" by (rule find_agent_some [OF Some])
  have only: "q = p \<and> b = a" if "deref s q = Some b" "agname b = name" for q b
    using agname_inj [OF assms(1) that(1) a(1)] that a by simp
  have ra: "recyclable s a \<longleftrightarrow> \<not> owner_alive s a"
    using afs_ok_deref [OF assms(1) a(1)] by (auto simp: recyclable_def owner_alive_def agent_ok_def split: option.splits)
  have ex: "(\<exists>p a. p \<in> set (g_agents s) \<and> deref s p = Some a \<and> agname a = name \<and> owner_alive s a) \<longleftrightarrow> owner_alive s a"
    using a only by metis
  show ?thesis
  proof (cases "owner_alive s a")
    case True
    then show ?thesis using assms(3) Some a ra ex by (simp add: agentfs_register_def)
  next
    case False
    then have "r = Inr () \<and> s' = store p (recycle cur a) (get_task cur (put_owner a s))"
      using assms(3) Some a ra by (simp add: agentfs_register_def)
    moreover from this have "deref s' p = Some (recycle cur a) \<and> p \<in> set (g_agents s')"
      using a(3) by (simp add: deref_def store_def get_task_def put_owner_refs)
    ultimately show ?thesis
      using False ex a(2) register_ok [OF assms(1-3)]
      by (auto simp: recycle_def adopt_def mailbox_drain_locked_def)
  qed
next
  case None
  have no: "\<not> (\<exists>p a. p \<in> set (g_agents s) \<and> deref s p = Some a \<and> agname a = name \<and> owner_alive s a)"
    using find_agent_none [OF assms(1) None] by (auto simp: deref_def dest: map_of_SomeD)
  have "r = Inr ()" using register_quiet [OF None assms(4), of cur] assms(3) by simp
  with register_new [OF assms(1) None assms(3)] obtain b where
    b: "b = (new_agent cur name)\<lparr>agdir := agdir b\<rparr>" "heap s' = heap s @ [(next_addr s, b)]"
      "g_agents s' = next_addr s # g_agents s" by auto
  have "deref s' (next_addr s) = Some b" using b(2) fresh_addr [OF assms(1)] by (simp add: deref_def map_add_def)
  moreover have "agname b = name \<and> owner b = Some (tid cur) \<and> \<not> dead b \<and> messages (inbox b) = [] \<and> messages (outbox b) = []"
    using agdir_only(3) [OF b(1)] new_agent_ok [OF assms(2), of cur]
    by (subst (2 3 4 5) b(1)) (simp add: new_agent_def adopt_def mailbox_init_def)
  ultimately show ?thesis
    using no \<open>r = Inr ()\<close> register_ok [OF assms(1-3)] b(3) by auto
qed

definition one_agent :: afs where
  "one_agent = agentfs_empty\<lparr>heap := [(0, new_agent demo_task ''a'')], next_addr := 1, g_agents := [0], refs := {#7#}\<rparr>"

theorem agentfs_register_owner_witness:
  "fst (agentfs_register (demo_task\<lparr>tid := 9\<rparr>) ''a'' one_agent) = Inr () \<and>
   fst (agentfs_register (demo_task\<lparr>tid := 9\<rparr>) ''a'' (one_agent\<lparr>alive := [7]\<rparr>)) = Inl K_EEXIST"
proof -
  let ?t = "demo_task\<lparr>tid := 9\<rparr>" and ?a = "new_agent demo_task ''a''"
  have own: "own ?a = {#7#}" "owner ?a = Some 7" "agname ?a = ''a''"
    by (simp_all add: own_def new_agent_def adopt_def demo_task_def snprintf_trunc_def AGENTFS_MAX_NAME_def)
  have ok: "afs_ok (one_agent\<lparr>alive := l\<rparr>)" "deref (one_agent\<lparr>alive := l\<rparr>) p = (if p = 0 then Some ?a else None)"
      "g_agents (one_agent\<lparr>alive := l\<rparr>) = [0]" "oom (one_agent\<lparr>alive := l\<rparr>) = []" for l p
    using own demo_agent_ok by (simp_all add: afs_ok_def one_agent_def agentfs_empty_def deref_def)
  have v: "agentfs_valid_name ''a''" using demo_agent_ok own by (simp add: agent_ok_def)
  have al: "owner_alive (one_agent\<lparr>alive := l\<rparr>) ?a \<longleftrightarrow> 7 \<in> set l" for l
    by (simp add: owner_alive_def own pid_alive_def)
  have w: "one_agent = one_agent\<lparr>alive := []\<rparr>" by (simp add: one_agent_def agentfs_empty_def)
  have "fst (agentfs_register ?t ''a'' (one_agent\<lparr>alive := []\<rparr>)) = Inr ()"
    using agentfs_register_owner [OF ok(1) v surjective_pairing ok(4), of "[]" ?t] by (simp add: ok al)
  moreover have "fst (agentfs_register ?t ''a'' (one_agent\<lparr>alive := [7]\<rparr>)) = Inl K_EEXIST"
    using agentfs_register_owner [OF ok(1) v surjective_pairing ok(4), of "[7]" ?t] by (simp add: ok al own)
  ultimately show ?thesis using w by simp
qed

text \<open>
  C34. A registration that runs out of memory while it builds the files of the agent frees
  the agent and reports the error, but leaves the directory and the files built so far in the
  tree: if the entry and inode of the directory and of \<open>pid\<close> were allocated, an open file keeps a pointer to freed memory.\<close>

theorem register_oom_dangling:
  assumes "find_agent name s = None" "oom s = [True, True, True, True, True, False]"
    and "agentfs_register cur name s = (r, s')"
  shows "r = Inl K_ENOMEM \<and> (\<exists>d p. map_of (dentries s') (next_dentry s + 1) = Some d \<and> d_name d = ''pid'' \<and>
    d_priv d = Some p \<and> deref s' p = None)"
  using assms
  by (auto simp: agentfs_register_def agentfs_build_agent_tree_def agentfs_add_dir_def agentfs_add_file_def agentfs_add_def
      agent_files_def kmalloc_def store_def get_task_def put_owner_refs deref_def Let_def)

theorem register_oom_dangling_witness:
  "\<exists>s'. agentfs_register demo_task ''a'' (agentfs_empty\<lparr>oom := [True, True, True, True, True, False]\<rparr>) = (Inl K_ENOMEM, s') \<and>
     (\<exists>d p. map_of (dentries s') 1 = Some d \<and> d_priv d = Some p \<and> deref s' p = None)"
proof -
  let ?s = "agentfs_empty\<lparr>oom := [True, True, True, True, True, False]\<rparr>"
  obtain r s' where r: "agentfs_register demo_task ''a'' ?s = (r, s')" by fastforce
  have "find_agent ''a'' ?s = None" "oom ?s = [True, True, True, True, True, False]" "next_dentry ?s + 1 = 1"
    by (simp_all add: find_agent_def agentfs_empty_def)
  with register_oom_dangling [OF this(1,2) r] r show ?thesis by auto
qed

text \<open>
  C35. A name of 64 bytes or more is cut to its first 63 bytes and registered under the short
  name, and the write reports that all of it was taken.\<close>

theorem register_truncates:
  assumes "afs_ok s" "oom s = []" "unat len = length u" "63 < length u" "agentfs_valid_name (take 63 u)"
    and "find_agent (take 63 u) s = None"
  shows "\<exists>s' p a. register_write cur u len s = (Inr len, s') \<and> deref s' p = Some a \<and> agname a = take 63 u \<and>
    owner a = Some (tid cur)"
proof -
  have nl: "register_name (take 63 u) = take 63 u"
  proof -
    have "last (take 63 u) \<in> set (take 63 u)" using assms(4) by (intro last_in_set) auto
    moreover have "NL \<notin> set (take 63 u)"
      using assms(5) by (auto simp: agentfs_valid_name_def k_isalnum_def c_isalnum_def c_isalpha_def c_isdigit_def)
    ultimately show ?thesis by (auto simp: register_name_def)
  qed
  obtain r s' where r: "agentfs_register cur (take 63 u) s = (r, s')" by fastforce
  have "r = Inr ()" using register_quiet [OF assms(6,2), of cur] r by simp
  with register_new [OF assms(1,6) r] obtain b where
    b: "b = (new_agent cur (take 63 u))\<lparr>agdir := agdir b\<rparr>" "heap s' = heap s @ [(next_addr s, b)]" by auto
  have "deref s' (next_addr s) = Some b" using b(2) fresh_addr [OF assms(1)] by (simp add: deref_def map_add_def)
  moreover have "agname b = take 63 u \<and> owner b = Some (tid cur)"
    using agdir_only(3) [OF b(1)] new_agent_ok [OF assms(5), of cur]
    by (subst (2) b(1)) (simp add: new_agent_def adopt_def)
  moreover have "register_write cur u len s = (Inr len, s')"
    using r \<open>r = Inr ()\<close> nl assms(3-5)
    by (auto simp: register_write_def copy_from_user_def AGENTFS_MAX_NAME_def Let_def)
  ultimately show ?thesis by blast
qed

theorem register_truncates_witness:
  "\<exists>s' p a. register_write demo_task (replicate 100 CHR ''a'') 100 agentfs_empty = (Inr 100, s') \<and> deref s' p = Some a \<and>
    agname a = replicate 63 CHR ''a'' \<and> owner a = Some (tid demo_task)"
proof -
  have t: "take 63 (replicate 100 CHR ''a'') = replicate 63 CHR ''a''" by (simp add: take_replicate)
  have v: "agentfs_valid_name (replicate 63 CHR ''a'')"
    by (simp add: agentfs_valid_name_def AGENTFS_MAX_NAME_def k_isalnum_def c_isalnum_def c_isalpha_def)
  have "afs_ok agentfs_empty" "oom agentfs_empty = []" "find_agent x agentfs_empty = None" for x
    by (simp_all add: afs_ok_def agentfs_empty_def find_agent_def)
  then show ?thesis
    using register_truncates [of agentfs_empty 100 "replicate 100 CHR ''a''" demo_task] v unfolding t by simp
qed

end
