(* ===== verification/Posix.thy ===== *)
theory Posix
  imports CLib
begin

text \<open>
  The operating system as the sources use it. A \<open>world\<close> is what one process of the
  program can observe and change through system calls: the file tree (an association
  list from absolute paths to inodes), its descriptor table, the clock, its identity.

  Every system call first takes the next entry of the fault schedule \<open>sched\<close>: the
  call then works as documented (\<open>Fine\<close>), fails with any error (\<open>Fail e\<close>), or, for
  \<open>read\<close> and \<open>write\<close>, transfers fewer bytes than asked for (\<open>Short k\<close>). An exhausted
  schedule means no further faults. A theorem that quantifies over the world therefore
  covers every placement of interrupted, partial and failing calls.

  The model names files by absolute path; symbolic links are followed in the last
  component (at most 40 times), not in intermediate directories; a descriptor remembers
  the path it was opened on (no operation of the sources renames or removes a regular
  file it holds open and then uses the descriptor). Permission bits are recorded and
  checked where the sources check them; denial by the kernel is a fault. The process
  mask of file creation bits is not modelled (the sources only create owner-only modes).
\<close>

section \<open>State\<close>

datatype (plugins only: code) errno = E0 | EPERM | ENOENT | ESRCH | EINTR | EIO | ENXIO | E2BIG | EBADF | ECHILD | EAGAIN
  | ENOMEM | EACCES | EEXIST | ENODEV | ENOTDIR | EISDIR | EINVAL | EMFILE | EFBIG | ENOSPC | EROFS
  | EPIPE | ERANGE | EOVERFLOW | ENAMETOOLONG | ENOSYS | ENOTEMPTY | ELOOP | EPROTO | EMSGSIZE | ENOTSUP
  | ECONNRESET | ENOTCONN | ESHUTDOWN | ETIMEDOUT | ECONNREFUSED | EADDRINUSE | ENOTSOCK | ENOBUFS

datatype node = Reg string | Dir | Lnk string | Sock | Chr

record inode =
  kind :: node
  imode :: nat
  iuid :: nat

datatype fault = Fine | Fail errno | Short nat

datatype oflag = O_RDONLY | O_WRONLY | O_RDWR | O_CREAT | O_APPEND | O_TRUNC | O_CLOEXEC

datatype desc = DFile string nat "oflag list" | DSock nat | DPid int

text \<open>A message on a local socket: its bytes and the descriptors passed with it.\<close>

record packet =
  bytes :: string
  rights :: "desc list"

datatype wstatus = Exited nat | Signaled nat

record proc =
  pchild :: bool                 \<comment> \<open>a child of the process whose world this is\<close>
  pzombie :: "wstatus option"    \<comment> \<open>exited and not yet waited for\<close>

datatype env_event = ProcExit int wstatus | FileSet string string | Tick int

record world =
  fs :: "(string, inode) alist"
  sched :: "fault list"
  fds :: "(nat, desc) alist"
  tmps :: "string list"      \<comment> \<open>suffixes \<open>mkstemp\<close> will try\<close>
  rnd :: string              \<comment> \<open>bytes the random device will deliver\<close>
  locked :: "string list"    \<comment> \<open>files another process holds an exclusive \<open>flock\<close> on\<close>
  now :: int                 \<comment> \<open>\<open>time(NULL)\<close>\<close>
  euid :: nat
  self_pid :: nat
  procs :: "(int, proc) alist"
  next_pid :: int
  signals :: "(int \<times> nat) list"         \<comment> \<open>signals sent, newest first\<close>
  env :: "env_event list list"          \<comment> \<open>what happens elsewhere during each sleep\<close>
  rxq :: "(nat, packet list) alist"     \<comment> \<open>messages waiting at each socket endpoint\<close>
  sent :: "(nat \<times> packet) list"        \<comment> \<open>messages sent, by endpoint, newest first\<close>
  next_ep :: nat
  aroot :: string            \<comment> \<open>the cached result of \<open>agentctl_root ()\<close>\<close>

definition world0 :: world where
  "world0 = \<lparr>fs = [], sched = [], fds = [], tmps = [], rnd = [], locked = [], now = 0,
     euid = 1000, self_pid = 100, procs = [], next_pid = 500, signals = [], env = [], rxq = [], sent = [],
     next_ep = 0, aroot = ''/r''\<rparr>"

type_synonym 'a io = "world \<Rightarrow> (errno + 'a) \<times> world"

section \<open>Paths\<close>

definition MAX_PATHBUF :: nat where "MAX_PATHBUF = 4096"

definition dirname :: "string \<Rightarrow> string" where
  "dirname p = (case split_last (CHR ''/'') p of None \<Rightarrow> [] | Some (d, _) \<Rightarrow> d)"

definition basename :: "string \<Rightarrow> string" where
  "basename p = (case split_last (CHR ''/'') p of None \<Rightarrow> p | Some (_, b) \<Rightarrow> b)"

definition join :: "string \<Rightarrow> string \<Rightarrow> string" where
  "join d l = d @ ''/'' @ l"

definition ancestors :: "string \<Rightarrow> string list" where
  "ancestors p = map (\<lambda>i. take i p) (filter (\<lambda>i. p ! i = CHR ''/'') [1..<length p])"

definition is_dir :: "(string, inode) alist \<Rightarrow> string \<Rightarrow> bool" where
  "is_dir t p \<longleftrightarrow> p = [] \<or> (case map_of t p of Some i \<Rightarrow> kind i = Dir | None \<Rightarrow> False)"

text \<open>The error for a path without an inode, from its nearest existing ancestor.\<close>

definition miss_err :: "(string, inode) alist \<Rightarrow> string \<Rightarrow> errno" where
  "miss_err t p = (case find (\<lambda>q. map_of t q \<noteq> None) (rev (ancestors p)) of
       None \<Rightarrow> ENOENT
     | Some q \<Rightarrow> if is_dir t q then ENOENT else ENOTDIR)"

fun resolve :: "nat \<Rightarrow> (string, inode) alist \<Rightarrow> string \<Rightarrow> errno + string" where
  "resolve 0 t p = Inl ELOOP"
| "resolve (Suc k) t p = (case map_of t p of
       Some i \<Rightarrow> (case kind i of
           Lnk d \<Rightarrow> resolve k t (if starts_with ''/'' d then d else join (dirname p) d)
         | _ \<Rightarrow> Inr p)
     | None \<Rightarrow> Inr p)"

definition follow :: "(string, inode) alist \<Rightarrow> string \<Rightarrow> errno + string" where
  "follow t p = resolve 41 t p"

definition dir_entries :: "(string, inode) alist \<Rightarrow> string \<Rightarrow> string list" where
  "dir_entries t d = map (\<lambda>p. drop (Suc (length d)) p)
     (filter (\<lambda>p. starts_with (join d []) p \<and> Suc (length d) < length p \<and>
        CHR ''/'' \<notin> set (drop (Suc (length d)) p)) (map fst t))"

section \<open>System calls\<close>

definition call :: "'a io \<Rightarrow> 'a io" where
  "call m w = (case sched w of
       [] \<Rightarrow> m w
     | Fail e # s \<Rightarrow> (Inl e, w\<lparr>sched := s\<rparr>)
     | _ # s \<Rightarrow> m (w\<lparr>sched := s\<rparr>))"

definition put_inode :: "string \<Rightarrow> inode \<Rightarrow> world \<Rightarrow> world" where
  "put_inode p i w = w\<lparr>fs := AList.update p i (fs w)\<rparr>"

definition sys_stat :: "string \<Rightarrow> inode io" where
  "sys_stat p = call (\<lambda>w. case follow (fs w) p of
       Inl e \<Rightarrow> (Inl e, w)
     | Inr q \<Rightarrow> (case map_of (fs w) q of Some i \<Rightarrow> (Inr i, w) | None \<Rightarrow> (Inl (miss_err (fs w) q), w)))"

definition sys_lstat :: "string \<Rightarrow> inode io" where
  "sys_lstat p = call (\<lambda>w. case map_of (fs w) p of
       Some i \<Rightarrow> (Inr i, w) | None \<Rightarrow> (Inl (miss_err (fs w) p), w))"

definition sys_mkdir :: "string \<Rightarrow> nat \<Rightarrow> unit io" where
  "sys_mkdir p m = call (\<lambda>w.
     if map_of (fs w) p \<noteq> None then (Inl EEXIST, w)
     else if \<not> is_dir (fs w) (dirname p) then (Inl (miss_err (fs w) p), w)
     else (Inr (), put_inode p \<lparr>kind = Dir, imode = m, iuid = euid w\<rparr> w))"

definition sys_symlink :: "string \<Rightarrow> string \<Rightarrow> unit io" where
  "sys_symlink target p = call (\<lambda>w.
     if map_of (fs w) p \<noteq> None then (Inl EEXIST, w)
     else if \<not> is_dir (fs w) (dirname p) then (Inl (miss_err (fs w) p), w)
     else (Inr (), put_inode p \<lparr>kind = Lnk target, imode = 511, iuid = euid w\<rparr> w))"

definition sys_unlink :: "string \<Rightarrow> unit io" where
  "sys_unlink p = call (\<lambda>w. case map_of (fs w) p of
       None \<Rightarrow> (Inl (miss_err (fs w) p), w)
     | Some i \<Rightarrow> if kind i = Dir then (Inl EISDIR, w)
                 else (Inr (), w\<lparr>fs := AList.delete p (fs w)\<rparr>))"

text \<open>
  \<open>rename\<close> of a directory carries everything below it; the target, if it exists, must be
  of the same sort, and an existing target directory must be empty.
\<close>

definition below :: "string \<Rightarrow> string \<Rightarrow> bool" where
  "below d p \<longleftrightarrow> starts_with (join d []) p"

definition move_path :: "string \<Rightarrow> string \<Rightarrow> string \<Rightarrow> string" where
  "move_path a b p = (if p = a then b else if below a p then b @ drop (length a) p else p)"

definition do_rename :: "string \<Rightarrow> string \<Rightarrow> inode \<Rightarrow> (string, inode) alist \<Rightarrow> (string, inode) alist" where
  "do_rename a b i t = (if kind i = Dir then map (\<lambda>(p, i). (move_path a b p, i)) (AList.delete b t)
     else AList.update b i (AList.delete a t))"

definition sys_rename :: "string \<Rightarrow> string \<Rightarrow> unit io" where
  "sys_rename a b = call (\<lambda>w. case map_of (fs w) a of
       None \<Rightarrow> (Inl (miss_err (fs w) a), w)
     | Some i \<Rightarrow>
         if a = b then (Inr (), w)
         else if below a b then (Inl EINVAL, w)
         else if \<not> is_dir (fs w) (dirname b) then (Inl (miss_err (fs w) b), w)
         else (case map_of (fs w) b of
             Some j \<Rightarrow>
               if kind i = Dir \<and> kind j \<noteq> Dir then (Inl ENOTDIR, w)
               else if kind i \<noteq> Dir \<and> kind j = Dir then (Inl EISDIR, w)
               else if kind j = Dir \<and> dir_entries (fs w) b \<noteq> [] then (Inl ENOTEMPTY, w)
               else (Inr (), w\<lparr>fs := do_rename a b i (fs w)\<rparr>)
           | None \<Rightarrow> (Inr (), w\<lparr>fs := do_rename a b i (fs w)\<rparr>)))"

text \<open>\<open>opendir\<close>/\<open>readdir\<close>/\<open>closedir\<close>: the names in the directory when it is opened.\<close>

definition sys_opendir :: "string \<Rightarrow> string list io" where
  "sys_opendir p = call (\<lambda>w. case follow (fs w) p of
       Inl e \<Rightarrow> (Inl e, w)
     | Inr q \<Rightarrow> if is_dir (fs w) q then (Inr (''.'' # ''..'' # dir_entries (fs w) q), w)
                else (Inl (if map_of (fs w) q = None then miss_err (fs w) q else ENOTDIR), w))"

text \<open>Descriptors: the lowest free number is handed out.\<close>

definition fresh_fd :: "(nat, desc) alist \<Rightarrow> nat" where
  "fresh_fd d = hd (filter (\<lambda>n. map_of d n = None) [0..<Suc (length d)])"

definition new_fd :: "desc \<Rightarrow> world \<Rightarrow> nat \<times> world" where
  "new_fd d w = (fresh_fd (fds w), w\<lparr>fds := AList.update (fresh_fd (fds w)) d (fds w)\<rparr>)"

definition sys_open :: "string \<Rightarrow> oflag list \<Rightarrow> nat \<Rightarrow> nat io" where
  "sys_open p fl m = call (\<lambda>w. case follow (fs w) p of
       Inl e \<Rightarrow> (Inl e, w)
     | Inr q \<Rightarrow> (case map_of (fs w) q of
           Some i \<Rightarrow> (case kind i of
               Reg c \<Rightarrow>
                 (let w = (if O_TRUNC \<in> set fl then put_inode q (i\<lparr>kind := Reg []\<rparr>) w else w);
                      (n, w) = new_fd (DFile q 0 fl) w
                  in (Inr n, w))
             | Chr \<Rightarrow> (let (n, w) = new_fd (DFile q 0 fl) w in (Inr n, w))
             | Dir \<Rightarrow> if O_RDONLY \<in> set fl
                      then (let (n, w) = new_fd (DFile q 0 fl) w in (Inr n, w))
                      else (Inl EISDIR, w)
             | _ \<Rightarrow> (Inl ENXIO, w))
         | None \<Rightarrow>
             if O_CREAT \<notin> set fl \<or> \<not> is_dir (fs w) (dirname q) then (Inl (miss_err (fs w) q), w)
             else (let (n, w) = new_fd (DFile q 0 fl)
                        (put_inode q \<lparr>kind = Reg [], imode = m, iuid = euid w\<rparr> w)
                   in (Inr n, w))))"

text \<open>\<open>mkstemp\<close> on the template \<open>p @ ''XXXXXX''\<close>: the first suffix not in use.\<close>

definition sys_mkstemp :: "string \<Rightarrow> (nat \<times> string) io" where
  "sys_mkstemp p = call (\<lambda>w.
     let w' = w\<lparr>tmps := tl (dropWhile (\<lambda>s. map_of (fs w) (p @ s) \<noteq> None) (tmps w))\<rparr>
     in case dropWhile (\<lambda>s. map_of (fs w) (p @ s) \<noteq> None) (tmps w) of
          [] \<Rightarrow> (Inl EEXIST, w')
        | s # _ \<Rightarrow>
            if \<not> is_dir (fs w) (dirname (p @ s)) then (Inl (miss_err (fs w) (p @ s)), w')
            else (let (n, w') = new_fd (DFile (p @ s) 0 [O_RDWR])
                        (put_inode (p @ s) \<lparr>kind = Reg [], imode = 384, iuid = euid w\<rparr> w')
                  in (Inr (n, p @ s), w')))"

text \<open>\<open>close\<close> releases the descriptor whatever it returns.\<close>

definition sys_close :: "nat \<Rightarrow> unit io" where
  "sys_close fd w = (if map_of (fds w) fd = None then call (Pair (Inl EBADF)) w
     else call (Pair (Inr ())) (w\<lparr>fds := AList.delete fd (fds w)\<rparr>))"

text \<open>\<open>fcntl\<close> on the close-on-exec flag: the flag itself is not part of the state.\<close>

definition sys_fcntl_fd :: "nat \<Rightarrow> unit io" where
  "sys_fcntl_fd fd = call (\<lambda>w. (if map_of (fds w) fd = None then Inl EBADF else Inr (), w))"

definition sys_fchmod :: "nat \<Rightarrow> nat \<Rightarrow> unit io" where
  "sys_fchmod fd m = call (\<lambda>w. case map_of (fds w) fd of
       Some (DFile p off fl) \<Rightarrow> (case map_of (fs w) p of
           Some i \<Rightarrow> (Inr (), put_inode p (i\<lparr>imode := m\<rparr>) w) | None \<Rightarrow> (Inr (), w))
     | Some _ \<Rightarrow> (Inr (), w)
     | None \<Rightarrow> (Inl EBADF, w))"

definition sys_chmod :: "string \<Rightarrow> nat \<Rightarrow> unit io" where
  "sys_chmod p m = call (\<lambda>w. case follow (fs w) p of
       Inl e \<Rightarrow> (Inl e, w)
     | Inr q \<Rightarrow> (case map_of (fs w) q of
           Some i \<Rightarrow> (Inr (), put_inode q (i\<lparr>imode := m\<rparr>) w)
         | None \<Rightarrow> (Inl (miss_err (fs w) q), w)))"

text \<open>\<open>access\<close>: \<open>ms\<close> are the owner's permission bits asked for, none of them for existence.\<close>

definition sys_access :: "string \<Rightarrow> nat list \<Rightarrow> unit io" where
  "sys_access p ms = call (\<lambda>w. case follow (fs w) p of
       Inl e \<Rightarrow> (Inl e, w)
     | Inr q \<Rightarrow> (case map_of (fs w) q of
           Some i \<Rightarrow> if list_all (\<lambda>m. odd (imode i div m)) ms then (Inr (), w) else (Inl EACCES, w)
         | None \<Rightarrow> (Inl (miss_err (fs w) q), w)))"

definition sys_flock :: "nat \<Rightarrow> unit io" where
  "sys_flock fd = call (\<lambda>w. case map_of (fds w) fd of
       Some (DFile p off fl) \<Rightarrow> (if p \<in> set (locked w) then Inl EAGAIN else Inr (), w)
     | Some _ \<Rightarrow> (Inl EINVAL, w)
     | None \<Rightarrow> (Inl EBADF, w))"

definition sys_ftruncate0 :: "nat \<Rightarrow> unit io" where
  "sys_ftruncate0 fd = call (\<lambda>w. case map_of (fds w) fd of
       Some (DFile p off fl) \<Rightarrow> (case map_of (fs w) p of
           Some i \<Rightarrow> (Inr (), put_inode p (i\<lparr>kind := Reg []\<rparr>) w) | None \<Rightarrow> (Inr (), w))
     | _ \<Rightarrow> (Inl EBADF, w))"

text \<open>\<open>read\<close> and \<open>write\<close>: the fault may also shorten the transfer.\<close>

definition xfer_limit :: "world \<Rightarrow> nat \<Rightarrow> nat" where
  "xfer_limit w n = (case sched w of Short k # _ \<Rightarrow> min k n | _ \<Rightarrow> n)"

definition sys_read :: "nat \<Rightarrow> nat \<Rightarrow> string io" where
  "sys_read fd n w0 = call (\<lambda>w. case map_of (fds w) fd of
       Some (DFile p off fl) \<Rightarrow>
         (case map_option kind (map_of (fs w) p) of
            Some (Reg c) \<Rightarrow>
              (let got = take (if off < length c then max 1 (xfer_limit w0 n) else 0) (drop off c)
               in (Inr (take n got), w\<lparr>fds := AList.update fd (DFile p (off + length (take n got)) fl) (fds w)\<rparr>))
          | Some Chr \<Rightarrow> (Inr (take (xfer_limit w0 n) (rnd w)), w\<lparr>rnd := drop (xfer_limit w0 n) (rnd w)\<rparr>)
          | Some Dir \<Rightarrow> (Inl EISDIR, w)
          | _ \<Rightarrow> (Inr [], w))
     | Some _ \<Rightarrow> (Inl EINVAL, w)
     | None \<Rightarrow> (Inl EBADF, w)) w0"

definition splice :: "nat \<Rightarrow> string \<Rightarrow> string \<Rightarrow> string" where
  "splice off buf c = take off c @ buf @ drop (off + length buf) c"

definition sys_write :: "nat \<Rightarrow> string \<Rightarrow> nat io" where
  "sys_write fd buf w0 = call (\<lambda>w. case map_of (fds w) fd of
       Some (DFile p off fl) \<Rightarrow>
         if O_RDONLY \<in> set fl then (Inl EBADF, w)
         else (case map_of (fs w) p of
            Some i \<Rightarrow> (case kind i of
                Reg c \<Rightarrow>
                  (let b = take (xfer_limit w0 (length buf)) buf;
                       o1 = (if O_APPEND \<in> set fl then length c else off)
                   in (Inr (length b),
                       put_inode p (i\<lparr>kind := Reg (splice o1 b c)\<rparr>)
                         (w\<lparr>fds := AList.update fd (DFile p (o1 + length b) fl) (fds w)\<rparr>)))
              | _ \<Rightarrow> (Inr (length buf), w))
          | None \<Rightarrow> (Inr (length buf), w))
     | Some _ \<Rightarrow> (Inl EINVAL, w)
     | None \<Rightarrow> (Inl EBADF, w)) w0"

section \<open>Facts\<close>

lemma call_quiet [simp]: "sched w = [] \<Longrightarrow> call m w = m w"
  by (simp add: call_def)

lemma sched_update_same [simp]: "sched w = s \<Longrightarrow> w\<lparr>sched := s\<rparr> = w"
  by (cases w) simp

lemma call_cases [consumes 1, case_names fault run]:
  assumes "call m w = (r, w')"
  obtains e s where "sched w = Fail e # s" "r = Inl e" "w' = w\<lparr>sched := s\<rparr>"
    | s where "s = tl (sched w)" "m (w\<lparr>sched := s\<rparr>) = (r, w')"
proof (cases "sched w")
  case Nil
  then have "m (w\<lparr>sched := tl (sched w)\<rparr>) = (r, w')" using assms by simp
  then show ?thesis using that(2) by blast
next
  case (Cons f s)
  then show ?thesis using assms that by (cases f) (auto simp: call_def)
qed

lemma fresh_fd: "map_of d (fresh_fd d) = None"
proof -
  have ex: "\<exists>n. n < Suc (length d) \<and> map_of d n = None"
  proof (rule ccontr)
    assume "\<not> ?thesis"
    then have "{..<Suc (length d)} \<subseteq> fst ` set d"
      by (metis lessThan_iff map_of_eq_None_iff subsetI)
    then have "card {..<Suc (length d)} \<le> card (fst ` set d)"
      by (rule card_mono [rotated]) simp
    also have "\<dots> \<le> length d"
      using card_image_le [of "set d" fst] card_length [of d] by simp
    finally show False by simp
  qed
  then have "filter (\<lambda>n. map_of d n = None) [0..<Suc (length d)] \<noteq> []"
    by (simp only: filter_empty_conv set_upt) auto
  from hd_in_set [OF this] show ?thesis
    unfolding fresh_fd_def by (simp only: set_filter) blast
qed

lemma alist_delete_new: "map_of d n = None \<Longrightarrow> AList.delete n (AList.update n x d) = d"
  by (simp add: AList.delete_update_same map_of_eq_None_iff)

lemma split_last_join [path_simps]: "CHR ''/'' \<notin> set l \<Longrightarrow> split_last (CHR ''/'') (join d l) = Some (d, l)"
  by (simp add: join_def split_last_found)

lemma dirname_join [path_simps]: "CHR ''/'' \<notin> set l \<Longrightarrow> dirname (join d l) = d"
  by (simp add: dirname_def split_last_join)

lemma basename_join [path_simps]: "CHR ''/'' \<notin> set l \<Longrightarrow> basename (join d l) = l"
  by (simp add: basename_def split_last_join)

lemma length_join [simp]: "length (join d l) = Suc (length d + length l)"
  by (simp add: join_def)

lemma join_eq_iff [simp]: "join d l = join d l' \<longleftrightarrow> l = l'"
  by (simp add: join_def)

lemma join_neq_dir [simp]: "join d l \<noteq> d"
  by (simp add: join_def)

lemma join_join: "join (join a b) c = join a (join b c)"
  by (simp add: join_def)

lemma slash_in_join [simp]: "CHR ''/'' \<in> set (join a b)"
  by (simp add: join_def)

lemma split_first_slash: "CHR ''/'' \<notin> set a \<Longrightarrow> CHR ''/'' \<notin> set b \<Longrightarrow> join a x = join b y \<longleftrightarrow> a = b \<and> x = y"
proof -
  assume "CHR ''/'' \<notin> set a" "CHR ''/'' \<notin> set b"
  then have "split_at (CHR ''/'') (join a x) = (a, Some x)" "split_at (CHR ''/'') (join b y) = (b, Some y)"
    by (simp_all add: join_def split_at_found)
  then show ?thesis by (metis old.prod.inject option.inject)
qed

lemma below_join [path_simps]: "below d (join d l)"
  by (simp add: below_def join_def starts_with_def)

lemma below_iff: "below d p \<longleftrightarrow> (\<exists>l. p = join d l)"
  by (auto simp: below_def join_def starts_with_iff)

lemma below_trans [path_simps]: "below a b \<Longrightarrow> below b c \<Longrightarrow> below a c"
  by (auto simp: below_iff join_def)

lemma below_join_mono [path_simps]: "below a b \<Longrightarrow> below a (join b l)"
  using below_join below_trans by blast

lemma below_joinD: "below (join a l) p \<Longrightarrow> below a p"
  by (rule below_trans [OF below_join])

lemma below_irrefl [simp]: "\<not> below a a"
  by (simp add: below_def starts_with_def join_def)

lemma dir_entries_slash: "e \<in> set (dir_entries t d) \<Longrightarrow> CHR ''/'' \<notin> set e \<and> e \<noteq> []"
  by (auto simp: dir_entries_def)

lemma dir_entries_iff: "e \<in> set (dir_entries t d) \<longleftrightarrow>
    e \<noteq> [] \<and> CHR ''/'' \<notin> set e \<and> map_of t (join d e) \<noteq> None"
proof -
  have *: "starts_with (join d []) p \<and> Suc (length d) < length p \<longleftrightarrow> (\<exists>e. e \<noteq> [] \<and> p = join d e)" for p
    by (auto simp: starts_with_iff join_def)
  show ?thesis
  proof
    assume "e \<in> set (dir_entries t d)"
    then obtain p where "p \<in> fst ` set t" "starts_with (join d []) p \<and> Suc (length d) < length p"
      "CHR ''/'' \<notin> set (drop (Suc (length d)) p)" "e = drop (Suc (length d)) p"
      by (auto simp: dir_entries_def)
    moreover from this(2) obtain l where "l \<noteq> []" "p = join d l" using * by blast
    ultimately show "e \<noteq> [] \<and> CHR ''/'' \<notin> set e \<and> map_of t (join d e) \<noteq> None"
      by (simp add: join_def map_of_eq_None_iff)
  next
    assume e: "e \<noteq> [] \<and> CHR ''/'' \<notin> set e \<and> map_of t (join d e) \<noteq> None"
    have dr: "drop (Suc (length d)) (join d e) = e" by (simp add: join_def)
    have "join d e \<in> set (map fst t)" using e by (simp add: map_of_eq_None_iff)
    moreover have "starts_with (join d []) (join d e) \<and> Suc (length d) < length (join d e)"
      using * e by blast
    ultimately show "e \<in> set (dir_entries t d)"
      unfolding dir_entries_def set_map using e dr
      by (intro image_eqI [of _ _ "join d e"]) simp_all
  qed
qed

lemma map_of_map_keys:
  "(\<And>p. f p = q \<longleftrightarrow> p = q) \<Longrightarrow> map_of (map (\<lambda>(p, i). (f p, i)) t) q = map_of t q"
proof (induction t)
  case (Cons x t)
  have "f (fst x) = q \<longleftrightarrow> fst x = q" by (rule Cons.prems)
  moreover have "map_of (map (\<lambda>(p, i). (f p, i)) t) q = map_of t q" using Cons by blast
  ultimately show ?case by (cases x) auto
qed simp

lemma move_path_eq_iff:
  "q \<noteq> a \<Longrightarrow> q \<noteq> b \<Longrightarrow> \<not> below a q \<Longrightarrow> \<not> below b q \<Longrightarrow> move_path a b p = q \<longleftrightarrow> p = q"
  by (auto simp: move_path_def below_iff join_def)

lemma do_rename_other [io_simps]:
  "q \<noteq> a \<Longrightarrow> q \<noteq> b \<Longrightarrow> \<not> below a q \<Longrightarrow> \<not> below b q \<Longrightarrow>
     map_of (do_rename a b i t) q = map_of t q"
  by (simp add: do_rename_def map_of_map_keys move_path_eq_iff)

subsection \<open>What a call leaves alone\<close>

text \<open>
  \<open>frame A w0 d w\<close>: between \<open>w0\<close> and \<open>w\<close> only paths in \<open>A\<close> were touched, the
  descriptor table is now \<open>d\<close>, and the identity, clock, root, processes and sockets are
  those of \<open>w0\<close>.
\<close>

definition outside :: "world \<Rightarrow> (int, proc) alist \<times> int \<times> (int \<times> nat) list \<times> env_event list list \<times>
    (nat, packet list) alist \<times> (nat \<times> packet) list \<times> nat" where
  "outside w = (procs w, next_pid w, signals w, env w, rxq w, sent w, next_ep w)"

lemma outside_update [simp]:
  "outside (w\<lparr>sched := s\<rparr>) = outside w" "outside (w\<lparr>fs := t\<rparr>) = outside w"
  "outside (w\<lparr>fds := d\<rparr>) = outside w" "outside (w\<lparr>tmps := u\<rparr>) = outside w"
  "outside (w\<lparr>rnd := r\<rparr>) = outside w" "outside (put_inode p i w) = outside w"
  by (simp_all add: outside_def put_inode_def)

definition frame :: "(string \<Rightarrow> bool) \<Rightarrow> world \<Rightarrow> (nat, desc) alist \<Rightarrow> world \<Rightarrow> bool" where
  "frame A w0 d w \<longleftrightarrow> (\<forall>p. A p \<or> map_of (fs w) p = map_of (fs w0) p) \<and> fds w = d \<and>
     aroot w = aroot w0 \<and> euid w = euid w0 \<and> self_pid w = self_pid w0 \<and> now w = now w0 \<and>
     outside w = outside w0 \<and> (sched w0 = [] \<longrightarrow> sched w = [])"

lemma frame_refl [inv_intros]: "frame A w (fds w) w"
  by (simp add: frame_def)

lemma frame_lookup: "frame A w0 d w \<Longrightarrow> \<not> A p \<Longrightarrow> map_of (fs w) p = map_of (fs w0) p"
  by (auto simp: frame_def)

lemma frame_fields:
  "frame A w0 d w \<Longrightarrow> fds w = d \<and> aroot w = aroot w0 \<and> euid w = euid w0 \<and>
     self_pid w = self_pid w0 \<and> now w = now w0 \<and> outside w = outside w0"
  by (simp add: frame_def)

lemma frame_quiet: "frame A w0 d w \<Longrightarrow> sched w0 = [] \<Longrightarrow> sched w = []"
  by (simp add: frame_def)

lemma frame_trans: "frame A w0 d w1 \<Longrightarrow> frame A w1 d' w2 \<Longrightarrow> frame A w0 d' w2"
  by (simp add: frame_def) metis

lemma frame_mono: "frame A w0 d w \<Longrightarrow> (\<And>p. A p \<Longrightarrow> B p) \<Longrightarrow> frame B w0 d w"
  by (auto simp: frame_def)

lemma frame_sched [inv_intros]: "frame A w0 d w \<Longrightarrow> (sched w = [] \<Longrightarrow> s = []) \<Longrightarrow> frame A w0 d (w\<lparr>sched := s\<rparr>)"
  by (auto simp: frame_def)

lemma frame_pair [inv_intros]: "frame A w0 d w \<Longrightarrow> frame A w0 d (snd (r, w))"
  by simp

lemma frame_call:
  assumes "frame A w0 d w"
    and "\<And>w'. frame A w0 d w' \<Longrightarrow> frame A w0 d (snd (m w'))"
  shows "frame A w0 d (snd (call m w))"
proof (cases "call m w")
  case (Pair r w')
  then show ?thesis
  proof (cases rule: call_cases)
    case (fault e s)
    then show ?thesis using Pair assms(1) by (auto simp: frame_def)
  next
    case (run s)
    have "frame A w0 d (w\<lparr>sched := s\<rparr>)"
      using assms(1) run(1) by (auto simp: frame_def)
    from assms(2) [OF this] run show ?thesis by (simp add: Pair)
  qed
qed

lemma put_inode_simps [simp]:
  "map_of (fs (put_inode p i w)) q = (if q = p then Some i else map_of (fs w) q)"
  "fds (put_inode p i w) = fds w" "sched (put_inode p i w) = sched w" "euid (put_inode p i w) = euid w"
  "aroot (put_inode p i w) = aroot w" "now (put_inode p i w) = now w"
  "self_pid (put_inode p i w) = self_pid w"
  by (simp_all add: put_inode_def)

lemma frame_put [inv_intros]: "frame A w0 d w \<Longrightarrow> A p \<Longrightarrow> frame A w0 d (put_inode p i w)"
  by (auto simp: frame_def put_inode_def)

lemma frame_fds: "frame A w0 d w \<Longrightarrow> frame A w0 d' (w\<lparr>fds := d'\<rparr>)"
  by (simp add: frame_def)

lemma frame_rnd: "frame A w0 d w \<Longrightarrow> frame A w0 d (w\<lparr>rnd := r\<rparr>)"
  by (simp add: frame_def)

lemma frame_del: "frame A w0 d w \<Longrightarrow> A p \<Longrightarrow> frame A w0 d (w\<lparr>fs := AList.delete p (fs w)\<rparr>)"
  by (auto simp: frame_def)

lemma frame_stat [inv_intros]: "frame A w0 d w \<Longrightarrow> frame A w0 d (snd (sys_stat p w))"
  unfolding sys_stat_def by (rule frame_call) (auto split: sum.splits option.splits)

lemma frame_lstat [inv_intros]: "frame A w0 d w \<Longrightarrow> frame A w0 d (snd (sys_lstat p w))"
  unfolding sys_lstat_def by (rule frame_call) (auto split: option.splits)

lemma frame_access [inv_intros]: "frame A w0 d w \<Longrightarrow> frame A w0 d (snd (sys_access p m w))"
  unfolding sys_access_def by (rule frame_call) (auto split: sum.splits option.splits)

lemma frame_opendir [inv_intros]: "frame A w0 d w \<Longrightarrow> frame A w0 d (snd (sys_opendir p w))"
  unfolding sys_opendir_def by (rule frame_call) (auto split: sum.splits)

lemma frame_mkdir [inv_intros]: "frame A w0 d w \<Longrightarrow> A p \<Longrightarrow> frame A w0 d (snd (sys_mkdir p m w))"
  unfolding sys_mkdir_def by (rule frame_call) (auto intro: frame_put)

lemma frame_symlink [inv_intros]:
  "frame A w0 d w \<Longrightarrow> A p \<Longrightarrow> frame A w0 d (snd (sys_symlink t p w))"
  unfolding sys_symlink_def by (rule frame_call) (auto intro: frame_put)

lemma frame_unlink [inv_intros]: "frame A w0 d w \<Longrightarrow> A p \<Longrightarrow> frame A w0 d (snd (sys_unlink p w))"
  unfolding sys_unlink_def by (rule frame_call) (auto split: option.splits intro: frame_del)

lemma frame_do_rename:
  assumes "frame A w0 d w" "A a" "A b" "\<And>p. below a p \<Longrightarrow> A p" "\<And>p. below b p \<Longrightarrow> A p"
  shows "frame A w0 d (w\<lparr>fs := do_rename a b i (fs w)\<rparr>)"
proof -
  have "A p \<or> map_of (do_rename a b i (fs w)) p = map_of (fs w) p" for p
    using assms(2-) do_rename_other by metis
  with assms(1) show ?thesis
    by (simp add: frame_def) metis
qed

lemma frame_rename [inv_intros]:
  assumes "frame A w0 d w" "A a" "A b" "\<And>p. below a p \<Longrightarrow> A p" "\<And>p. below b p \<Longrightarrow> A p"
  shows "frame A w0 d (snd (sys_rename a b w))"
  unfolding sys_rename_def
  by (rule frame_call) (auto split: option.splits intro: frame_do_rename assms)

lemma frame_fcntl [inv_intros]: "frame A w0 d w \<Longrightarrow> frame A w0 d (snd (sys_fcntl_fd fd w))"
  unfolding sys_fcntl_fd_def by (rule frame_call) auto

text \<open>Case analysis on the result of a call, carrying the frame along.\<close>

lemma frame_case [inv_intros]:
  assumes "frame A w0 d (snd m)"
    and "\<And>e w'. m = (Inl e, w') \<Longrightarrow> frame A w0 d w' \<Longrightarrow> frame A w0 d (snd (f e w'))"
    and "\<And>x w'. m = (Inr x, w') \<Longrightarrow> frame A w0 d w' \<Longrightarrow> frame A w0 d (snd (g x w'))"
  shows "frame A w0 d (snd (case m of (r, w') \<Rightarrow> (case r of Inl e \<Rightarrow> f e w' | Inr x \<Rightarrow> g x w')))"
  using assms by (cases m; cases "fst m") auto

lemma frame_if [inv_intros]:
  "(c \<Longrightarrow> frame A w0 d (snd x)) \<Longrightarrow> (\<not> c \<Longrightarrow> frame A w0 d (snd y)) \<Longrightarrow>
     frame A w0 d (snd (if c then x else y))"
  by simp

end
