(* ===== verification/Paths.thy ===== *)
theory Paths
  imports Posix
begin

text \<open>
  The data root and the per-agent layout (\<open>src/common.c\<close>, lines 21 to 343): validation
  of agent names, resolution and ownership check of the per-user root, the one-daemon
  lock, and the map from an agent and a leaf name to a path in one of the three classes
  \<open>config\<close>, \<open>runtime\<close> and \<open>data\<close>, with the migration of an older flat layout.

  A C function that returns 0 or -1 with \<open>errno\<close> is a function into
  \<^typ>\<open>errno + 'a\<close>; a call of \<open>exit (1)\<close> is the result \<open>None\<close>. Path arguments are C
  strings, so they contain no NUL; a null pointer is not a value of the model.
\<close>

section \<open>Definitions\<close>

definition MAX_NAME :: nat where "MAX_NAME = 64"

definition name_char :: "char \<Rightarrow> bool" where
  "name_char c \<longleftrightarrow> c_isalnum c \<or> c = CHR ''_'' \<or> c = CHR ''-'' \<or> c = CHR ''.''"

definition validate_name :: "string \<Rightarrow> bool" where
  "validate_name name \<longleftrightarrow>
     name \<noteq> [] \<and> length name \<le> MAX_NAME \<and> hd name \<noteq> CHR ''.'' \<and> hd name \<noteq> CHR ''-'' \<and>
     list_all name_char name"

definition fit :: "nat \<Rightarrow> string \<Rightarrow> errno + string" where
  "fit n s = (if length s \<ge> n then Inl ENAMETOOLONG else Inr s)"

definition ensure_dir :: "string \<Rightarrow> nat \<Rightarrow> unit io" where
  "ensure_dir path mode w = (case sys_mkdir path mode w of
       (Inr _, w) \<Rightarrow> (Inr (), w)
     | (Inl e, w) \<Rightarrow>
         if e = EEXIST then
           (case sys_stat path w of
              (Inl e, w) \<Rightarrow> (Inl e, w)
            | (Inr st, w) \<Rightarrow> if kind st \<noteq> Dir then (Inl ENOTDIR, w) else (Inr (), w))
         else (Inl e, w))"

text \<open>\<open>st_mode & 0077\<close>: the six group and world bits.\<close>

definition validate_root_ownership_path :: "string \<Rightarrow> world \<Rightarrow> bool \<times> world" where
  "validate_root_ownership_path path w = (case sys_stat path w of
       (Inl _, w) \<Rightarrow> (False, w)
     | (Inr st, w) \<Rightarrow>
         if kind st \<noteq> Dir then (False, w)
         else if iuid st \<noteq> euid w then (False, w)
         else if take_bit 6 (imode st) \<noteq> 0 then (False, w)
         else (True, w))"

definition root_candidate :: "(string \<Rightarrow> string option) \<Rightarrow> nat \<Rightarrow> string" where
  "root_candidate getenv uid = (case getenv ''AGENTCTL_ROOT'' of
       Some (c # r) \<Rightarrow> c # r
     | _ \<Rightarrow> (case getenv ''XDG_RUNTIME_DIR'' of
           Some (c # r) \<Rightarrow> (c # r) @ ''/agentctl''
         | _ \<Rightarrow> ''/tmp/agentctl-'' @ dec_nat uid))"

definition agentctl_root :: "(string \<Rightarrow> string option) \<Rightarrow> nat \<Rightarrow> world \<Rightarrow> string option \<times> world" where
  "agentctl_root getenv uid w =
     (let path = root_candidate getenv uid in
      if length path \<ge> MAX_PATHBUF then (None, w)
      else (case ensure_dir path 448 w of
          (Inl _, w) \<Rightarrow> (None, w)
        | (Inr _, w) \<Rightarrow>
            (case validate_root_ownership_path path w of
               (False, w) \<Rightarrow> (None, w)
             | (True, w) \<Rightarrow> (Some path, w\<lparr>aroot := path\<rparr>))))"

definition root_child_path :: "string \<Rightarrow> world \<Rightarrow> string option" where
  "root_child_path leaf w = (let p = join (aroot w) leaf in if length p \<ge> MAX_PATHBUF then None else Some p)"

definition agent_root_init :: "world \<Rightarrow> string option \<times> world" where
  "agent_root_init w = (case root_child_path ''agents'' w of
       None \<Rightarrow> (None, w)
     | Some p \<Rightarrow> (case ensure_dir p 448 w of (Inl _, w) \<Rightarrow> (None, w) | (Inr _, w) \<Rightarrow> (Some p, w)))"

text \<open>The cached \<open>agent_root ()\<close> and the daemon's own files.\<close>

definition agent_root :: "world \<Rightarrow> string" where
  "agent_root w = join (aroot w) ''agents''"

definition agentd_sock_path :: "world \<Rightarrow> string" where
  "agentd_sock_path w = join (aroot w) ''agentd.sock''"

definition agentd_pid_path :: "world \<Rightarrow> string" where
  "agentd_pid_path w = join (aroot w) ''agentd.pid''"

definition agentd_log_path :: "world \<Rightarrow> string" where
  "agentd_log_path w = join (aroot w) ''agentd.log''"

definition agentd_token_path :: "world \<Rightarrow> string" where
  "agentd_token_path w = join (aroot w) ''agentd.token''"

definition agentctl_root_lock :: "nat io" where
  "agentctl_root_lock w = (case fit MAX_PATHBUF (join (aroot w) ''agentd.lock'') of
       Inl e \<Rightarrow> (Inl e, w)
     | Inr path \<Rightarrow>
         (case sys_open path [O_RDWR, O_CREAT, O_CLOEXEC] 384 w of
            (Inl e, w) \<Rightarrow> (Inl e, w)
          | (Inr fd, w) \<Rightarrow>
              (case sys_flock fd w of
                 (Inl e, w) \<Rightarrow> (Inl e, snd (sys_close fd w))
               | (Inr _, w) \<Rightarrow>
                   (let w = snd (sys_ftruncate0 fd w);
                        w = snd (sys_write fd (dec_nat (self_pid w) @ [NL]) w)
                    in (Inr fd, w)))))"

definition agent_dir :: "string \<Rightarrow> world \<Rightarrow> errno + string" where
  "agent_dir name w = (if \<not> validate_name name then Inl EINVAL else fit MAX_PATHBUF (join (agent_root w) name))"

definition agent_subdir :: "string \<Rightarrow> string \<Rightarrow> world \<Rightarrow> errno + string" where
  "agent_subdir name sub w = (if \<not> validate_name name then Inl EINVAL
     else fit MAX_PATHBUF (join (join (agent_root w) name) sub))"

abbreviation agent_config_dir :: "string \<Rightarrow> world \<Rightarrow> errno + string" where
  "agent_config_dir name w \<equiv> agent_subdir name ''config'' w"
abbreviation agent_runtime_dir :: "string \<Rightarrow> world \<Rightarrow> errno + string" where
  "agent_runtime_dir name w \<equiv> agent_subdir name ''runtime'' w"
abbreviation agent_data_dir :: "string \<Rightarrow> world \<Rightarrow> errno + string" where
  "agent_data_dir name w \<equiv> agent_subdir name ''data'' w"

definition config_leaves :: "string list" where
  "config_leaves = [''goal'', ''policy'', ''limits'', ''profile'', ''config'', ''exec'', ''runtime'',
     ''desired_state'', ''enabled'', ''restart_policy'', ''transport'']"

definition runtime_leaves :: "string list" where
  "runtime_leaves = [''pid'', ''status'', ''supervisor'', ''restart_count'',
     ''enforcement.req'', ''enforcement.applied'']"

definition leaf_class :: "string \<Rightarrow> string" where
  "leaf_class leaf = (if leaf \<in> set config_leaves then ''config''
     else if leaf \<in> set runtime_leaves then ''runtime'' else ''data'')"

definition ensure_legacy_link :: "string \<Rightarrow> string \<Rightarrow> string \<Rightarrow> world \<Rightarrow> world" where
  "ensure_legacy_link base leaf klass w =
     (if CHR ''/'' \<in> set leaf then w
      else if length (join base leaf) \<ge> MAX_PATHBUF \<or> length (join klass leaf) \<ge> MAX_PATHBUF then w
      else (case sys_lstat (join base leaf) w of
          (Inr _, w) \<Rightarrow> w
        | (Inl e, w) \<Rightarrow> if e = ENOENT then snd (sys_symlink (join klass leaf) (join base leaf) w) else w))"

definition layout_skip :: "string \<Rightarrow> bool" where
  "layout_skip e \<longleftrightarrow> starts_with ''.'' e \<or> e = ''config'' \<or> e = ''runtime'' \<or> e = ''data''"

text \<open>One entry of the flat layout: moved into its class unless the class has it, then linked.\<close>

definition layout_entry :: "string \<Rightarrow> string \<Rightarrow> unit io" where
  "layout_entry base e w =
     (let klass = leaf_class e; oldp = join base e; newp = join (join base klass) e in
      if length oldp \<ge> MAX_PATHBUF \<or> length newp \<ge> MAX_PATHBUF then (Inl ENAMETOOLONG, w)
      else (case sys_lstat newp w of
          (Inr _, w) \<Rightarrow> (Inr (), ensure_legacy_link base e klass w)
        | (Inl er, w) \<Rightarrow>
            if er \<noteq> ENOENT then (Inl er, w)
            else (case sys_rename oldp newp w of
                (Inl er, w) \<Rightarrow> (Inl er, w)
              | (Inr _, w) \<Rightarrow> (Inr (), ensure_legacy_link base e klass w))))"

fun layout_loop :: "string \<Rightarrow> string list \<Rightarrow> unit io" where
  "layout_loop base [] w = (Inr (), w)"
| "layout_loop base (e # es) w =
     (if layout_skip e then layout_loop base es w
      else (case layout_entry base e w of
          (Inl er, w) \<Rightarrow> (Inl er, w)
        | (Inr _, w) \<Rightarrow> layout_loop base es w))"

definition agent_ensure_layout :: "string \<Rightarrow> unit io" where
  "agent_ensure_layout name w =
     (case (agent_dir name w, agent_config_dir name w, agent_runtime_dir name w, agent_data_dir name w) of
        (Inr base, Inr config, Inr runtime, Inr data) \<Rightarrow>
          (case sys_stat base w of
             (Inl e, w) \<Rightarrow> (Inl e, w)
           | (Inr st, w) \<Rightarrow>
               if kind st \<noteq> Dir then (Inl ENOTDIR, w)
               else (case ensure_dir config 448 w of
                   (Inl e, w) \<Rightarrow> (Inl e, w)
                 | (Inr _, w) \<Rightarrow> (case ensure_dir runtime 448 w of
                   (Inl e, w) \<Rightarrow> (Inl e, w)
                 | (Inr _, w) \<Rightarrow> (case ensure_dir data 448 w of
                   (Inl e, w) \<Rightarrow> (Inl e, w)
                 | (Inr _, w) \<Rightarrow> (case sys_opendir base w of
                   (Inl e, w) \<Rightarrow> (Inl e, w)
                 | (Inr es, w) \<Rightarrow> layout_loop base es w)))))
      | (Inl e, _, _, _) \<Rightarrow> (Inl e, w)
      | (_, Inl e, _, _) \<Rightarrow> (Inl e, w)
      | (_, _, Inl e, _) \<Rightarrow> (Inl e, w)
      | (_, _, _, Inl e) \<Rightarrow> (Inl e, w))"

text \<open>The layout is brought up to date when the agent has no \<open>config\<close> directory yet.\<close>

definition migrate_layout :: "string \<Rightarrow> string \<Rightarrow> unit io" where
  "migrate_layout name config w = (case sys_stat config w of
       (Inl e, w) \<Rightarrow> if e = ENOENT then agent_ensure_layout name w else (Inr (), w)
     | (Inr _, w) \<Rightarrow> (Inr (), w))"

definition agent_path :: "nat \<Rightarrow> string \<Rightarrow> string \<Rightarrow> string io" where
  "agent_path n name leaf w =
     (case (agent_dir name w, agent_config_dir name w) of
        (Inl e, _) \<Rightarrow> (Inl e, w)
      | (_, Inl e) \<Rightarrow> (Inl e, w)
      | (Inr base, Inr config) \<Rightarrow>
          (case migrate_layout name config w of
             (Inl e, w) \<Rightarrow> (Inl e, w)
           | (Inr _, w) \<Rightarrow>
               (let klass = leaf_class leaf in
                case fit n (join (join base klass) leaf) of
                  Inl e \<Rightarrow> (Inl e, w)
                | Inr p \<Rightarrow> (Inr p, ensure_legacy_link base leaf klass w))))"

section \<open>Names\<close>

lemma name_char_simps [simp]:
  "\<not> name_char (CHR ''/'')" "\<not> name_char NUL" "\<not> name_char NL" "\<not> name_char SP"
  "\<not> name_char TAB" "\<not> name_char CR" "\<not> name_char (CHR ''='')" "\<not> name_char (CHR ''*'')"
  by (simp_all add: name_char_def c_isalnum_def c_isalpha_def c_isdigit_def)

lemma validate_name_chars: "validate_name s \<Longrightarrow> c \<in> set s \<Longrightarrow> name_char c"
  by (auto simp: validate_name_def list_all_iff)

lemma validate_name_notin: "validate_name s \<Longrightarrow> \<not> name_char c \<Longrightarrow> c \<notin> set s"
  using validate_name_chars by blast

interpretation agent_name: path_component validate_name
  by unfold_locales (auto simp: validate_name_def list_all_iff)

lemma validate_name_length: "validate_name s \<Longrightarrow> 0 < length s \<and> length s \<le> 64"
  by (auto simp: validate_name_def MAX_NAME_def)

lemma fit_Inr [simp]: "fit n s = Inr p \<longleftrightarrow> p = s \<and> length s < n"
  by (auto simp: fit_def)

lemma fit_ok: "length s < n \<Longrightarrow> fit n s = Inr s"
  by (simp add: fit_def)

section \<open>What the path operations may touch\<close>

abbreviation agent_base :: "string \<Rightarrow> world \<Rightarrow> string" where
  "agent_base name w \<equiv> join (agent_root w) name"

lemma frame_ensure_dir [inv_intros]:
  "frame A w0 d w \<Longrightarrow> A p \<Longrightarrow> frame A w0 d (snd (ensure_dir p m w))"
  unfolding ensure_dir_def by (auto intro!: inv_intros)

lemma frame_ensure_legacy_link [inv_intros]:
  assumes "frame A w0 d w" "A (join base leaf)"
  shows "frame A w0 d (ensure_legacy_link base leaf klass w)"
proof -
  obtain r w' where l: "sys_lstat (join base leaf) w = (r, w')" by fastforce
  then have "frame A w0 d w'" using frame_lstat [OF assms(1), of "join base leaf"] by simp
  then show ?thesis
    using l assms by (auto simp: ensure_legacy_link_def intro!: frame_symlink split: sum.splits)
qed

lemma leaf_class_cases: "leaf_class e = ''config'' \<or> leaf_class e = ''runtime'' \<or> leaf_class e = ''data''"
  by (simp add: leaf_class_def)

lemma leaf_class_no_slash [simp]: "CHR ''/'' \<notin> set (leaf_class l)"
  using leaf_class_cases [of l] by auto

lemma frame_layout_entry [inv_intros]:
  assumes "frame (below base) w0 d w"
  shows "frame (below base) w0 d (snd (layout_entry base e w))"
  unfolding layout_entry_def Let_def
  by (intro inv_intros assms frame_ensure_legacy_link below_join below_join_mono)
    (assumption | drule below_joinD)+

lemma frame_layout_loop [inv_intros]:
  "frame (below base) w0 d w \<Longrightarrow> frame (below base) w0 d (snd (layout_loop base es w))"
proof (induction es arbitrary: w)
  case (Cons e es)
  obtain r w' where l: "layout_entry base e w = (r, w')" by fastforce
  then have "frame (below base) w0 d w'" using frame_layout_entry [OF Cons.prems, of e] by simp
  then show ?case using Cons.IH [of w] Cons.IH [of w'] Cons.prems by (simp add: l split: sum.split)
qed simp

lemma agent_dir_Inr [simp]:
  "agent_dir name w = Inr b \<longleftrightarrow> validate_name name \<and> b = agent_base name w \<and> length b < MAX_PATHBUF"
  by (auto simp: agent_dir_def)

lemma agent_subdir_Inr [simp]: "agent_subdir name sub w = Inr b \<longleftrightarrow>
    validate_name name \<and> b = join (agent_base name w) sub \<and> length b < MAX_PATHBUF"
  by (auto simp: agent_subdir_def)

lemma frame_agent_ensure_layout [inv_intros]:
  assumes "frame (below (agent_base name w)) w0 d w"
  shows "frame (below (agent_base name w)) w0 d (snd (agent_ensure_layout name w))"
  unfolding agent_ensure_layout_def
  using assms
  by (auto split: sum.splits intro!: inv_intros below_join)

lemma frame_migrate_layout [inv_intros]:
  assumes "frame (below (agent_base name w)) w0 d w"
  shows "frame (below (agent_base name w)) w0 d (snd (migrate_layout name c w))"
proof -
  obtain r w' where s: "sys_stat c w = (r, w')" by fastforce
  then have f: "frame (below (agent_base name w)) w0 d w'" "frame (\<lambda>_. False) w (fds w) w'"
    using frame_stat [OF assms, of c] frame_stat [OF frame_refl, of "\<lambda>_. False" w c] by simp_all
  then have "agent_root w' = agent_root w" using frame_fields [OF f(2)] by (simp add: agent_root_def)
  with f(1) s frame_agent_ensure_layout [of w' name w0 d] show ?thesis
    by (auto simp: migrate_layout_def split: sum.splits)
qed

lemma agent_path_frame:
  "frame (below (agent_base name w)) w (fds w) (snd (agent_path n name leaf w))"
proof -
  obtain r w' where m: "migrate_layout name (join (agent_base name w) ''config'') w = (r, w')" by fastforce
  then have "frame (below (agent_base name w)) w (fds w) w'"
    using frame_migrate_layout [OF frame_refl, of w name "join (agent_base name w) ''config''"] by simp
  moreover have "below (agent_base name w) (join (agent_base name w) leaf)" by (rule below_join)
  ultimately show ?thesis
    by (auto simp: agent_path_def m Let_def intro!: inv_intros split: sum.splits)
qed

lemma frame_agent_path [inv_intros]:
  assumes "frame A w0 d w" "\<And>p. below (agent_base name w) p \<Longrightarrow> A p"
  shows "frame A w0 d (snd (agent_path n name leaf w))"
proof -
  have f: "frame A w (fds w) (snd (agent_path n name leaf w))"
    using agent_path_frame assms(2) by (rule frame_mono)
  have "d = fds w" using frame_fields [OF assms(1)] by simp
  with frame_trans [OF assms(1) f] show ?thesis by simp
qed

lemma agent_path_result:
  assumes "agent_path n name leaf w = (Inr p, w')"
  shows "validate_name name \<and> p = join (join (agent_base name w) (leaf_class leaf)) leaf \<and> length p < n"
  using assms by (auto simp: agent_path_def Let_def split: sum.splits prod.splits)

subsection \<open>An agent whose layout is in place\<close>

definition dir_at :: "world \<Rightarrow> string \<Rightarrow> bool" where
  "dir_at w p \<longleftrightarrow> (case map_of (fs w) p of Some i \<Rightarrow> kind i = Dir | None \<Rightarrow> False)"

definition has_layout :: "string \<Rightarrow> world \<Rightarrow> bool" where
  "has_layout name w \<longleftrightarrow> validate_name name \<and> sched w = [] \<and>
     length (agent_base name w) + 8 < MAX_PATHBUF \<and> dir_at w (agent_base name w) \<and>
     dir_at w (join (agent_base name w) ''config'') \<and>
     dir_at w (join (agent_base name w) ''runtime'') \<and>
     dir_at w (join (agent_base name w) ''data'')"

lemma dir_at_iff: "dir_at w p \<longleftrightarrow> (\<exists>i. map_of (fs w) p = Some i \<and> kind i = Dir)"
  by (auto simp: dir_at_def split: option.splits)

lemma follow_nolink: "map_of t p = Some i \<Longrightarrow> (\<And>d. kind i \<noteq> Lnk d) \<Longrightarrow> follow t p = Inr p"
  by (simp add: follow_def eval_nat_numeral split: node.splits)

lemma follow_None: "map_of t p = None \<Longrightarrow> follow t p = Inr p"
  by (simp add: follow_def eval_nat_numeral)

lemma dir_at_stat: "dir_at w p \<Longrightarrow> sched w = [] \<Longrightarrow> \<exists>i. sys_stat p w = (Inr i, w) \<and> kind i = Dir"
  by (auto simp: dir_at_iff sys_stat_def follow_nolink)

lemma dir_at_is_dir: "dir_at w p \<Longrightarrow> is_dir (fs w) p"
  by (auto simp: dir_at_iff is_dir_def)

text \<open>\<open>extends w w' P\<close>: the file tree gained entries at paths in \<open>P\<close>, and nothing else changed.\<close>

definition extends :: "(string \<Rightarrow> bool) \<Rightarrow> world \<Rightarrow> world \<Rightarrow> bool" where
  "extends A w w' \<longleftrightarrow> frame A w (fds w) w' \<and>
     (\<forall>q. map_of (fs w) q \<noteq> None \<longrightarrow> map_of (fs w') q = map_of (fs w) q)"

lemma extends_refl: "extends A w w"
  by (simp add: extends_def frame_refl)

lemma extends_keeps: "extends A w w' \<Longrightarrow> map_of (fs w) q = Some i \<Longrightarrow> map_of (fs w') q = Some i"
  by (auto simp: extends_def)

lemma extends_other: "extends A w w' \<Longrightarrow> \<not> A q \<Longrightarrow> map_of (fs w') q = map_of (fs w) q"
  by (auto simp: extends_def frame_def)

lemma extends_fields: "extends A w w' \<Longrightarrow> fds w' = fds w \<and> aroot w' = aroot w \<and> euid w' = euid w \<and>
    self_pid w' = self_pid w \<and> now w' = now w \<and> outside w' = outside w \<and> (sched w = [] \<longrightarrow> sched w' = [])"
  by (simp add: extends_def frame_def)

lemma extends_dir_at: "extends A w w' \<Longrightarrow> dir_at w p \<Longrightarrow> dir_at w' p"
  by (auto simp: dir_at_iff dest: extends_keeps)

lemma extends_layout: "extends A w w' \<Longrightarrow> has_layout name w \<Longrightarrow> has_layout name w'"
  by (frule extends_fields) (auto simp: has_layout_def agent_root_def intro: extends_dir_at)

lemma ensure_legacy_link_extends:
  assumes "sched w = []"
  shows "extends (\<lambda>q. q = join base leaf) w (ensure_legacy_link base leaf klass w)"
  using assms
  by (auto simp: ensure_legacy_link_def sys_lstat_def sys_symlink_def extends_def frame_def
      put_inode_def split: option.splits)

lemma agent_path_ready:
  assumes "has_layout name w"
    and "length (join (join (agent_base name w) (leaf_class leaf)) leaf) < n"
  shows "\<exists>w'. agent_path n name leaf w = (Inr (join (join (agent_base name w) (leaf_class leaf)) leaf), w') \<and>
     extends (\<lambda>q. q = join (agent_base name w) leaf) w w'"
proof -
  have l: "validate_name name" "sched w = []" "length (agent_base name w) < MAX_PATHBUF"
    "length (join (agent_base name w) ''config'') < MAX_PATHBUF"
    "dir_at w (join (agent_base name w) ''config'')"
    using assms(1) by (auto simp: has_layout_def)
  obtain i where "sys_stat (join (agent_base name w) ''config'') w = (Inr i, w)"
    using dir_at_stat l by blast
  then have "migrate_layout name (join (agent_base name w) ''config'') w = (Inr (), w)"
    by (simp add: migrate_layout_def)
  moreover have "agent_dir name w = Inr (agent_base name w)"
    "agent_config_dir name w = Inr (join (agent_base name w) ''config'')"
    using l by simp_all
  ultimately show ?thesis
    using assms(2) ensure_legacy_link_extends [OF l(2)]
    by (simp add: agent_path_def fit_ok Let_def del: agent_dir_Inr agent_subdir_Inr)
qed

subsection \<open>A compatibility link whose target is missing\<close>

text \<open>
  \<open>agent_path\<close> creates the link before the file it points to exists. When the layout is
  brought up to date in that state, the link itself is what gets moved into the class
  directory, where it points below itself.
\<close>

lemma layout_entry_moves_link:
  assumes "sched w = []" "CHR ''/'' \<notin> set e" "\<not> layout_skip e"
    and "length base + length e + 9 < MAX_PATHBUF"
    and "map_of (fs w) (join base e) = Some i" "kind i = Lnk (join (leaf_class e) e)"
    and "map_of (fs w) (join (join base (leaf_class e)) e) = None"
    and "miss_err (fs w) (join (join base (leaf_class e)) e) = ENOENT"
    and "dir_at w (join base (leaf_class e))"
    and "layout_entry base e w = (r, w')"
  shows "r = Inr () \<and> sched w' = [] \<and> map_of (fs w') (join (join base (leaf_class e)) e) = Some i \<and>
    (\<forall>q. q \<noteq> join base e \<longrightarrow> q \<noteq> join (join base (leaf_class e)) e \<longrightarrow> map_of (fs w') q = map_of (fs w) q)"
proof -
  let ?k = "leaf_class e"
  let ?new = "join (join base ?k) e"
  have len: "length ?k \<le> 7" using leaf_class_cases [of e] by auto
  have ne: "join base e \<noteq> ?new" using len by (auto simp: join_def)
  have nb: "\<not> below (join base e) ?new"
  proof
    assume "below (join base e) ?new"
    then obtain l where "?new = join (join base e) l" by (auto simp: below_iff)
    then have "join ?k e = join e l" by (simp add: join_join)
    then have "?k = e" using split_first_slash [of ?k e e l] assms(2) leaf_class_no_slash by blast
    then show False using leaf_class_cases [of e] assms(3) by (auto simp: layout_skip_def)
  qed
  have ls: "sys_lstat ?new w = (Inl ENOENT, w)" using assms by (simp add: sys_lstat_def)
  have nd: "kind i \<noteq> Dir" using assms(6) by simp
  have "is_dir (fs w) (dirname ?new)" using dir_at_is_dir [OF assms(9)] dirname_join [OF assms(2)] by simp
  then have rn: "sys_rename (join base e) ?new w =
      (Inr (), w\<lparr>fs := AList.update ?new i (AList.delete (join base e) (fs w))\<rparr>)"
    using assms(1,5,7) ne nb nd by (simp add: sys_rename_def do_rename_def)
  let ?w = "w\<lparr>fs := AList.update ?new i (AList.delete (join base e) (fs w))\<rparr>"
  have ext: "extends (\<lambda>q. q = join base e) ?w (ensure_legacy_link base e ?k ?w)"
    by (rule ensure_legacy_link_extends) (simp add: assms(1))
  then have "map_of (fs (ensure_legacy_link base e ?k ?w)) ?new = Some i"
    by (rule extends_keeps) simp
  moreover have "layout_entry base e w = (Inr (), ensure_legacy_link base e ?k ?w)"
    using assms(4) len by (simp add: layout_entry_def Let_def ls rn)
  ultimately show ?thesis
    using assms(1,10) extends_other [OF ext] extends_fields [OF ext] by auto
qed

section \<open>Properties\<close>

text \<open>
  C3. Resolving a path never leaves the agent's own directory. Under every schedule of
  failing calls, \<open>agent_path\<close> (with the layout migration and the compatibility links it may
  perform) changes no path outside \<open><root>/agents/<name>/\<close> and keeps the descriptor table;
  and a path it returns is the leaf inside one of the three class directories of an agent
  with a valid name, and fits the caller's buffer.
\<close>

theorem agent_path_confined:
  assumes "agent_path n name leaf w = (r, w')"
  shows "fds w' = fds w \<and>
    (\<forall>q. below (join (agent_root w) name) q \<or> map_of (fs w') q = map_of (fs w) q) \<and>
    (\<forall>p. r = Inr p \<longrightarrow> validate_name name \<and> length p < n \<and>
       p = join (join (join (agent_root w) name) (leaf_class leaf)) leaf)"
proof -
  have f: "frame (below (agent_base name w)) w (fds w) w'"
    using agent_path_frame [of w name n leaf] assms by simp
  then show ?thesis
    using frame_fields [OF f] frame_lookup [OF f] agent_path_result assms by blast
qed

theorem agent_path_confined_witness:
  "\<exists>r w'. agent_path 64 ''a'' ''goal'' (world0\<lparr>sched := [Fail EIO]\<rparr>) = (r, w') \<and> fds w' = []"
proof -
  obtain r w' where "agent_path 64 ''a'' ''goal'' (world0\<lparr>sched := [Fail EIO]\<rparr>) = (r, w')" by fastforce
  with agent_path_confined [OF this] show ?thesis by (auto simp: world0_def)
qed

text \<open>
  C5. A compatibility link that is still dangling when the layout is brought up to date ends
  up inside the class directory, pointing below itself: afterwards \<open>ensure_dir\<close> on the
  canonical path (the first step of creating a task, whose directory is the leaf \<open>tasks\<close>)
  fails although nothing else is wrong.
\<close>

theorem dangling_link_blocks_directory:
  assumes "sched w = []" "CHR ''/'' \<notin> set e" "\<not> layout_skip e"
    and "length base + length e + 9 < MAX_PATHBUF"
    and "map_of (fs w) (join base e) = Some i" "kind i = Lnk (join (leaf_class e) e)"
    and "map_of (fs w) (join (join base (leaf_class e)) e) = None"
    and "miss_err (fs w) (join (join base (leaf_class e)) e) = ENOENT"
    and "dir_at w (join base (leaf_class e))"
    and "map_of (fs w) (join (join base (leaf_class e)) (join (leaf_class e) e)) = None"
    and "layout_entry base e w = (r, w')"
  shows "r = Inr () \<and> isl (fst (ensure_dir (join (join base (leaf_class e)) e) 448 w'))"
proof -
  let ?k = "leaf_class e"
  let ?new = "join (join base ?k) e"
  let ?target = "join (join base ?k) (join ?k e)"
  note m = layout_entry_moves_link [OF assms(1-9) assms(11)]
  have "?target \<noteq> join base e" "?target \<noteq> ?new" using assms(2) by (auto simp: join_def)
  with m assms(10) have t: "map_of (fs w') ?target = None" by simp
  have "dirname ?new = join base ?k" by (rule dirname_join [OF assms(2)])
  moreover have "\<not> starts_with ''/'' (join ?k e)"
    using leaf_class_cases [of e] by (auto simp: starts_with_def join_def)
  ultimately have "follow (fs w') ?new = Inr ?target"
    using m assms(6) t by (simp add: follow_def eval_nat_numeral)
  then show ?thesis
    using m t by (simp add: ensure_dir_def sys_mkdir_def sys_stat_def)
qed

theorem dangling_link_blocks_directory_witness:
  "\<exists>r w'. layout_entry ''/b'' ''tasks'' (world0\<lparr>fs := [(''/b'', \<lparr>kind = Dir, imode = 448, iuid = 0\<rparr>),
      (''/b/data'', \<lparr>kind = Dir, imode = 448, iuid = 0\<rparr>),
      (''/b/tasks'', \<lparr>kind = Lnk ''data/tasks'', imode = 511, iuid = 0\<rparr>)]\<rparr>) = (r, w') \<and>
    isl (fst (ensure_dir ''/b/data/tasks'' 448 w'))"
proof -
  let ?w = "world0\<lparr>fs := [(''/b'', \<lparr>kind = Dir, imode = 448, iuid = 0\<rparr>),
      (''/b/data'', \<lparr>kind = Dir, imode = 448, iuid = 0\<rparr>),
      (''/b/tasks'', \<lparr>kind = Lnk ''data/tasks'', imode = 511, iuid = 0\<rparr>)]\<rparr>"
  obtain r w' where l: "layout_entry ''/b'' ''tasks'' ?w = (r, w')" by fastforce
  have c: "leaf_class ''tasks'' = ''data''" by code_simp
  have "miss_err (fs ?w) ''/b/data/tasks'' = ENOENT" by code_simp
  with dangling_link_blocks_directory [of ?w "''tasks''" "''/b''" "\<lparr>kind = Lnk ''data/tasks'', imode = 511, iuid = 0\<rparr>" r w'] l
  show ?thesis by (simp add: c world0_def layout_skip_def starts_with_def MAX_PATHBUF_def join_def dir_at_def)
qed

end
