(* ===== verification/FileIO.thy ===== *)
theory FileIO
  imports Paths
begin

text \<open>
  File helpers of \<open>src/common.c\<close>: the retrying \<open>read_all\<close> and \<open>write_all\<close>, line and
  whole-file reads, the atomic replacement of a file through a temporary beside it,
  appending, and what is built on them: status and pid files, the audit log, the
  single-line settings, the transport record and the resource limits.

  The loops that retry interrupted or partial transfers are functions by recursion on
  what is left to transfer and on the remaining fault schedule; their termination is
  proved. A read returns the bytes it stored; a caller that treats its buffer as a C
  string sees \<open>cstr\<close> of them.
\<close>

section \<open>Progress of a transfer\<close>

lemma call_sched: "call m w = (r, w') \<Longrightarrow> (\<And>v r v'. m v = (r, v') \<Longrightarrow> sched v' = sched v) \<Longrightarrow>
    length (sched w') \<le> length (sched w) \<and> (sched w \<noteq> [] \<longrightarrow> length (sched w') < length (sched w))"
proof (erule call_cases)
  fix s assume "s = tl (sched w)" "m (w\<lparr>sched := s\<rparr>) = (r, w')"
    "\<And>v r v'. m v = (r, v') \<Longrightarrow> sched v' = sched v"
  then have "sched w' = tl (sched w)" by fastforce
  then show ?thesis by (cases "sched w") auto
qed auto

lemma sys_write_sched: "sys_write fd buf w = (r, w') \<Longrightarrow>
    length (sched w') \<le> length (sched w) \<and> (sched w \<noteq> [] \<longrightarrow> length (sched w') < length (sched w))"
  unfolding sys_write_def
  by (erule call_sched) (auto simp: put_inode_def Let_def split: option.splits desc.splits if_splits node.splits)

lemma sys_read_sched: "sys_read fd n w = (r, w') \<Longrightarrow>
    length (sched w') \<le> length (sched w) \<and> (sched w \<noteq> [] \<longrightarrow> length (sched w') < length (sched w))"
  unfolding sys_read_def
  by (erule call_sched) (auto simp: Let_def split: option.splits desc.splits if_splits node.splits)

lemma sys_write_quiet: "sched w = [] \<Longrightarrow> sys_write fd buf w = (r, w') \<Longrightarrow>
    r \<noteq> Inl EINTR \<and> (\<forall>k. r = Inr k \<longrightarrow> k = length buf)"
  by (auto simp: sys_write_def xfer_limit_def Let_def split: option.splits desc.splits if_splits node.splits)

lemma sys_read_quiet: "sched w = [] \<Longrightarrow> sys_read fd n w = (r, w') \<Longrightarrow> r \<noteq> Inl EINTR"
  by (auto simp: sys_read_def Let_def split: option.splits desc.splits if_splits node.splits)

lemma sys_write_intr: "(Inl EINTR, w') = sys_write fd buf w \<Longrightarrow> length (sched w') < length (sched w)"
  using sys_write_sched [of fd buf w "Inl EINTR" w'] sys_write_quiet [of w fd buf "Inl EINTR" w']
  by (cases "sched w = []") auto

lemma sys_write_some: "(Inr k, w') = sys_write fd buf w \<Longrightarrow> buf \<noteq> [] \<Longrightarrow>
    length buf - k + length (sched w') < length buf + length (sched w)"
  using sys_write_sched [of fd buf w "Inr k" w'] sys_write_quiet [of w fd buf "Inr k" w']
  by (cases "sched w = []") auto

lemma sys_read_intr: "(Inl EINTR, w') = sys_read fd n w \<Longrightarrow> length (sched w') < length (sched w)"
  using sys_read_sched [of fd n w "Inl EINTR" w'] sys_read_quiet [of w fd n "Inl EINTR" w']
  by (cases "sched w = []") auto

lemma sys_read_some: "(Inr bs, w') = sys_read fd n w \<Longrightarrow> bs \<noteq> [] \<Longrightarrow> 0 < n \<Longrightarrow>
    n - length bs + length (sched w') < n + length (sched w)"
proof -
  assume a: "(Inr bs, w') = sys_read fd n w" "bs \<noteq> []" "0 < n"
  then have "n - length bs < n" by (cases bs) auto
  with sys_read_sched [OF a(1) [symmetric]] show ?thesis by linarith
qed

section \<open>Definitions\<close>

function read_all :: "nat \<Rightarrow> nat \<Rightarrow> string io" where
  "read_all fd n w =
     (if n = 0 then (Inr [], w)
      else (case sys_read fd n w of
          (Inl e, w') \<Rightarrow> if e = EINTR then read_all fd n w' else (Inl e, w')
        | (Inr bs, w') \<Rightarrow>
            if bs = [] then (Inr [], w')
            else (case read_all fd (n - length bs) w' of
                (Inl e, w2) \<Rightarrow> (Inl e, w2)
              | (Inr rest, w2) \<Rightarrow> (Inr (bs @ rest), w2))))"
  by pat_completeness auto
termination
  by (relation "measure (\<lambda>(fd, n, w). n + length (sched w))")
    (auto dest: sys_read_intr sys_read_some)

function write_all :: "nat \<Rightarrow> string \<Rightarrow> nat io" where
  "write_all fd buf w =
     (if buf = [] then (Inr 0, w)
      else (case sys_write fd buf w of
          (Inl e, w') \<Rightarrow> if e = EINTR then write_all fd buf w' else (Inl e, w')
        | (Inr k, w') \<Rightarrow>
            (case write_all fd (drop k buf) w' of
                (Inl e, w2) \<Rightarrow> (Inl e, w2)
              | (Inr m, w2) \<Rightarrow> (Inr (k + m), w2))))"
  by pat_completeness auto
termination
  by (relation "measure (\<lambda>(fd, buf, w). length buf + length (sched w))")
    (auto dest: sys_write_intr sys_write_some)

declare read_all.simps [simp del] write_all.simps [simp del]

fun read_line_loop :: "nat \<Rightarrow> nat \<Rightarrow> string io" where
  "read_line_loop fd 0 w = (Inl EMSGSIZE, w)"
| "read_line_loop fd (Suc k) w = (case sys_read fd 1 w of
       (Inl e, w) \<Rightarrow> (Inl e, w)
     | (Inr bs, w) \<Rightarrow> (case bs of
           [] \<Rightarrow> (Inl E0, w)
         | c # _ \<Rightarrow>
             if c = NL then (Inr [], w)
             else (case read_line_loop fd k w of
                 (Inl e, w) \<Rightarrow> (Inl e, w)
               | (Inr l, w) \<Rightarrow> (Inr (c # l), w))))"

definition read_line_fd :: "nat \<Rightarrow> nat \<Rightarrow> string io" where
  "read_line_fd fd n w = (if n = 0 then (Inl EINVAL, w) else read_line_loop fd (n - 1) w)"

definition read_small_file :: "string \<Rightarrow> nat \<Rightarrow> string io" where
  "read_small_file path n w =
     (if n = 0 then (Inl EINVAL, w)
      else (case sys_open path [O_RDONLY, O_CLOEXEC] 0 w of
          (Inl e, w) \<Rightarrow> (Inl e, w)
        | (Inr fd, w) \<Rightarrow> (let (r, w) = read_all fd (n - 1) w in (r, snd (sys_close fd w)))))"

text \<open>Every error path releases the descriptor and removes the temporary.\<close>

definition drop_tmp :: "string \<Rightarrow> errno \<Rightarrow> world \<Rightarrow> (errno + unit) \<times> world" where
  "drop_tmp tmp e w = (Inl e, snd (sys_unlink tmp w))"

definition drop_open_tmp :: "nat \<Rightarrow> string \<Rightarrow> errno \<Rightarrow> world \<Rightarrow> (errno + unit) \<times> world" where
  "drop_open_tmp fd tmp e w = drop_tmp tmp e (snd (sys_close fd w))"

definition prepare_tmp :: "nat \<Rightarrow> nat \<Rightarrow> unit io" where
  "prepare_tmp fd mode w = (case sys_fcntl_fd fd w of
       (Inl e, w) \<Rightarrow> (Inl e, w)
     | (Inr _, w) \<Rightarrow> (case sys_fcntl_fd fd w of
           (Inl e, w) \<Rightarrow> (Inl e, w)
         | (Inr _, w) \<Rightarrow> sys_fchmod fd mode w))"

definition atomic_write_file :: "string \<Rightarrow> string \<Rightarrow> nat \<Rightarrow> unit io" where
  "atomic_write_file path buf mode w =
     (if length (path @ ''.tmp.XXXXXX'') \<ge> MAX_PATHBUF then (Inl ENAMETOOLONG, w)
      else (case sys_mkstemp (path @ ''.tmp.'') w of
          (Inl e, w) \<Rightarrow> (Inl e, w)
        | (Inr (fd, tmp), w) \<Rightarrow> (case prepare_tmp fd mode w of
          (Inl e, w) \<Rightarrow> drop_open_tmp fd tmp e w
        | (Inr _, w) \<Rightarrow> (case write_all fd buf w of
          (Inl e, w) \<Rightarrow> drop_open_tmp fd tmp e w
        | (Inr _, w) \<Rightarrow> (case sys_close fd w of
          (Inl e, w) \<Rightarrow> drop_tmp tmp e w
        | (Inr _, w) \<Rightarrow> (case sys_rename tmp path w of
          (Inl e, w) \<Rightarrow> drop_tmp tmp e w
        | (Inr _, w) \<Rightarrow> (Inr (), w)))))))"

definition append_file :: "string \<Rightarrow> string \<Rightarrow> nat \<Rightarrow> unit io" where
  "append_file path buf mode w =
     (case sys_open path [O_WRONLY, O_CREAT, O_APPEND, O_CLOEXEC] mode w of
        (Inl e, w) \<Rightarrow> (Inl e, w)
      | (Inr fd, w) \<Rightarrow> (case write_all fd buf w of
            (Inl e, w) \<Rightarrow> (Inl e, snd (sys_close fd w))
          | (Inr _, w) \<Rightarrow> sys_close fd w))"

definition with_path :: "string \<Rightarrow> string \<Rightarrow> (string \<Rightarrow> 'a io) \<Rightarrow> 'a io" where
  "with_path name leaf f w = (case agent_path MAX_PATHBUF name leaf w of
       (Inl e, w) \<Rightarrow> (Inl e, w) | (Inr p, w) \<Rightarrow> f p w)"

definition write_status :: "string \<Rightarrow> string \<Rightarrow> unit io" where
  "write_status name status = with_path name ''status'' (\<lambda>path w.
     if length status + 2 > 64 then (Inl EINVAL, w)
     else atomic_write_file path (status @ [NL]) 384 w)"

definition is_ws :: "char \<Rightarrow> bool" where
  "is_ws c \<longleftrightarrow> c = SP \<or> c = TAB \<or> c = CR \<or> c = NL"

definition parse_pid :: "string \<Rightarrow> int option" where
  "parse_pid buf = (let (v, rest, erange) = strtol buf; rest = dropWhile is_ws rest in
     if erange \<or> length rest = length buf \<or> rest \<noteq> [] \<or> v \<le> 0 \<or> v > INT_MAX then None else Some v)"

definition read_pid_file :: "string \<Rightarrow> int io" where
  "read_pid_file name = with_path name ''pid'' (\<lambda>path w.
     case read_small_file path 32 w of
       (Inl e, w) \<Rightarrow> (Inl e, w)
     | (Inr b, w) \<Rightarrow> (case parse_pid (cstr b) of None \<Rightarrow> (Inl EINVAL, w) | Some v \<Rightarrow> (Inr v, w)))"

text \<open>A log line: cut so that it fits the buffer with its newline.\<close>

definition log_line :: "nat \<Rightarrow> string \<Rightarrow> string" where
  "log_line cap text = (if length text \<ge> cap - 1 then take (cap - 2) text else text) @ [NL]"

definition audit_log :: "string \<Rightarrow> string \<Rightarrow> unit io" where
  "audit_log name msg = with_path name ''audit.log'' (\<lambda>path w.
     append_file path (log_line 1024
       (stamp_iso (gmtime_r (now w)) @ '' pid='' @ dec_nat (self_pid w) @ '' '' @ msg)) 384 w)"

fun scan_pids :: "int \<Rightarrow> string list \<Rightarrow> world \<Rightarrow> string option \<times> world" where
  "scan_pids pid [] w = (None, w)"
| "scan_pids pid (e # es) w =
     (if starts_with ''.'' e \<or> \<not> validate_name e then scan_pids pid es w
      else (case read_pid_file e w of
          (Inl _, w) \<Rightarrow> scan_pids pid es w
        | (Inr p, w) \<Rightarrow> if p = pid then (Some e, w) else scan_pids pid es w))"

definition resolve_agent_by_pid :: "int \<Rightarrow> nat \<Rightarrow> string io" where
  "resolve_agent_by_pid pid n w =
     (if pid \<le> 0 \<or> n = 0 then (Inl EINVAL, w)
      else (case sys_opendir (agent_root w) w of
          (Inl e, w) \<Rightarrow> (Inl e, w)
        | (Inr es, w) \<Rightarrow> (case scan_pids pid es w of
              (Some e, w) \<Rightarrow> (Inr (if length e \<ge> n then take (n - 1) e else e), w)
            | (None, w) \<Rightarrow> (Inl E0, w))))"

text \<open>A receiver's capability text: a line \<open>deny recv:<name>\<close> or \<open>deny recv:*\<close>.\<close>

definition deny_recv_line :: "string \<Rightarrow> string \<Rightarrow> bool" where
  "deny_recv_line sender l = (let line = dropWhile is_blank l in
     length line > 9 \<and> starts_with ''deny recv:'' line \<and>
     (let t = rstrip is_blank (drop 10 line) in t = ''*'' \<or> t = sender))"

definition recv_is_denied :: "string \<Rightarrow> string \<Rightarrow> bool" where
  "recv_is_denied caps_text sender_name =
     (if sender_name = [] then False else list_ex (deny_recv_line sender_name) (c_lines (cstr caps_text)))"

datatype transport = TRANSPORT_UDS | TRANSPORT_AGENTFS

record transport_cfg =
  tkind :: transport
  mount :: string

definition transport_name :: "transport \<Rightarrow> string" where
  "transport_name k = (if k = TRANSPORT_AGENTFS then ''agentfs'' else ''uds'')"

definition parse_transport :: "string \<Rightarrow> transport_cfg" where
  "parse_transport b = (let buf = rstrip is_ws b in
     if starts_with ''agentfs'' buf then
       (let p = dropWhile is_blank (drop 7 buf) in
        \<lparr>tkind = TRANSPORT_AGENTFS, mount = (if p \<noteq> [] then p else ''/mnt/agentfs'')\<rparr>)
     else \<lparr>tkind = TRANSPORT_UDS, mount = []\<rparr>)"

definition transport_resolve :: "string \<Rightarrow> transport_cfg io" where
  "transport_resolve agent = with_path agent ''transport'' (\<lambda>path w.
     case read_small_file path 256 w of
       (Inl _, w) \<Rightarrow> (Inr \<lparr>tkind = TRANSPORT_UDS, mount = []\<rparr>, w)
     | (Inr b, w) \<Rightarrow> (Inr (parse_transport (cstr b)), w))"

definition transport_text :: "transport \<Rightarrow> string \<Rightarrow> string" where
  "transport_text k m = (if k = TRANSPORT_AGENTFS
     then ''agentfs '' @ (if m \<noteq> [] then m else ''/mnt/agentfs'') @ [NL] else ''uds'' @ [NL])"

definition transport_write :: "string \<Rightarrow> transport \<Rightarrow> string \<Rightarrow> unit io" where
  "transport_write agent k m = with_path agent ''transport'' (\<lambda>path w.
     if length (transport_text k m) \<ge> 256 then (Inl ENAMETOOLONG, w)
     else atomic_write_file path (transport_text k m) 384 w)"

text \<open>Settings: the first line of a small file, without trailing blanks.\<close>

definition setting_value :: "string \<Rightarrow> string" where
  "setting_value b = rstrip (\<lambda>c. c = SP \<or> c = TAB \<or> c = CR) (takeWhile (\<lambda>c. c \<noteq> NL) (cstr b))"

definition read_agent_setting :: "string \<Rightarrow> string \<Rightarrow> nat \<Rightarrow> string io" where
  "read_agent_setting agent leaf n w0 = (if n = 0 then (Inl EINVAL, w0)
     else with_path agent leaf (\<lambda>path w.
       case read_small_file path 256 w of
         (Inl e, w) \<Rightarrow> (Inl e, w)
       | (Inr b, w) \<Rightarrow> if length (setting_value b) + 1 > n then (Inl ENAMETOOLONG, w)
                       else (Inr (setting_value b), w)) w0)"

definition write_agent_setting :: "string \<Rightarrow> string \<Rightarrow> string \<Rightarrow> unit io" where
  "write_agent_setting agent leaf value = with_path agent leaf (\<lambda>path w.
     if length value + 2 > 512 then (Inl E2BIG, w)
     else atomic_write_file path (value @ [NL]) 384 w)"

text \<open>Signals: \<open>SIGUSR2\<close> sets the artifacts aside, \<open>SIGUSR1\<close> writes a snapshot.\<close>

definition do_reload :: "string \<Rightarrow> unit io" where
  "do_reload name w = (Inr (), snd (audit_log name ''SIGHUP: reload acknowledged'' w))"

definition do_rotate_artifacts :: "(errno \<Rightarrow> string) \<Rightarrow> string \<Rightarrow> unit io" where
  "do_rotate_artifacts strerror name w0 = (case agent_dir name w0 of
       Inl e \<Rightarrow> (Inl e, w0)
     | Inr base \<Rightarrow> with_path name ''artifacts'' (\<lambda>dir w.
         let newdir = join base (''artifacts.'' @ stamp_basic (gmtime_r (now w))) in
         if length newdir \<ge> MAX_PATHBUF then (Inl ENAMETOOLONG, w)
         else (case sys_rename dir newdir w of
             (Inl e, w) \<Rightarrow> (Inl e, snd (audit_log name (''SIGUSR2: rotate failed: '' @ strerror e) w))
           | (Inr _, w) \<Rightarrow> (case sys_mkdir dir 448 w of
                 (Inl e, w) \<Rightarrow> (Inl e, snd (audit_log name
                     (''SIGUSR2: mkdir new artifacts/ failed: '' @ strerror e) w))
               | (Inr _, w) \<Rightarrow> (Inr (), snd (audit_log name
                     (''SIGUSR2: artifacts rotated -> '' @ newdir) w))))) w0)"

definition snapshot_text :: "string \<Rightarrow> nat \<Rightarrow> nat \<Rightarrow> string \<Rightarrow> int \<Rightarrow> int \<Rightarrow> string" where
  "snapshot_text name pid ppid status started t =
     ''agent: '' @ name @ [NL] @ ''pid: '' @ dec_nat pid @ [NL] @ ''ppid: '' @ dec_nat ppid @ [NL] @
     ''status: '' @ status @ [NL] @ ''started_at: '' @ stamp_iso (gmtime_r started) @ [NL] @
     ''uptime_sec: '' @ dec_int (t - started) @ [NL]"

definition snapshot_status :: "string \<Rightarrow> world \<Rightarrow> string \<times> world" where
  "snapshot_status name w = (case with_path name ''status'' (\<lambda>p. read_small_file p 64) w of
       (Inl _, w) \<Rightarrow> (''?'', w)
     | (Inr b, w) \<Rightarrow> (take 63 (takeWhile (\<lambda>c. c \<noteq> NL) (cstr b)), w))"

definition snapshot_state :: "(errno \<Rightarrow> string) \<Rightarrow> int \<Rightarrow> nat \<Rightarrow> string \<Rightarrow> string \<Rightarrow> unit io" where
  "snapshot_state strerror started ppid name extra = with_path name ''outbox/state.snapshot'' (\<lambda>path w.
     let (status, w) = snapshot_status name w;
         head = snapshot_text name (self_pid w) ppid status started (now w)
     in if length head \<ge> 4096 \<or> (extra \<noteq> [] \<and> length head + length extra \<ge> 4096) then (Inl E0, w)
        else (case atomic_write_file path (head @ extra) 384 w of
            (Inr _, w) \<Rightarrow> (Inr (), snd (audit_log name ''SIGUSR1: state snapshot -> outbox/state.snapshot'' w))
          | (Inl e, w) \<Rightarrow> (Inl e, snd (audit_log name (''SIGUSR1: snapshot failed: '' @ strerror e) w))))"

text \<open>Resource limits: the \<open>setrlimit\<close> calls a limits file causes, in order.\<close>

datatype rlimit = RLIMIT_CPU | RLIMIT_AS | RLIMIT_NOFILE | RLIMIT_FSIZE

definition limit_key :: "string \<Rightarrow> rlimit option" where
  "limit_key k = (if k = ''CPU'' then Some RLIMIT_CPU else if k = ''AS'' then Some RLIMIT_AS
     else if k = ''NOFILE'' then Some RLIMIT_NOFILE else if k = ''FSIZE'' then Some RLIMIT_FSIZE else None)"

definition limit_line :: "string \<Rightarrow> (rlimit \<times> int) option" where
  "limit_line l = (let p = dropWhile is_blank l in
     if p = [] \<or> hd p = CHR ''#'' then None
     else (case split_at (CHR ''='') p of
         (_, None) \<Rightarrow> None
       | (key, Some val) \<Rightarrow> (case strtol val of (v, _, erange) \<Rightarrow>
             if \<not> erange \<and> v \<ge> 0 then map_option (\<lambda>k. (k, v)) (limit_key key) else None)))"

definition apply_limits_from_file :: "string \<Rightarrow> world \<Rightarrow> (rlimit \<times> int) list \<times> world" where
  "apply_limits_from_file path w = (case sys_open path [O_RDONLY, O_CLOEXEC] 0 w of
       (Inl _, w) \<Rightarrow> ([], w)
     | (Inr fd, w) \<Rightarrow> (let (r, w) = sys_read fd 1023 w; w = snd (sys_close fd w)
         in (case r of Inl _ \<Rightarrow> [] | Inr b \<Rightarrow> List.map_filter limit_line (c_lines (cstr b)), w)))"

section \<open>Writing through a descriptor\<close>

text \<open>
  \<open>writing w0 fd q fl i c w\<close>: since \<open>w0\<close> the file \<open>q\<close> was opened as \<open>fd\<close> for writing at
  its end, its content is now \<open>c\<close> (and its other attributes those of \<open>i\<close>), and nothing
  else has changed.
\<close>

definition writing :: "world \<Rightarrow> nat \<Rightarrow> string \<Rightarrow> oflag list \<Rightarrow> inode \<Rightarrow> string \<Rightarrow> world \<Rightarrow> bool" where
  "writing w0 fd q fl i c w \<longleftrightarrow>
     (\<exists>off. frame (\<lambda>p. p = q) w0 (AList.update fd (DFile q off fl) (fds w0)) w \<and>
        (O_APPEND \<in> set fl \<or> off = length c)) \<and>
     O_RDONLY \<notin> set fl \<and> map_of (fds w0) fd = None \<and>
     map_of (fs w) q = Some (i\<lparr>kind := Reg c\<rparr>)"

lemma writingI:
  "frame (\<lambda>p. p = q) w0 (AList.update fd (DFile q off fl) (fds w0)) w \<Longrightarrow>
     O_APPEND \<in> set fl \<or> off = length c \<Longrightarrow> O_RDONLY \<notin> set fl \<Longrightarrow> map_of (fds w0) fd = None \<Longrightarrow>
     map_of (fs w) q = Some (i\<lparr>kind := Reg c\<rparr>) \<Longrightarrow> writing w0 fd q fl i c w"
  unfolding writing_def by blast

lemma splice_end [simp]: "splice (length c) b c = c @ b"
  by (simp add: splice_def)

lemma xfer_limit_le: "xfer_limit w n \<le> n"
  by (simp add: xfer_limit_def split: list.splits fault.splits)

lemma sys_write_writing:
  assumes "writing w0 fd q fl i c w" "sys_write fd buf w = (r, w')"
  shows "\<exists>k. k \<le> length buf \<and> writing w0 fd q fl i (c @ take k buf) w' \<and>
     (\<forall>n. r = Inr n \<longrightarrow> n = k) \<and> (\<forall>e. r = Inl e \<longrightarrow> k = 0)"
  using assms(2) unfolding sys_write_def
proof (cases rule: call_cases)
  case (fault e s)
  then show ?thesis
    using assms(1) by (intro exI [of _ 0]) (auto simp: writing_def frame_def)
next
  case (run s)
  obtain off where o: "fds w = AList.update fd (DFile q off fl) (fds w0)"
    "O_APPEND \<in> set fl \<or> off = length c" "map_of (fs w) q = Some (i\<lparr>kind := Reg c\<rparr>)" "O_RDONLY \<notin> set fl"
    using assms(1) by (auto simp: writing_def frame_def)
  define k where "k = xfer_limit w (length buf)"
  then have kl: "k \<le> length buf" by (simp add: xfer_limit_le)
  from run(2) o kl have "r = Inr k"
    "w' = put_inode q (i\<lparr>kind := Reg (c @ take k buf)\<rparr>)
       (w\<lparr>sched := s, fds := AList.update fd (DFile q (length c + k) fl) (fds w0)\<rparr>)"
    by (auto simp: Let_def k_def [symmetric] min_absorb2 split: if_splits)
  moreover note kl
  moreover have "sched w = [] \<Longrightarrow> s = []" using run(1) by simp
  ultimately show ?thesis
    using assms(1)
    by (intro exI [of _ k]) (auto simp: writing_def frame_def put_inode_def min_def)
qed

lemma write_all_writing:
  "writing w0 fd q fl i c w \<Longrightarrow> write_all fd buf w = (r, w') \<Longrightarrow>
     \<exists>k. writing w0 fd q fl i (c @ take k buf) w' \<and> (\<forall>n. r = Inr n \<longrightarrow> n = length buf \<and> take k buf = buf)"
proof (induction fd buf w arbitrary: c r w' rule: write_all.induct)
  case (1 fd buf w)
  show ?case
  proof (cases "buf = []")
    case True
    then show ?thesis using 1 by (auto simp: write_all.simps)
  next
    case False
    obtain x w1 where x: "sys_write fd buf w = (x, w1)" by fastforce
    from sys_write_writing [OF "1.prems"(1) x] obtain k where
      k: "k \<le> length buf" "writing w0 fd q fl i (c @ take k buf) w1"
        "\<forall>n. x = Inr n \<longrightarrow> n = k" "\<forall>e. x = Inl e \<longrightarrow> k = 0" by blast
    show ?thesis
    proof (cases x)
      case (Inl e)
      then have "writing w0 fd q fl i c w1" using k by simp
      then show ?thesis
        using "1.IH"(1) [OF False x [symmetric] Inl] "1.prems"(2) False x Inl
        by (cases "e = EINTR") (auto simp: write_all.simps [of fd buf w] intro: exI [of _ 0])
    next
      case (Inr n)
      then have n: "n = k" using k by simp
      obtain y w2 where y: "write_all fd (drop n buf) w1 = (y, w2)" by fastforce
      from "1.IH"(2) [OF False x [symmetric] Inr k(2) y] obtain j where
        j: "writing w0 fd q fl i ((c @ take k buf) @ take j (drop n buf)) w2"
          "\<forall>m. y = Inr m \<longrightarrow> m = length (drop n buf) \<and> take j (drop n buf) = drop n buf" by blast
      have "take k buf @ take j (drop k buf) = take (k + j) buf" by (simp add: take_add)
      then show ?thesis
        using j "1.prems"(2) False x Inr y n k(1)
        by (intro exI [of _ "k + j"])
          (auto simp: write_all.simps [of fd buf w] split: sum.splits)
    qed
  qed
qed

lemma writing_close:
  assumes "writing w0 fd q fl i c w" "sys_close fd w = (r, w')"
  shows "frame (\<lambda>p. p = q) w0 (fds w0) w' \<and> map_of (fs w') q = Some (i\<lparr>kind := Reg c\<rparr>)"
proof -
  obtain off where o: "fds w = AList.update fd (DFile q off fl) (fds w0)" "map_of (fds w0) fd = None"
    using assms(1) by (auto simp: writing_def frame_def)
  from assms(2) o have "call (Pair (Inr ())) (w\<lparr>fds := fds w0\<rparr>) = (r, w')"
    by (simp add: sys_close_def alist_delete_new)
  then show ?thesis
    by (cases rule: call_cases) (use assms(1) in \<open>auto simp: writing_def frame_def\<close>)
qed

lemma mkstemp_writing:
  assumes "sys_mkstemp p w = (Inr (fd, tmp), w')"
  shows "\<exists>s. tmp = p @ s" and "map_of (fs w) tmp = None"
    and "writing w fd tmp [O_RDWR] \<lparr>kind = Reg [], imode = 384, iuid = euid w\<rparr> [] w'"
proof -
  from assms obtain s where *: "tmp = p @ s" "map_of (fs w) tmp = None"
    "writing w fd tmp [O_RDWR] \<lparr>kind = Reg [], imode = 384, iuid = euid w\<rparr> [] w'"
    unfolding sys_mkstemp_def
  proof (cases rule: call_cases)
    case (run s0)
    let ?d = "dropWhile (\<lambda>s. map_of (fs w) (p @ s) \<noteq> None) (tmps w)"
    from run(2) obtain s r where d: "?d = s # r"
      by (auto simp: Let_def split: list.splits)
    then have "map_of (fs w) (p @ s) = None"
      using hd_dropWhile [of "\<lambda>s. map_of (fs w) (p @ s) \<noteq> None" "tmps w"] by simp
    moreover have "sched w = [] \<Longrightarrow> s0 = []" using run(1) by simp
    ultimately show ?thesis
      using run(2) d fresh_fd [of "fds w"] that [of s]
      by (auto simp: Let_def new_fd_def put_inode_def writing_def frame_def split: if_splits)
  qed simp
  then show "\<exists>s. tmp = p @ s" and "map_of (fs w) tmp = None"
    and "writing w fd tmp [O_RDWR] \<lparr>kind = Reg [], imode = 384, iuid = euid w\<rparr> [] w'" by blast+
qed

lemma mkstemp_fail_frame:
  assumes "sys_mkstemp p w = (Inl e, w')"
  shows "frame (\<lambda>_. False) w (fds w) w' \<and> fs w' = fs w"
  using assms unfolding sys_mkstemp_def
  by (cases rule: call_cases) (auto simp: Let_def new_fd_def frame_def split: list.splits if_splits prod.splits)

lemma prepare_tmp_writing:
  assumes "writing w0 fd q fl i c w" "prepare_tmp fd mode w = (r, w')"
  shows "\<exists>m. writing w0 fd q fl (i\<lparr>imode := m\<rparr>) c w' \<and> (\<forall>u. r = Inr u \<longrightarrow> m = mode)"
proof -
  have keep: "writing w0 fd q fl i c v \<Longrightarrow> writing w0 fd q fl i c (snd (sys_fcntl_fd fd v))" for v
    by (auto simp: writing_def sys_fcntl_fd_def frame_def call_def split: list.splits fault.splits)
  have mode: "\<exists>m. writing w0 fd q fl (i\<lparr>imode := m\<rparr>) c v' \<and> (\<forall>u. s = Inr u \<longrightarrow> m = mode)"
    if "writing w0 fd q fl i c v" "sys_fchmod fd mode v = (s, v')" for v v' and s :: "errno + unit"
    using that(2) unfolding sys_fchmod_def
  proof (cases rule: call_cases)
    case (fault e s)
    then show ?thesis using that(1)
      by (intro exI [of _ "imode i"]) (auto simp: writing_def frame_def)
  next
    case (run s)
    from that(1) obtain off where o: "frame (\<lambda>p. p = q) w0 (AList.update fd (DFile q off fl) (fds w0)) v"
      "O_APPEND \<in> set fl \<or> off = length c" "O_RDONLY \<notin> set fl" "map_of (fds w0) fd = None"
      "map_of (fs v) q = Some (i\<lparr>kind := Reg c\<rparr>)" by (auto simp: writing_def)
    then have "fds v = AList.update fd (DFile q off fl) (fds w0)" using frame_fields by blast
    with run(2) o(5) have "v' = put_inode q (i\<lparr>kind := Reg c, imode := mode\<rparr>) (v\<lparr>sched := s\<rparr>)" by simp
    moreover have "sched v = [] \<Longrightarrow> s = []" using run(1) by simp
    ultimately have "writing w0 fd q fl (i\<lparr>imode := mode\<rparr>) c v'"
      using o by (intro writingI [of _ _ _ off]) (auto intro!: frame_put frame_sched)
    then show ?thesis by blast
  qed
  have same: "writing w0 fd q fl (i\<lparr>imode := imode i\<rparr>) c v \<longleftrightarrow> writing w0 fd q fl i c v" for v
    by simp
  obtain r1 w1 where 1: "sys_fcntl_fd fd w = (r1, w1)" by fastforce
  obtain r2 w2 where 2: "sys_fcntl_fd fd w1 = (r2, w2)" by fastforce
  have w1: "writing w0 fd q fl i c w1" and w2: "writing w0 fd q fl i c w2"
    using keep [OF assms(1)] 1 keep [of w1] 2 by simp_all
  show ?thesis
    using assms(2) 1 2 w1 w2 mode [OF w2] same
    by (auto simp: prepare_tmp_def split: sum.splits intro: exI [of _ "imode i"])
qed

text \<open>
  The files an atomic write may touch are the target and a fresh temporary beside it; the
  target changes only by the final rename.
\<close>

lemma drop_tmp_frame:
  "frame (\<lambda>p. p = tmp) w0 d w \<Longrightarrow> frame (\<lambda>p. p = tmp) w0 d (snd (drop_tmp tmp e w))"
  by (simp add: drop_tmp_def inv_intros)

lemma drop_open_tmp_frame:
  assumes "writing w0 fd tmp fl i c w"
  shows "frame (\<lambda>p. p = tmp) w0 (fds w0) (snd (drop_open_tmp fd tmp e w))"
proof -
  obtain r w' where "sys_close fd w = (r, w')" by fastforce
  with writing_close [OF assms this] show ?thesis
    by (simp add: drop_open_tmp_def drop_tmp_frame)
qed

lemma rename_tmp:
  assumes "frame (\<lambda>p. p = tmp) w0 (fds w0) w" "map_of (fs w) tmp = Some i" "kind i \<noteq> Dir" "tmp \<noteq> path"
    and "sys_rename tmp path w = (r, w')"
  shows "(\<forall>e. r = Inl e \<longrightarrow> frame (\<lambda>p. p = tmp) w0 (fds w0) w') \<and>
     (\<forall>u. r = Inr u \<longrightarrow> frame (\<lambda>p. p = tmp \<or> p = path) w0 (fds w0) w' \<and>
        map_of (fs w') path = Some i \<and> map_of (fs w') tmp = None)"
  using assms(5) unfolding sys_rename_def
proof (cases rule: call_cases)
  case (fault e s)
  then show ?thesis using assms(1) by (auto simp: frame_def)
next
  case (run s)
  moreover have "sched w = [] \<Longrightarrow> s = []" using run(1) by simp
  ultimately show ?thesis
    using assms(1-4)
    by (auto simp: frame_def do_rename_def split: option.splits if_splits)
qed

definition same_ident :: "world \<Rightarrow> world \<Rightarrow> bool" where
  "same_ident w w' \<longleftrightarrow> fds w' = fds w \<and> aroot w' = aroot w \<and> euid w' = euid w \<and>
     self_pid w' = self_pid w \<and> now w' = now w \<and> outside w' = outside w \<and> (sched w = [] \<longrightarrow> sched w' = [])"

lemma frame_same_ident: "frame A w (fds w) w' \<Longrightarrow> same_ident w w'"
  by (simp add: frame_def same_ident_def)

definition tmp_of :: "string \<Rightarrow> string \<Rightarrow> bool" where
  "tmp_of path q \<longleftrightarrow> (\<exists>s. q = path @ ''.tmp.'' @ s)"

text \<open>What a write that failed may leave behind, and what a write that succeeded did.\<close>

definition write_failed :: "string \<Rightarrow> world \<Rightarrow> world \<Rightarrow> bool" where
  "write_failed path w w' \<longleftrightarrow> same_ident w w' \<and>
     (\<forall>q. map_of (fs w') q = map_of (fs w) q \<or> (map_of (fs w) q = None \<and> tmp_of path q))"

definition write_done :: "string \<Rightarrow> string \<Rightarrow> nat \<Rightarrow> world \<Rightarrow> world \<Rightarrow> bool" where
  "write_done path buf mode w w' \<longleftrightarrow> same_ident w w' \<and>
     map_of (fs w') = (map_of (fs w))(path \<mapsto> \<lparr>kind = Reg buf, imode = mode, iuid = euid w\<rparr>)"

lemma write_failedI:
  "frame (\<lambda>p. p = tmp) w (fds w) w' \<Longrightarrow> map_of (fs w) tmp = None \<Longrightarrow> tmp_of path tmp \<Longrightarrow>
     write_failed path w w'"
proof -
  assume f: "frame (\<lambda>p. p = tmp) w (fds w) w'" and t: "map_of (fs w) tmp = None" "tmp_of path tmp"
  have "map_of (fs w') q = map_of (fs w) q \<or> map_of (fs w) q = None \<and> tmp_of path q" for q
    using frame_lookup [OF f, of q] t by (cases "q = tmp") auto
  then show ?thesis using frame_same_ident [OF f] by (simp add: write_failed_def)
qed

lemma atomic_write_spec:
  assumes "atomic_write_file path buf mode w = (r, w')"
  shows "(case r of Inl _ \<Rightarrow> write_failed path w w' | Inr _ \<Rightarrow> write_done path buf mode w w')"
proof (cases "MAX_PATHBUF \<le> length (path @ ''.tmp.XXXXXX'')")
  case True
  then show ?thesis using assms frame_same_ident [OF frame_refl, of w]
    by (auto simp: atomic_write_file_def write_failed_def)
next
  case short: False
  obtain x w1 where 1: "sys_mkstemp (path @ ''.tmp.'') w = (x, w1)" by fastforce
  show ?thesis
  proof (cases x)
    case (Inl e)
    then show ?thesis
      using assms short 1 mkstemp_fail_frame [OF 1 [unfolded Inl]]
      by (auto simp: atomic_write_file_def write_failed_def intro: frame_same_ident)
  next
    case (Inr y)
    obtain fd tmp where y: "y = (fd, tmp)" by fastforce
    note mk = mkstemp_writing [OF 1 [unfolded Inr y]]
    then have tmp: "tmp_of path tmp" "tmp \<noteq> path" "map_of (fs w) tmp = None"
      by (auto simp: tmp_of_def)
    note fail = write_failedI [OF _ tmp(3,1)]
    obtain x2 w2 where 2: "prepare_tmp fd mode w1 = (x2, w2)" by fastforce
    from prepare_tmp_writing [OF mk(3) 2] obtain m where
      w2: "writing w fd tmp [O_RDWR] \<lparr>kind = Reg [], imode = m, iuid = euid w\<rparr> [] w2"
        "\<forall>u. x2 = Inr u \<longrightarrow> m = mode" by auto
    obtain x3 w3 where 3: "write_all fd buf w2 = (x3, w3)" by fastforce
    from write_all_writing [OF w2(1) 3] obtain k where
      w3: "writing w fd tmp [O_RDWR] \<lparr>kind = Reg [], imode = m, iuid = euid w\<rparr> (take k buf) w3"
        "\<forall>n. x3 = Inr n \<longrightarrow> take k buf = buf" by auto
    obtain x4 w4 where 4: "sys_close fd w3 = (x4, w4)" by fastforce
    note w4 = writing_close [OF w3(1) 4]
    obtain x5 w5 where 5: "sys_rename tmp path w4 = (x5, w5)" by fastforce
    have w5: "(\<forall>e. x5 = Inl e \<longrightarrow> frame (\<lambda>p. p = tmp) w (fds w) w5) \<and>
       (\<forall>u. x5 = Inr u \<longrightarrow> frame (\<lambda>p. p = tmp \<or> p = path) w (fds w) w5 \<and>
          map_of (fs w5) path = Some (\<lparr>kind = Reg (take k buf), imode = m, iuid = euid w\<rparr>) \<and>
          map_of (fs w5) tmp = None)"
      by (rule rename_tmp [OF _ _ _ tmp(2) 5]) (use w4 in simp_all)
    have good: "write_done path buf mode w w5" if "x2 = Inr u" "x3 = Inr n" "x5 = Inr v" for u n v
    proof -
      have f: "frame (\<lambda>p. p = tmp \<or> p = path) w (fds w) w5" using w5 that by blast
      have "map_of (fs w5) q = map_of (fs w) q" if "q \<noteq> path" for q
        using frame_lookup [OF f, of q] that w5 \<open>x5 = Inr v\<close> tmp(3) by (cases "q = tmp") auto
      then show ?thesis
        using that w2(2) w3(2) w5 frame_same_ident [OF f] by (auto simp: write_done_def fun_eq_iff)
    qed
    have "snd (drop_open_tmp fd tmp e w2) = w' \<Longrightarrow> write_failed path w w'" for e
      using fail [OF drop_open_tmp_frame [OF w2(1)]] by blast
    moreover have "snd (drop_open_tmp fd tmp e w3) = w' \<Longrightarrow> write_failed path w w'" for e
      using fail [OF drop_open_tmp_frame [OF w3(1)]] by blast
    moreover have "snd (drop_tmp tmp e w4) = w' \<Longrightarrow> write_failed path w w'" for e
      using fail [OF drop_tmp_frame] w4 by blast
    moreover have "x5 = Inl e' \<Longrightarrow> snd (drop_tmp tmp e w5) = w' \<Longrightarrow> write_failed path w w'" for e e'
      using fail [OF drop_tmp_frame] w5 by blast
    ultimately show ?thesis
      using assms short 1 Inr y 2 3 4 5 good
      by (cases x2; cases x3; cases x4; cases x5) (auto simp: atomic_write_file_def drop_open_tmp_def drop_tmp_def)
  qed
qed

section \<open>File contents\<close>

definition contents :: "world \<Rightarrow> string \<Rightarrow> string option" where
  "contents w p = (case map_of (fs w) p of
     Some i \<Rightarrow> (case kind i of Reg c \<Rightarrow> Some c | _ \<Rightarrow> None) | None \<Rightarrow> None)"

lemma contents_Some: "contents w p = Some c \<longleftrightarrow> (\<exists>i. map_of (fs w) p = Some i \<and> kind i = Reg c)"
  by (auto simp: contents_def split: option.splits node.splits)

lemma contents_cong: "map_of (fs w) p = map_of (fs w') p \<Longrightarrow> contents w p = contents w' p"
  by (simp add: contents_def)

lemma write_done_contents: "write_done path buf mode w w' \<Longrightarrow>
    contents w' q = (if q = path then Some buf else contents w q)"
  by (simp add: write_done_def contents_def)

lemma follow_contents: "contents w p = Some c \<Longrightarrow> follow (fs w) p = Inr p"
  by (auto simp: contents_Some intro: follow_nolink)

subsection \<open>Appending\<close>

lemma open_append_writing:
  assumes "sys_open path fl mode w = (Inr fd, w')"
    and "O_APPEND \<in> set fl" "O_RDONLY \<notin> set fl" "O_TRUNC \<notin> set fl"
    and "follow (fs w) path = Inr q" "contents w q = Some c \<or> map_of (fs w) q = None \<and> c = []"
  shows "\<exists>i. writing w fd q fl i c w'"
  using assms(1) unfolding sys_open_def
proof (cases rule: call_cases)
  case (run s)
  have s: "frame (\<lambda>p. p = q) w (fds w) (w\<lparr>sched := s\<rparr>)"
    using run(1) by (intro frame_sched frame_refl) simp
  show ?thesis
  proof (cases "map_of (fs w) q")
    case None
    then have "c = []" using assms(6) by (auto simp: contents_def)
    let ?i = "\<lparr>kind = Reg [], imode = mode, iuid = euid w\<rparr>"
    from None run(2) assms(5) have
      "w' = snd (new_fd (DFile q 0 fl) (put_inode q ?i (w\<lparr>sched := s\<rparr>)))" "fd = fresh_fd (fds w)"
      by (auto simp: new_fd_def Let_def split: if_splits)
    then have "writing w fd q fl ?i c w'"
      using assms(2,3) fresh_fd [of "fds w"] s \<open>c = []\<close>
      by (intro writingI [of _ _ _ 0]) (auto simp: new_fd_def frame_def)
    then show ?thesis by blast
  next
    case (Some i)
    then have i: "kind i = Reg c" using assms(6) by (auto simp: contents_Some)
    with Some run(2) assms(4,5) have "w' = snd (new_fd (DFile q 0 fl) (w\<lparr>sched := s\<rparr>))" "fd = fresh_fd (fds w)"
      by (auto simp: new_fd_def Let_def)
    then have "writing w fd q fl i c w'"
      using assms(2,3) fresh_fd [of "fds w"] s Some i
      by (intro writingI [of _ _ _ 0]) (auto simp: new_fd_def frame_def)
    then show ?thesis by blast
  qed
qed simp

lemma open_fail_frame:
  assumes "sys_open path fl mode w = (Inl e, w')"
  shows "frame (\<lambda>_. False) w (fds w) w' \<and> fs w' = fs w"
  using assms unfolding sys_open_def
  by (cases rule: call_cases)
    (auto simp: Let_def new_fd_def frame_def split: sum.splits option.splits node.splits if_splits)

text \<open>
  An append that succeeds adds exactly its bytes; one that fails adds a prefix of them, or
  creates the file, or changes nothing.
\<close>

lemma append_file_spec:
  assumes "append_file path buf mode w = (r, w')"
    and "follow (fs w) path = Inr q" "contents w q = Some c \<or> map_of (fs w) q = None \<and> c = []"
  shows "frame (\<lambda>p. p = q) w (fds w) w' \<and>
     (case r of Inr _ \<Rightarrow> contents w' q = Some (c @ buf)
      | Inl _ \<Rightarrow> map_of (fs w') q = map_of (fs w) q \<or> (\<exists>k. contents w' q = Some (c @ take k buf)))"
proof -
  let ?fl = "[O_WRONLY, O_CREAT, O_APPEND, O_CLOEXEC]"
  obtain x w1 where 1: "sys_open path ?fl mode w = (x, w1)" by fastforce
  show ?thesis
  proof (cases x)
    case (Inl e)
    then show ?thesis
      using assms(1) 1 open_fail_frame [OF 1 [unfolded Inl]]
      by (auto simp: append_file_def intro: frame_mono)
  next
    case (Inr fd)
    obtain i where w1: "writing w fd q ?fl i c w1"
      using open_append_writing [OF 1 [unfolded Inr] _ _ _ assms(2,3)] by auto
    obtain x2 w2 where 2: "write_all fd buf w1 = (x2, w2)" by fastforce
    from write_all_writing [OF w1 2] obtain k where
      w2: "writing w fd q ?fl i (c @ take k buf) w2" "\<forall>n. x2 = Inr n \<longrightarrow> take k buf = buf" by blast
    obtain x3 w3 where 3: "sys_close fd w2 = (x3, w3)" by fastforce
    have "contents w3 q = Some (c @ take k buf)" "frame (\<lambda>p. p = q) w (fds w) w3"
      using writing_close [OF w2(1) 3] by (auto simp: contents_Some)
    then show ?thesis
      using assms(1) 1 Inr 2 3 w2(2)
      by (cases x2) (auto simp: append_file_def split: sum.splits intro: exI [of _ k])
  qed
qed

subsection \<open>Reading under faults\<close>

text \<open>Since \<open>w0\<close> a file was opened for reading as \<open>fd\<close>, and nothing else has changed.\<close>

definition reading :: "world \<Rightarrow> nat \<Rightarrow> world \<Rightarrow> bool" where
  "reading w0 fd w \<longleftrightarrow> map_of (fds w0) fd = None \<and>
     (\<exists>q off fl. frame (\<lambda>_. False) w0 (AList.update fd (DFile q off fl) (fds w0)) w)"

lemma readingI: "map_of (fds w0) fd = None \<Longrightarrow>
    frame (\<lambda>_. False) w0 (AList.update fd (DFile q off fl) (fds w0)) w \<Longrightarrow> reading w0 fd w"
  unfolding reading_def by blast

lemma open_reading:
  assumes "sys_open path [O_RDONLY, O_CLOEXEC] m w = (Inr fd, w')"
  shows "reading w fd w'"
  using assms unfolding sys_open_def
proof (cases rule: call_cases)
  case (run s)
  have "frame (\<lambda>_. False) w (fds w) (w\<lparr>sched := s\<rparr>)"
    using run(1) by (intro frame_sched frame_refl) simp
  with run(2) fresh_fd [of "fds w"] show ?thesis
    by (auto simp: Let_def new_fd_def split: sum.splits option.splits node.splits if_splits
        intro!: readingI frame_fds)
qed simp

lemma sys_read_reading:
  assumes "reading w0 fd w" "sys_read fd n w = (r, w')"
  shows "reading w0 fd w'"
proof -
  from assms(1) obtain q off fl where f: "frame (\<lambda>_. False) w0 (AList.update fd (DFile q off fl) (fds w0)) w"
    and n: "map_of (fds w0) fd = None" by (auto simp: reading_def)
  then have d: "fds w = AList.update fd (DFile q off fl) (fds w0)" using frame_fields by blast
  show ?thesis
    using assms(2) unfolding sys_read_def
  proof (cases rule: call_cases)
    case (fault e s)
    then show ?thesis using f n by (auto intro!: readingI frame_sched)
  next
    case (run s)
    have f': "frame (\<lambda>_. False) w0 (AList.update fd (DFile q off fl) (fds w0)) (w\<lparr>sched := s\<rparr>)"
      using run(1) f by (intro frame_sched) auto
    from run(2) d f' n show ?thesis
      by (auto simp: Let_def split: option.splits node.splits intro!: readingI frame_fds frame_rnd)
  qed
qed

lemma reading_close:
  assumes "reading w0 fd w"
  shows "frame (\<lambda>_. False) w0 (fds w0) (snd (sys_close fd w))"
proof -
  from assms obtain q off fl where f: "frame (\<lambda>_. False) w0 (AList.update fd (DFile q off fl) (fds w0)) w"
    and n: "map_of (fds w0) fd = None" by (auto simp: reading_def)
  then have d: "fds w = AList.update fd (DFile q off fl) (fds w0)" using frame_fields by blast
  have "frame (\<lambda>_. False) w0 (fds w0) (w\<lparr>fds := fds w0\<rparr>)" using f by (rule frame_fds)
  then show ?thesis
    by (simp add: sys_close_def d n alist_delete_new frame_call)
qed

lemma read_all_reading: "reading w0 fd w \<Longrightarrow> reading w0 fd (snd (read_all fd n w))"
proof (induction fd n w rule: read_all.induct)
  case (1 fd n w)
  obtain r w1 where r: "sys_read fd n w = (r, w1)" by fastforce
  have w1: "reading w0 fd w1" by (rule sys_read_reading [OF "1.prems" r])
  show ?case
  proof (cases r)
    case (Inl e)
    then show ?thesis
      using "1.IH"(1) [OF _ r [symmetric] Inl _ w1] "1.prems" r w1
      by (simp add: read_all.simps [of fd n w])
  next
    case (Inr bs)
    then show ?thesis
      using "1.IH"(2) [OF _ r [symmetric] Inr _ w1] "1.prems" r w1
      by (auto simp: read_all.simps [of fd n w] split: prod.splits sum.splits)
  qed
qed

lemma frame_read_small_file [inv_intros]:
  assumes "frame A w0 d w"
  shows "frame A w0 d (snd (read_small_file path n w))"
proof -
  have "frame (\<lambda>_. False) w (fds w) (snd (read_small_file path n w))"
  proof (cases "sys_open path [O_RDONLY, O_CLOEXEC] 0 w")
    case (Pair r w1)
    show ?thesis
    proof (cases r)
      case (Inl e)
      with Pair show ?thesis using open_fail_frame [of path _ 0 w e w1] frame_refl
        by (auto simp: read_small_file_def)
    next
      case (Inr fd)
      with Pair have "reading w fd (snd (read_all fd (n - 1) w1))"
        by (intro read_all_reading open_reading) simp
      from reading_close [OF this] Pair Inr frame_refl show ?thesis
        by (auto simp: read_small_file_def split: prod.splits)
    qed
  qed
  with assms show ?thesis by (auto simp: frame_def)
qed

subsection \<open>Reading without faults\<close>

lemma sys_read_reg:
  assumes "sched w = []" "map_of (fds w) fd = Some (DFile q off fl)" "contents w q = Some c" "0 < n"
  shows "sys_read fd n w = (Inr (take n (drop off c)),
     w\<lparr>fds := AList.update fd (DFile q (off + length (take n (drop off c))) fl) (fds w)\<rparr>)"
  using assms
  by (auto simp: sys_read_def contents_Some xfer_limit_def Let_def max_def min_def)

lemma read_all_reg:
  "sched w = [] \<Longrightarrow> map_of (fds w) fd = Some (DFile q off fl) \<Longrightarrow> contents w q = Some c \<Longrightarrow>
     \<exists>off'. read_all fd n w = (Inr (take n (drop off c)),
       w\<lparr>fds := AList.update fd (DFile q off' fl) (fds w)\<rparr>)"
proof (induction fd n w arbitrary: off rule: read_all.induct)
  case (1 fd n w)
  show ?case
  proof (cases "n = 0 \<or> drop off c = []")
    case True
    have same: "w\<lparr>fds := AList.update fd (DFile q off fl) (fds w)\<rparr> = w"
      using "1.prems"(2) by (cases w) (simp add: AList.update_triv)
    show ?thesis
    proof (cases "n = 0")
      case True
      then show ?thesis using same by (intro exI [of _ off]) (simp add: read_all.simps)
    next
      case False
      with True sys_read_reg [OF "1.prems", of n] same show ?thesis
        by (intro exI [of _ off]) (simp add: read_all.simps [of fd n w])
    qed
  next
    case False
    let ?b = "take n (drop off c)"
    let ?w = "w\<lparr>fds := AList.update fd (DFile q (off + length ?b) fl) (fds w)\<rparr>"
    have r: "sys_read fd n w = (Inr ?b, ?w)" using sys_read_reg [OF "1.prems"] False by simp
    have b: "?b \<noteq> []" using False by simp
    have "contents ?w q = Some c" using "1.prems"(3) by (simp add: contents_def)
    with "1.IH"(2) [OF _ r [symmetric] refl b, of "off + length ?b"] "1.prems" False obtain off' where
      "read_all fd (n - length ?b) ?w = (Inr (take (n - length ?b) (drop (off + length ?b) c)),
         ?w\<lparr>fds := AList.update fd (DFile q off' fl) (fds ?w)\<rparr>)" by auto
    moreover have "take (n - length ?b) (drop (off + length ?b) c) = []" by auto
    ultimately show ?thesis
      using r b False by (intro exI [of _ off']) (simp add: read_all.simps [of fd n w])
  qed
qed

lemma read_small_file_reg:
  assumes "sched w = []" "follow (fs w) path = Inr q" "contents w q = Some c" "0 < n"
  shows "read_small_file path n w = (Inr (take (n - 1) c), w)"
proof -
  let ?fl = "[O_RDONLY, O_CLOEXEC]"
  let ?w = "w\<lparr>fds := AList.update (fresh_fd (fds w)) (DFile q 0 ?fl) (fds w)\<rparr>"
  have o: "sys_open path ?fl 0 w = (Inr (fresh_fd (fds w)), ?w)"
    using assms by (auto simp: sys_open_def contents_Some new_fd_def)
  have "contents ?w q = Some c" using assms(3) by (simp add: contents_def)
  then obtain off where "read_all (fresh_fd (fds w)) (n - 1) ?w = (Inr (take (n - 1) c),
      ?w\<lparr>fds := AList.update (fresh_fd (fds w)) (DFile q off ?fl) (fds ?w)\<rparr>)"
    using read_all_reg [of ?w "fresh_fd (fds w)" q 0 ?fl c "n - 1"] assms(1) by auto
  then show ?thesis
    using assms(1,4) o fresh_fd [of "fds w"]
    by (simp add: read_small_file_def sys_close_def alist_delete_new)
qed

lemma read_small_file_missing:
  "sched w = [] \<Longrightarrow> follow (fs w) path = Inr q \<Longrightarrow> map_of (fs w) q = None \<Longrightarrow> 0 < n \<Longrightarrow>
     read_small_file path n w = (Inl (miss_err (fs w) q), w)"
  by (simp add: read_small_file_def sys_open_def)

section \<open>Settings\<close>

definition setting_path :: "string \<times> string \<Rightarrow> world \<Rightarrow> string" where
  "setting_path k w = join (join (agent_base (fst k) w) (leaf_class (snd k))) (snd k)"

text \<open>
  A setting is in order when its agent has its layout, the leaf is a plain name, the path
  fits its buffer and no symbolic link stands in its place.
\<close>

definition setting_ready :: "string \<times> string \<Rightarrow> world \<Rightarrow> bool" where
  "setting_ready k w \<longleftrightarrow> has_layout (fst k) w \<and> CHR ''/'' \<notin> set (snd k) \<and> snd k \<noteq> [] \<and>
     length (setting_path k w) < MAX_PATHBUF \<and>
     (case map_of (fs w) (setting_path k w) of None \<Rightarrow> True | Some i \<Rightarrow> (case kind i of Reg _ \<Rightarrow> True | _ \<Rightarrow> False))"

definition setting_value_ok :: "string \<Rightarrow> bool" where
  "setting_value_ok v \<longleftrightarrow> length v \<le> 254 \<and> NUL \<notin> set v \<and> NL \<notin> set v \<and>
     (v = [] \<or> last v \<noteq> SP \<and> last v \<noteq> TAB \<and> last v \<noteq> CR)"

definition put_setting :: "string \<times> string \<Rightarrow> string \<Rightarrow> unit io" where
  "put_setting k v = write_agent_setting (fst k) (snd k) v"

definition get_setting :: "string \<times> string \<Rightarrow> world \<Rightarrow> string option \<times> world" where
  "get_setting k w = (case read_agent_setting (fst k) (snd k) 256 w of
     (Inl _, w) \<Rightarrow> (None, w) | (Inr v, w) \<Rightarrow> (Some v, w))"

lemma setting_value_line: "setting_value_ok v \<Longrightarrow> setting_value (take 255 (v @ [NL])) = v"
proof -
  assume v: "setting_value_ok v"
  then have "take 255 (v @ [NL]) = v @ [NL]" by (intro take_all) (simp add: setting_value_ok_def)
  moreover have "cstr (v @ [NL]) = v @ [NL]" using v by (intro cstr_id) (auto simp: setting_value_ok_def)
  moreover have "takeWhile (\<lambda>c. c \<noteq> NL) (v @ [NL]) = v"
    using v by (intro takeWhile_stop) (auto simp: setting_value_ok_def)
  ultimately show ?thesis
    using v by (auto simp: setting_value_def setting_value_ok_def intro: rstrip_id)
qed

lemma setting_path_inj:
  assumes "validate_name (fst k)" "validate_name (fst k')"
  shows "setting_path k w = setting_path k' w \<longleftrightarrow> k = k'"
  using split_first_slash [of "fst k" "fst k'"] split_first_slash [of "leaf_class (snd k)" "leaf_class (snd k')"]
    agent_name.valid_no_slash [OF assms(1)] agent_name.valid_no_slash [OF assms(2)]
  by (cases k; cases k') (auto simp: setting_path_def join_join)

lemma setting_path_not_link:
  assumes "validate_name (fst k)" "validate_name n" "CHR ''/'' \<notin> set l"
  shows "setting_path k w \<noteq> join (agent_base n w) l"
  using split_first_slash [of "fst k" n] agent_name.valid_no_slash [OF assms(1)]
    agent_name.valid_no_slash [OF assms(2)] assms(3)
  by (auto simp: setting_path_def join_join)

lemma setting_path_not_dir:
  assumes "validate_name (fst k)" "validate_name n" "CHR ''/'' \<notin> set sub"
  shows "setting_path k w \<noteq> agent_base n w \<and> setting_path k w \<noteq> join (agent_base n w) sub"
  using setting_path_not_link [OF assms] agent_name.valid_no_slash [OF assms(2)]
  by (auto simp: setting_path_def join_join)

text \<open>The path of a setting, resolved: at most the compatibility link appears.\<close>

lemma setting_path_ready:
  assumes "setting_ready k w"
  obtains w' where "agent_path MAX_PATHBUF (fst k) (snd k) w = (Inr (setting_path k w), w')"
    and "extends (\<lambda>q. q = join (agent_base (fst k) w) (snd k)) w w'"
    and "\<And>k'. setting_ready k' w \<Longrightarrow> setting_ready k' w' \<and> setting_path k' w' = setting_path k' w \<and>
           map_of (fs w') (setting_path k' w) = map_of (fs w) (setting_path k' w)"
proof -
  have lay: "has_layout (fst k) w" "length (setting_path k w) < MAX_PATHBUF" "CHR ''/'' \<notin> set (snd k)"
    "validate_name (fst k)"
    using assms by (auto simp: setting_ready_def has_layout_def)
  obtain w' where p: "agent_path MAX_PATHBUF (fst k) (snd k) w = (Inr (setting_path k w), w')"
    and e: "extends (\<lambda>q. q = join (agent_base (fst k) w) (snd k)) w w'"
    using agent_path_ready [OF lay(1), of "snd k" MAX_PATHBUF] lay(2) by (auto simp: setting_path_def)
  have root: "agent_root w' = agent_root w" using extends_fields [OF e] by (simp add: agent_root_def)
  have "setting_ready k' w' \<and> setting_path k' w' = setting_path k' w \<and>
      map_of (fs w') (setting_path k' w) = map_of (fs w) (setting_path k' w)" if r: "setting_ready k' w" for k'
  proof -
    have "validate_name (fst k')" using r by (simp add: setting_ready_def has_layout_def)
    then have "setting_path k' w \<noteq> join (agent_base (fst k) w) (snd k)"
      by (rule setting_path_not_link [OF _ lay(4,3)])
    with extends_other [OF e] extends_layout [OF e] r root show ?thesis
      by (simp add: setting_ready_def setting_path_def)
  qed
  with p e show ?thesis by (rule that)
qed

lemma get_setting_eq:
  assumes "setting_ready k w"
  shows "fst (get_setting k w) = (case contents w (setting_path k w) of
      Some c \<Rightarrow> Some (setting_value (take 255 c)) | None \<Rightarrow> None)"
    and "\<And>k'. setting_ready k' w \<Longrightarrow> setting_ready k' (snd (get_setting k w)) \<and>
      setting_path k' (snd (get_setting k w)) = setting_path k' w \<and>
      contents (snd (get_setting k w)) (setting_path k' w) = contents w (setting_path k' w)"
proof -
  obtain w' where p: "agent_path MAX_PATHBUF (fst k) (snd k) w = (Inr (setting_path k w), w')"
    and e: "extends (\<lambda>q. q = join (agent_base (fst k) w) (snd k)) w w'"
    and keep: "\<And>k'. setting_ready k' w \<Longrightarrow> setting_ready k' w' \<and> setting_path k' w' = setting_path k' w \<and>
           map_of (fs w') (setting_path k' w) = map_of (fs w) (setting_path k' w)"
    by (rule setting_path_ready [OF assms]) blast
  have q: "sched w' = []" using assms extends_fields [OF e] by (auto simp: setting_ready_def has_layout_def)
  have same: "contents w' (setting_path k w) = contents w (setting_path k w)"
    using keep [OF assms] by (intro contents_cong) simp
  have lv: "length (setting_value (take 255 c)) \<le> 255" for c
    unfolding setting_value_def
    by (rule order_trans [OF length_rstrip_le])
      (rule order_trans [OF length_takeWhile_le], rule order_trans [OF length_cstr_le], simp)
  have get: "get_setting k w = ((case contents w (setting_path k w) of
      Some c \<Rightarrow> Some (setting_value (take 255 c)) | None \<Rightarrow> None), w')"
  proof (cases "contents w (setting_path k w)")
    case None
    then have "map_of (fs w') (setting_path k w) = None"
      using assms keep [OF assms] by (auto simp: setting_ready_def contents_def split: option.splits node.splits)
    with read_small_file_missing [OF q follow_None] show ?thesis
      using None p by (simp add: get_setting_def read_agent_setting_def with_path_def)
  next
    case (Some c)
    with same have c: "contents w' (setting_path k w) = Some c" by simp
    show ?thesis
      using Some p lv [of c] read_small_file_reg [OF q follow_contents [OF c] c]
      by (simp add: get_setting_def read_agent_setting_def with_path_def)
  qed
  then show "fst (get_setting k w) = (case contents w (setting_path k w) of
      Some c \<Rightarrow> Some (setting_value (take 255 c)) | None \<Rightarrow> None)" by simp
  show "\<And>k'. setting_ready k' w \<Longrightarrow> setting_ready k' (snd (get_setting k w)) \<and>
      setting_path k' (snd (get_setting k w)) = setting_path k' w \<and>
      contents (snd (get_setting k w)) (setting_path k' w) = contents w (setting_path k' w)"
    using keep get by (auto intro: contents_cong)
qed

lemma put_setting_done:
  assumes "setting_ready k w" "put_setting k v w = (Inr u, w')"
  shows "contents w' (setting_path k w) = Some (v @ [NL])"
    and "\<And>k'. setting_ready k' w \<Longrightarrow> setting_ready k' w' \<and> setting_path k' w' = setting_path k' w \<and>
      (k' \<noteq> k \<longrightarrow> contents w' (setting_path k' w) = contents w (setting_path k' w))"
proof -
  obtain w1 where p: "agent_path MAX_PATHBUF (fst k) (snd k) w = (Inr (setting_path k w), w1)"
    and e: "extends (\<lambda>q. q = join (agent_base (fst k) w) (snd k)) w w1"
    and keep: "\<And>k'. setting_ready k' w \<Longrightarrow> setting_ready k' w1 \<and> setting_path k' w1 = setting_path k' w \<and>
           map_of (fs w1) (setting_path k' w) = map_of (fs w) (setting_path k' w)"
    by (rule setting_path_ready [OF assms(1)]) blast
  have "atomic_write_file (setting_path k w) (v @ [NL]) 384 w1 = (Inr u, w')"
    using assms(2) p by (auto simp: put_setting_def write_agent_setting_def with_path_def split: if_splits)
  from atomic_write_spec [OF this] have d: "write_done (setting_path k w) (v @ [NL]) 384 w1 w'" by simp
  show "contents w' (setting_path k w) = Some (v @ [NL])"
    using write_done_contents [OF d] by simp
  have vn: "validate_name (fst k)" using assms(1) by (simp add: setting_ready_def has_layout_def)
  have id: "same_ident w1 w'" using d by (simp add: write_done_def)
  then have root: "agent_root w' = agent_root w1" by (simp add: same_ident_def agent_root_def)
  fix k' assume r: "setting_ready k' w"
  then have r1: "setting_ready k' w1" and sp: "setting_path k' w1 = setting_path k' w"
    and same: "map_of (fs w1) (setting_path k' w) = map_of (fs w) (setting_path k' w)" using keep by blast+
  have vn': "validate_name (fst k')" using r by (simp add: setting_ready_def has_layout_def)
  have root1: "agent_root w1 = agent_root w" using extends_fields [OF e] by (simp add: agent_root_def)
  have nd: "setting_path k w \<noteq> agent_base (fst k') w \<and> setting_path k w \<noteq> join (agent_base (fst k') w) sub"
    if "CHR ''/'' \<notin> set sub" for sub
    by (rule setting_path_not_dir [OF vn vn' that])
  have lay: "has_layout (fst k') w'"
    using r1 d id nd [of "''config''"] nd [of "''runtime''"] nd [of "''data''"] root root1
    by (auto simp: setting_ready_def has_layout_def dir_at_iff write_done_def same_ident_def)
  have "setting_path k' w' = setting_path k' w"
    using sp root by (simp add: setting_path_def)
  moreover have "contents w' (setting_path k' w) = contents w (setting_path k' w)" if "k' \<noteq> k"
  proof -
    have "setting_path k' w \<noteq> setting_path k w" using setting_path_inj [OF vn' vn] that by blast
    then show ?thesis using write_done_contents [OF d] same by (simp add: contents_def)
  qed
  moreover have "setting_ready k' w'"
    using lay r1 calculation(1) sp d
    by (auto simp: setting_ready_def write_done_def)
  ultimately show "setting_ready k' w' \<and> setting_path k' w' = setting_path k' w \<and>
      (k' \<noteq> k \<longrightarrow> contents w' (setting_path k' w) = contents w (setting_path k' w))" by blast
qed

interpretation settings: value_store put_setting get_setting setting_ready setting_value_ok
proof
  fix k k' s s' v and u :: unit
  assume k: "setting_ready k s"
  show "fst (get_setting k s') = Some v" if "setting_value_ok v" "put_setting k v s = (Inr u, s')"
    using put_setting_done [OF k that(2)] k get_setting_eq(1) [of k s'] setting_value_line [OF that(1)] by simp
  assume k': "setting_ready k' s"
  show "fst (get_setting k' s') = fst (get_setting k' s)" if "k \<noteq> k'" "put_setting k v s = (Inr u, s')"
    using put_setting_done(2) [OF k that(2) k'] get_setting_eq(1) [of k' s'] get_setting_eq(1) [OF k'] that(1)
    by simp
  show "setting_ready k' s'" if "put_setting k v s = (Inr u, s')"
    using put_setting_done(2) [OF k that k'] by simp
  show "fst (get_setting k' (snd (get_setting k s))) = fst (get_setting k' s)"
    using get_setting_eq(2) [OF k k'] get_setting_eq(1) [OF k'] get_setting_eq(1) [of k' "snd (get_setting k s)"]
    by simp
  show "setting_ready k' (snd (get_setting k s))"
    using get_setting_eq(2) [OF k k'] by simp
qed

section \<open>Records in files\<close>

lemma parse_pid_dec: "0 < n \<Longrightarrow> int n \<le> INT_MAX \<Longrightarrow> parse_pid (dec_nat n @ [NL]) = Some (int n)"
proof -
  assume n: "0 < n" "int n \<le> INT_MAX"
  have "no_digit_ahead [NL]" by (simp add: no_digit_ahead_def c_isdigit_def)
  moreover have "int n \<le> LONG_MAX" using n by (simp add: INT_MAX_def LONG_MAX_def)
  ultimately have "strtol (dec_nat n @ [NL]) = (int n, [NL], False)" by simp
  then show ?thesis using n by (simp add: parse_pid_def is_ws_def)
qed

definition mount_ok :: "string \<Rightarrow> bool" where
  "mount_ok m \<longleftrightarrow> m \<noteq> [] \<and> NUL \<notin> set m \<and> \<not> is_ws (hd m) \<and> \<not> is_ws (last m) \<and> length m \<le> 246"

lemma parse_transport_text:
  assumes "mount_ok m"
  shows "parse_transport (cstr (transport_text TRANSPORT_AGENTFS m)) = \<lparr>tkind = TRANSPORT_AGENTFS, mount = m\<rparr>"
proof -
  have m: "m \<noteq> []" "NUL \<notin> set m" "\<not> is_ws (hd m)" "\<not> is_ws (last m)" using assms by (simp_all add: mount_ok_def)
  have "cstr (''agentfs '' @ m @ [NL]) = ''agentfs '' @ m @ [NL]" using m by (intro cstr_id) auto
  moreover have "rstrip is_ws ((''agentfs '' @ m) @ [NL]) = ''agentfs '' @ m"
    by (rule rstrip_append) (use m in \<open>auto simp: is_ws_def\<close>)
  moreover have "dropWhile is_blank (SP # m) = m"
    using m by (cases m) (auto simp: is_blank_def is_ws_def)
  ultimately show ?thesis
    using m by (simp add: parse_transport_def transport_text_def starts_with_def)
qed

section \<open>When a write succeeds\<close>

text \<open>A schedule without failures may still cut every transfer short.\<close>

definition benign :: "world \<Rightarrow> bool" where
  "benign w \<longleftrightarrow> (\<forall>e. Fail e \<notin> set (sched w))"

lemma call_benign: "benign w \<Longrightarrow> call m w = m (w\<lparr>sched := tl (sched w)\<rparr>)"
  by (cases w; cases "sched w") (auto simp: call_def benign_def split: fault.splits)

lemma benign_tl: "benign w \<Longrightarrow> sched w' = tl (sched w) \<Longrightarrow> benign w'"
  by (cases "sched w") (auto simp: benign_def)

lemma sys_write_benign:
  assumes "benign w" "writing w0 fd q fl i c w"
  shows "\<exists>k w'. sys_write fd buf w = (Inr k, w') \<and> benign w'"
proof -
  obtain off where "fds w = AList.update fd (DFile q off fl) (fds w0)"
    "map_of (fs w) q = Some (i\<lparr>kind := Reg c\<rparr>)" "O_RDONLY \<notin> set fl"
    using assms(2) by (auto simp: writing_def frame_def)
  then show ?thesis
    using benign_tl [OF assms(1)] by (auto simp: sys_write_def call_benign [OF assms(1)] Let_def)
qed

lemma write_all_benign:
  "benign w \<Longrightarrow> writing w0 fd q fl i c w \<Longrightarrow> \<exists>k w'. write_all fd buf w = (Inr k, w') \<and> benign w'"
proof (induction fd buf w arbitrary: c rule: write_all.induct)
  case (1 fd buf w)
  show ?case
  proof (cases "buf = []")
    case True
    then show ?thesis using 1 by (simp add: write_all.simps)
  next
    case False
    obtain k w1 where k: "sys_write fd buf w = (Inr k, w1)" "benign w1"
      using sys_write_benign [OF "1.prems"] by blast
    obtain j where "writing w0 fd q fl i (c @ take j buf) w1"
      using sys_write_writing [OF "1.prems"(2) k(1)] by blast
    from "1.IH"(2) [OF False k(1) [symmetric] refl k(2) this] show ?thesis
      using False k by (auto simp: write_all.simps [of fd buf w])
  qed
qed

lemma mkstemp_benign:
  assumes "benign w" "s \<in> set (tmps w)" "map_of (fs w) (p @ s) = None"
    and "\<And>s. s \<in> set (tmps w) \<Longrightarrow> is_dir (fs w) (dirname (p @ s))"
  shows "\<exists>fd tmp w'. sys_mkstemp p w = (Inr (fd, tmp), w') \<and> benign w'"
proof -
  let ?P = "\<lambda>s. map_of (fs w) (p @ s) \<noteq> None"
  have "dropWhile ?P (tmps w) \<noteq> []" using assms(2,3) by (auto simp: dropWhile_eq_Nil_conv)
  then obtain t r where d: "dropWhile ?P (tmps w) = t # r" by (meson neq_Nil_conv)
  then have "t \<in> set (tmps w)" by (metis list.set_intros(1) set_dropWhileD)
  then show ?thesis
    using assms(4) d benign_tl [OF assms(1)]
    by (auto simp: sys_mkstemp_def call_benign [OF assms(1)] Let_def new_fd_def)
qed

lemma prepare_tmp_benign:
  assumes "benign w" "writing w0 fd q fl i c w"
  shows "\<exists>w'. prepare_tmp fd mode w = (Inr (), w') \<and> benign w'"
proof -
  obtain off where *: "map_of (fds w) fd = Some (DFile q off fl)" "map_of (fs w) q = Some (i\<lparr>kind := Reg c\<rparr>)"
    using assms(2) by (auto simp: writing_def frame_def)
  have b1: "benign (w\<lparr>sched := tl (sched w)\<rparr>)" by (rule benign_tl [OF assms(1)]) simp
  have b2: "benign (w\<lparr>sched := tl (tl (sched w))\<rparr>)" by (rule benign_tl [OF b1]) simp
  show ?thesis
    using * benign_tl [OF b2]
    by (simp add: prepare_tmp_def sys_fcntl_fd_def sys_fchmod_def call_benign [OF assms(1)]
        call_benign [OF b1] call_benign [OF b2])
qed

lemma dirname_append: "CHR ''/'' \<notin> set s \<Longrightarrow> dirname (p @ s) = dirname p"
proof (cases "split_last (CHR ''/'') p")
  case None
  assume "CHR ''/'' \<notin> set s"
  with split_last_NoneD [OF None] have "split_last (CHR ''/'') (p @ s) = None"
    by (intro split_last_absent) simp
  then show ?thesis using None by (simp add: dirname_def)
next
  case (Some ab)
  obtain a b where ab: "ab = (a, b)" by fastforce
  assume "CHR ''/'' \<notin> set s"
  with split_last_SomeD [of _ p a b] Some ab have "p = a @ CHR ''/'' # b" "CHR ''/'' \<notin> set (b @ s)" by auto
  then have "split_last (CHR ''/'') (p @ s) = Some (a, b @ s)" using split_last_found [of _ "b @ s" a] by simp
  then show ?thesis using Some ab by (simp add: dirname_def)
qed

lemma atomic_write_benign:
  assumes "benign w" "length path + 11 < MAX_PATHBUF" "is_dir (fs w) (dirname path)"
    and "\<And>i. map_of (fs w) path = Some i \<Longrightarrow> kind i \<noteq> Dir"
    and "s \<in> set (tmps w)" "map_of (fs w) (path @ ''.tmp.'' @ s) = None"
    and "\<And>s. s \<in> set (tmps w) \<Longrightarrow> is_dir (fs w) (dirname (path @ ''.tmp.'' @ s))"
  shows "\<exists>w'. atomic_write_file path buf mode w = (Inr (), w')"
proof -
  obtain fd tmp w1 where 1: "sys_mkstemp (path @ ''.tmp.'') w = (Inr (fd, tmp), w1)" "benign w1"
    using mkstemp_benign [of w s "path @ ''.tmp.''"] assms by auto
  note mk = mkstemp_writing [OF 1(1)]
  obtain w2 where 2: "prepare_tmp fd mode w1 = (Inr (), w2)" "benign w2"
    using prepare_tmp_benign [OF 1(2) mk(3)] by blast
  obtain i where w2: "writing w fd tmp [O_RDWR] i [] w2"
    using prepare_tmp_writing [OF mk(3) 2(1)] by blast
  obtain k w3 where 3: "write_all fd buf w2 = (Inr k, w3)" "benign w3"
    using write_all_benign [OF 2(2) w2] by blast
  obtain c where w3: "writing w fd tmp [O_RDWR] i c w3"
    using write_all_writing [OF w2 3(1)] by blast
  obtain x w4 where 4: "sys_close fd w3 = (x, w4)" by fastforce
  let ?v = "w3\<lparr>fds := AList.delete fd (fds w3)\<rparr>"
  have "benign ?v" using 3(2) by (simp add: benign_def)
  moreover have "map_of (fds w3) fd \<noteq> None" using w3 by (auto simp: writing_def frame_def)
  ultimately have "(x, w4) = (Inr (), ?v\<lparr>sched := tl (sched w3)\<rparr>)"
    using 4 by (auto simp: sys_close_def call_benign)
  then have x: "x = Inr ()" and b4: "benign w4" using benign_tl [OF 3(2)] by auto
  note w4 = writing_close [OF w3 4]
  have tmp: "tmp \<noteq> path" "\<not> below tmp path" using mk(1) by (auto simp: below_iff join_def)
  have same: "map_of (fs w4) q = map_of (fs w) q" if "q \<noteq> tmp" for q
    using frame_lookup [of "\<lambda>p. p = tmp" w "fds w" w4 q] w4 that by blast
  have "dirname path \<noteq> tmp \<or> dirname path = []"
    using assms(3) mk(1,2) by (auto simp: is_dir_def)
  moreover have "tmp \<noteq> []" using mk(1) by auto
  ultimately have "is_dir (fs w4) (dirname path)"
    using assms(3) same [of "dirname path"] by (auto simp: is_dir_def)
  moreover have "map_of (fs w4) path = map_of (fs w) path" using same tmp(1) by simp
  ultimately have "\<exists>w5. sys_rename tmp path w4 = (Inr (), w5)"
    using w4 tmp assms(4)
    by (auto simp: sys_rename_def call_benign [OF b4] split: option.splits)
  then show ?thesis
    using 1 2 3 4 x assms(2) by (auto simp: atomic_write_file_def)
qed

section \<open>Properties\<close>

text \<open>A small file tree with one agent, for the instances below.\<close>

definition demo_layout :: "string \<Rightarrow> (string, inode) alist" where
  "demo_layout a = (let d = \<lparr>kind = Dir, imode = 448, iuid = 1000\<rparr>; b = join ''/r/agents'' a in
     [(b, d), (join b ''config'', d), (join b ''runtime'', d), (join b ''data'', d)])"

definition demo_world :: world where
  "demo_world = world0\<lparr>fs := [(''/r'', \<lparr>kind = Dir, imode = 448, iuid = 1000\<rparr>),
     (''/r/agents'', \<lparr>kind = Dir, imode = 448, iuid = 1000\<rparr>)] @ demo_layout ''a'',
     tmps := [''aaaaaa'', ''bbbbbb'', ''cccccc'', ''dddddd'']\<rparr>"

text \<open>
  C1. Replacing a file is all or nothing. Whatever calls fail, are interrupted or transfer
  only part of the data, \<open>atomic_write_file\<close> leaves the descriptor table as it was; if it
  reports success the target holds exactly the new bytes with the requested mode and no
  other path has changed; if it reports an error every file that existed is unchanged and
  the only thing it may leave behind is a fresh temporary beside the target.
\<close>

theorem atomic_write_all_or_nothing:
  "case atomic_write_file path buf mode w of
     (Inl _, w') \<Rightarrow> fds w' = fds w \<and>
        (\<forall>q. map_of (fs w') q = map_of (fs w) q \<or> map_of (fs w) q = None \<and> tmp_of path q)
   | (Inr _, w') \<Rightarrow> fds w' = fds w \<and>
        map_of (fs w') = (map_of (fs w))(path \<mapsto> \<lparr>kind = Reg buf, imode = mode, iuid = euid w\<rparr>)"
proof (cases "atomic_write_file path buf mode w")
  case (Pair r w')
  from atomic_write_spec [OF this] Pair show ?thesis
    by (cases r) (auto simp: write_failed_def write_done_def same_ident_def)
qed

text \<open>
  C4. Short writes never make a replacement fail: with any schedule that cuts transfers short
  but fails no call, \<open>atomic_write_file\<close> terminates with success whenever the directory of the
  target exists, the target is not a directory, and \<open>mkstemp\<close> finds an unused name.
\<close>

theorem atomic_write_succeeds:
  assumes "benign w" "length path + 11 < MAX_PATHBUF" "is_dir (fs w) (dirname path)"
    and "\<And>i. map_of (fs w) path = Some i \<Longrightarrow> kind i \<noteq> Dir"
    and "s \<in> set (tmps w)" "map_of (fs w) (path @ ''.tmp.'' @ s) = None"
    and "\<And>s. s \<in> set (tmps w) \<Longrightarrow> CHR ''/'' \<notin> set s"
  shows "\<exists>w'. atomic_write_file path buf mode w = (Inr (), w')"
proof (rule atomic_write_benign [OF assms(1-6)])
  fix s assume "s \<in> set (tmps w)"
  with assms(7) have "dirname (path @ ''.tmp.'' @ s) = dirname path" by (intro dirname_append) auto
  with assms(3) show "is_dir (fs w) (dirname (path @ ''.tmp.'' @ s))" by simp
qed

theorem atomic_write_succeeds_witness:
  "\<exists>w'. atomic_write_file ''/d/f'' ''data'' 384
     (world0\<lparr>fs := [(''/d'', \<lparr>kind = Dir, imode = 448, iuid = 0\<rparr>)], tmps := [''aaaaaa''],
        sched := [Fine, Fine, Fine, Fine, Short 1, Short 0, Short 2]\<rparr>) = (Inr (), w')"
  by (rule atomic_write_succeeds [where s = "''aaaaaa''"])
    (auto simp: benign_def world0_def MAX_PATHBUF_def is_dir_def dirname_def split_last_def)



end
