(* ===== verification/Progress.thy ===== *)
theory Progress
  imports FileIO
begin

text \<open>
  Worlds in which file writes are bound to succeed: no call fails any more and \<open>mkstemp\<close>
  still has unused suffixes. The components that write several files in a row use these
  facts to show that they complete, not only that what they complete is right.
\<close>

section \<open>Temporary names\<close>

lemma call_tmps: "(\<And>v. tmps (snd (m v)) = tmps v) \<Longrightarrow> tmps (snd (call m w)) = tmps w"
  by (simp add: call_def split: list.splits fault.splits)

lemma sys_fcntl_tmps [simp]: "tmps (snd (sys_fcntl_fd fd w)) = tmps w"
  unfolding sys_fcntl_fd_def by (rule call_tmps) simp

lemma sys_fchmod_tmps [simp]: "tmps (snd (sys_fchmod fd m w)) = tmps w"
  unfolding sys_fchmod_def by (rule call_tmps) (simp add: put_inode_def split: option.splits desc.splits)

lemma sys_write_tmps [simp]: "tmps (snd (sys_write fd b w)) = tmps w"
  unfolding sys_write_def
  by (rule call_tmps) (auto simp: put_inode_def Let_def split: option.splits desc.splits node.splits)

lemma sys_close_tmps [simp]: "tmps (snd (sys_close fd w)) = tmps w"
  by (auto simp: sys_close_def call_def split: list.splits fault.splits)

lemma sys_rename_tmps [simp]: "tmps (snd (sys_rename a b w)) = tmps w"
  unfolding sys_rename_def by (rule call_tmps) (auto split: option.splits)

lemma sys_lstat_tmps [simp]: "tmps (snd (sys_lstat p w)) = tmps w"
  unfolding sys_lstat_def by (rule call_tmps) (auto split: option.splits)

lemma sys_stat_tmps [simp]: "tmps (snd (sys_stat p w)) = tmps w"
  unfolding sys_stat_def by (rule call_tmps) (auto split: option.splits sum.splits)

lemma sys_mkdir_tmps [simp]: "tmps (snd (sys_mkdir p m w)) = tmps w"
  unfolding sys_mkdir_def by (rule call_tmps) (auto simp: put_inode_def)

lemma sys_symlink_tmps [simp]: "tmps (snd (sys_symlink p m w)) = tmps w"
  unfolding sys_symlink_def by (rule call_tmps) (auto simp: put_inode_def)

lemma sys_open_tmps [simp]: "tmps (snd (sys_open p fl m w)) = tmps w"
  unfolding sys_open_def
  by (rule call_tmps) (auto simp: put_inode_def Let_def new_fd_def split: option.splits sum.splits node.splits)

lemma write_all_tmps [simp]: "tmps (snd (write_all fd buf w)) = tmps w"
proof (induction fd buf w rule: write_all.induct)
  case (1 fd buf w)
  show ?case
  proof (cases "buf = []")
    case False
    obtain x w1 where x: "sys_write fd buf w = (x, w1)" by fastforce
    then have t: "tmps w1 = tmps w" using sys_write_tmps [of fd buf w] by simp
    show ?thesis
    proof (cases x)
      case (Inl e)
      then show ?thesis using "1.IH"(1) [OF False x [symmetric] Inl] False x t
        by (simp add: write_all.simps [of fd buf w])
    next
      case (Inr k)
      obtain y w2 where y: "write_all fd (drop k buf) w1 = (y, w2)" by fastforce
      then have "tmps w2 = tmps w1" using "1.IH"(2) [OF False x [symmetric] Inr] by simp
      then show ?thesis using False x t Inr y
        by (simp add: write_all.simps [of fd buf w] split: sum.split)
    qed
  qed (simp add: write_all.simps)
qed

lemma prepare_tmp_tmps [simp]: "tmps (snd (prepare_tmp fd m w)) = tmps w"
proof -
  obtain x w1 where x: "sys_fcntl_fd fd w = (x, w1)" by fastforce
  obtain y w2 where y: "sys_fcntl_fd fd w1 = (y, w2)" by fastforce
  have "tmps w1 = tmps w" "tmps w2 = tmps w1"
    using sys_fcntl_tmps [of fd w] sys_fcntl_tmps [of fd w1] x y by simp_all
  then show ?thesis using x y by (simp add: prepare_tmp_def split: sum.split)
qed

lemma ensure_legacy_link_tmps [simp]: "tmps (ensure_legacy_link b l k w) = tmps w"
proof -
  obtain x w1 where x: "sys_lstat (join b l) w = (x, w1)" by fastforce
  then have "tmps w1 = tmps w" using sys_lstat_tmps [of "join b l" w] by simp
  then show ?thesis using x by (simp add: ensure_legacy_link_def split: sum.split)
qed

section \<open>Steady worlds\<close>

definition tmp_free :: "world \<Rightarrow> string \<Rightarrow> bool" where
  "tmp_free w q \<longleftrightarrow> (\<forall>s \<in> set (tmps w). \<forall>p. q \<noteq> p @ ''.tmp.'' @ s)"

definition steady :: "nat \<Rightarrow> world \<Rightarrow> bool" where
  "steady k w \<longleftrightarrow> sched w = [] \<and> k \<le> length (tmps w) \<and> (\<forall>s \<in> set (tmps w). CHR ''/'' \<notin> set s) \<and>
     (\<forall>q. map_of (fs w) q \<noteq> None \<longrightarrow> tmp_free w q)"

lemma steady_mono: "steady k w \<Longrightarrow> j \<le> k \<Longrightarrow> steady j w"
  by (simp add: steady_def)

lemma steady_quiet: "steady k w \<Longrightarrow> sched w = []"
  by (simp add: steady_def)

text \<open>A check that evaluates.\<close>

definition ends_with :: "string \<Rightarrow> string \<Rightarrow> bool" where
  "ends_with t q \<longleftrightarrow> drop (length q - length t) q = t"

definition steady_check :: "nat \<Rightarrow> world \<Rightarrow> bool" where
  "steady_check k w \<longleftrightarrow> sched w = [] \<and> k \<le> length (tmps w) \<and>
     list_all (\<lambda>s. CHR ''/'' \<notin> set s \<and> list_all (\<lambda>(q, _). \<not> ends_with (''.tmp.'' @ s) q) (fs w)) (tmps w)"

lemma steady_check: "steady_check k w \<Longrightarrow> steady k w"
proof -
  assume c: "steady_check k w"
  have "tmp_free w q" if ex: "map_of (fs w) q \<noteq> None" for q
    unfolding tmp_free_def
  proof (intro ballI allI notI)
    fix s p assume s: "s \<in> set (tmps w)" and q: "q = p @ ''.tmp.'' @ s"
    obtain i where "(q, i) \<in> set (fs w)" using ex by (auto dest: map_of_SomeD)
    then have "\<not> ends_with (''.tmp.'' @ s) q" using c s by (fastforce simp: steady_check_def list_all_iff)
    then show False using q by (simp add: ends_with_def)
  qed
  then show ?thesis using c by (auto simp: steady_def steady_check_def list_all_iff)
qed

text \<open>A path whose last component cannot end in \<open>.tmp.\<close> and a suffix.\<close>

lemma tmp_suffix_in_leaf:
  assumes "join d l = p @ t" "CHR ''/'' \<notin> set t"
  shows "\<exists>x. l = x @ t"
proof -
  have "d @ (CHR ''/'' # l) = p @ t" using assms(1) by (simp add: join_def)
  then obtain us where "d @ us = p \<and> CHR ''/'' # l = us @ t \<or> d = p @ us \<and> us @ CHR ''/'' # l = t"
    by (auto simp: append_eq_append_conv2)
  with assms(2) show ?thesis by (cases us) auto
qed

lemma tmp_free_leaf:
  assumes "\<forall>s \<in> set (tmps w). CHR ''/'' \<notin> set s" "\<not> set ''.tmp'' \<subseteq> set l"
  shows "tmp_free w (join d l)"
  unfolding tmp_free_def
proof (intro ballI allI notI)
  fix s p assume s: "s \<in> set (tmps w)" and eq: "join d l = p @ ''.tmp.'' @ s"
  from tmp_suffix_in_leaf [OF eq] assms(1) s obtain x where "l = x @ ''.tmp.'' @ s" by auto
  then have "set ''.tmp'' \<subseteq> set l" by auto
  with assms(2) show False by blast
qed

lemma steady_extends:
  assumes "steady k w" "frame A w d w'" "tmps w' = tmps w"
    and "\<And>q. A q \<Longrightarrow> map_of (fs w') q \<noteq> None \<Longrightarrow> map_of (fs w) q \<noteq> None \<or> tmp_free w q"
  shows "steady k w'"
proof -
  have "tmp_free w' q" if q: "map_of (fs w') q \<noteq> None" for q
  proof -
    have "map_of (fs w) q \<noteq> None \<or> tmp_free w q"
      using q assms(4) frame_lookup [OF assms(2), of q] by (cases "A q") auto
    then have "tmp_free w q" using assms(1) by (auto simp: steady_def)
    then show ?thesis using assms(3) by (simp add: tmp_free_def)
  qed
  then show ?thesis using assms(1,3) frame_quiet [OF assms(2)] by (simp add: steady_def)
qed

lemma tmp_free_tmps: "set (tmps w') \<subseteq> set (tmps w) \<Longrightarrow> tmp_free w q \<Longrightarrow> tmp_free w' q"
  by (auto simp: tmp_free_def)

lemma atomic_write_tmps:
  assumes "steady (Suc k) w" "atomic_write_file path buf mode w = (Inr u, w')"
  shows "tmps w' = tl (tmps w)"
proof -
  obtain s r where t: "tmps w = s # r" using assms(1) by (cases "tmps w") (auto simp: steady_def)
  have "map_of (fs w) ((path @ ''.tmp.'') @ s) = None"
    using assms(1) t by (force simp: steady_def tmp_free_def)
  then have d: "dropWhile (\<lambda>s. map_of (fs w) ((path @ ''.tmp.'') @ s) \<noteq> None) (tmps w) = s # r" using t by simp
  obtain fd tmp w1 where 1: "sys_mkstemp (path @ ''.tmp.'') w = (Inr (fd, tmp), w1)"
    using assms(2) by (auto simp: atomic_write_file_def split: if_splits prod.splits sum.splits)
  then have t1: "tmps w1 = r"
    using d steady_quiet [OF assms(1)]
    by (auto simp: sys_mkstemp_def Let_def new_fd_def put_inode_def simp del: append_assoc split: if_splits list.splits)
  obtain w2 y2 where 2: "prepare_tmp fd mode w1 = (Inr y2, w2)"
    using assms(2) 1 by (auto simp: atomic_write_file_def drop_open_tmp_def drop_tmp_def split: if_splits prod.splits sum.splits)
  obtain w3 k3 where 3: "write_all fd buf w2 = (Inr k3, w3)"
    using assms(2) 1 2 by (auto simp: atomic_write_file_def drop_open_tmp_def drop_tmp_def split: if_splits prod.splits sum.splits)
  obtain w4 y4 where 4: "sys_close fd w3 = (Inr y4, w4)"
    using assms(2) 1 2 3 by (auto simp: atomic_write_file_def drop_open_tmp_def drop_tmp_def split: if_splits prod.splits sum.splits)
  obtain y5 where 5: "sys_rename tmp path w4 = (Inr y5, w')"
    using assms(2) 1 2 3 4 by (auto simp: atomic_write_file_def drop_open_tmp_def drop_tmp_def split: if_splits prod.splits sum.splits)
  show ?thesis
    using t1 t prepare_tmp_tmps [of fd mode w1, unfolded 2 snd_conv] write_all_tmps [of fd buf w2, unfolded 3 snd_conv]
      sys_close_tmps [of fd w3, unfolded 4 snd_conv] sys_rename_tmps [of tmp path w4, unfolded 5 snd_conv] by simp
qed

lemma atomic_write_steady:
  assumes "steady (Suc k) w" "length path + 11 < MAX_PATHBUF" "is_dir (fs w) (dirname path)"
    and "\<not> dir_at w path" "tmp_free w path"
  obtains w' where "atomic_write_file path buf mode w = (Inr (), w')"
    and "write_done path buf mode w w'" and "steady k w'" and "tmps w' = tl (tmps w)"
proof -
  obtain s r where t: "tmps w = s # r" using assms(1) by (cases "tmps w") (auto simp: steady_def)
  have "benign w" using steady_quiet [OF assms(1)] by (simp add: benign_def)
  moreover have "map_of (fs w) (path @ ''.tmp.'' @ s) = None"
    using assms(1) t by (force simp: steady_def tmp_free_def)
  moreover have "is_dir (fs w) (dirname (path @ ''.tmp.'' @ s))" if "s \<in> set (tmps w)" for s
    using assms(1,3) that dirname_append [of "''.tmp.'' @ s" path] by (auto simp: steady_def)
  moreover have "kind i \<noteq> Dir" if "map_of (fs w) path = Some i" for i
    using that assms(4) by (simp add: dir_at_def)
  ultimately have "\<exists>w'. atomic_write_file path buf mode w = (Inr (), w')"
    using assms(2,3) t by (intro atomic_write_benign [of w path s]) auto
  then obtain w' where w': "atomic_write_file path buf mode w = (Inr (), w')" by blast
  have d: "write_done path buf mode w w'" using atomic_write_spec [OF w'] by simp
  have t': "tmps w' = tl (tmps w)" by (rule atomic_write_tmps [OF assms(1) w'])
  then have sub: "set (tmps w') \<subseteq> set (tmps w)" using t by auto
  have "map_of (fs w') q \<noteq> None \<Longrightarrow> tmp_free w' q" for q
    using d assms(1,5) tmp_free_tmps [OF sub, of q]
    by (auto simp: write_done_def steady_def split: if_splits)
  moreover have "sched w' = []" using d steady_quiet [OF assms(1)] by (simp add: write_done_def same_ident_def)
  moreover have "k \<le> length (tmps w')" "\<forall>s \<in> set (tmps w'). CHR ''/'' \<notin> set s"
    using assms(1) t t' sub by (auto simp: steady_def)
  ultimately have "steady k w'" unfolding steady_def by blast
  then show ?thesis using that w' d t' by blast
qed

lemma append_file_tmps [simp]: "tmps (snd (append_file path buf mode w)) = tmps w"
proof -
  obtain x w1 where x: "sys_open path [O_WRONLY, O_CREAT, O_APPEND, O_CLOEXEC] mode w = (x, w1)" by fastforce
  then have t: "tmps w1 = tmps w"
    using sys_open_tmps [of path "[O_WRONLY, O_CREAT, O_APPEND, O_CLOEXEC]" mode w, unfolded x] by simp
  show ?thesis
  proof (cases x)
    case (Inr fd)
    obtain y w2 where y: "write_all fd buf w1 = (y, w2)" by fastforce
    then have "tmps w2 = tmps w1" using write_all_tmps [of fd buf w1, unfolded y] by simp
    then show ?thesis using x y Inr t by (simp add: append_file_def split: sum.split)
  qed (simp add: append_file_def x t)
qed

section \<open>Plain files\<close>

text \<open>A path at which there is a regular file or nothing.\<close>

definition plain :: "world \<Rightarrow> string \<Rightarrow> bool" where
  "plain w p \<longleftrightarrow> (case map_of (fs w) p of None \<Rightarrow> True | Some i \<Rightarrow> (case kind i of Reg _ \<Rightarrow> True | _ \<Rightarrow> False))"

lemma plain_cases:
  "plain w p \<Longrightarrow> (map_of (fs w) p = None \<Longrightarrow> P) \<Longrightarrow> (\<And>c. contents w p = Some c \<Longrightarrow> P) \<Longrightarrow> P"
  by (auto simp: plain_def contents_def split: option.splits node.splits)

lemma plain_follow: "plain w p \<Longrightarrow> follow (fs w) p = Inr p"
  by (erule plain_cases) (auto intro: follow_None follow_contents)

lemma plain_not_dir: "plain w p \<Longrightarrow> \<not> dir_at w p"
  by (erule plain_cases) (auto simp: dir_at_def contents_Some)

lemma contents_plain: "contents w p = Some c \<Longrightarrow> plain w p"
  by (auto simp: plain_def contents_Some)

lemma plain_cong: "map_of (fs w') p = map_of (fs w) p \<Longrightarrow> plain w p \<Longrightarrow> plain w' p"
  by (simp add: plain_def)

lemma contents_None_plain: "plain w p \<Longrightarrow> contents w p = None \<longleftrightarrow> map_of (fs w) p = None"
  by (erule plain_cases) (auto simp: contents_def split: option.splits)

lemma read_plain:
  assumes "sched w = []" "plain w p" "0 < n"
  shows "read_small_file p n w =
    (case contents w p of Some c \<Rightarrow> (Inr (take (n - 1) c), w) | None \<Rightarrow> (Inl (miss_err (fs w) p), w))"
  using read_small_file_reg [OF assms(1) plain_follow [OF assms(2)] _ assms(3)]
    read_small_file_missing [OF assms(1) plain_follow [OF assms(2)] _ assms(3)]
    contents_None_plain [OF assms(2)] by (auto split: option.split)

lemma append_plain:
  assumes "plain w p" "append_file p buf mode w = (r, w')"
  shows "frame (\<lambda>q. q = p) w (fds w) w' \<and> plain w' p"
  using assms(1)
proof (rule plain_cases)
  assume n: "map_of (fs w) p = None"
  have "frame (\<lambda>q. q = p) w (fds w) w' \<and> (map_of (fs w') p = None \<or> (\<exists>c. contents w' p = Some c))"
    using append_file_spec [OF assms(2) plain_follow [OF assms(1)], of "[]"] n by (auto split: sum.splits)
  then show ?thesis by (auto simp: plain_def contents_Some)
next
  fix c assume c: "contents w p = Some c"
  have "frame (\<lambda>q. q = p) w (fds w) w' \<and> (map_of (fs w') p = map_of (fs w) p \<or> (\<exists>c. contents w' p = Some c))"
    using append_file_spec [OF assms(2) plain_follow [OF assms(1)], of c] c by (auto split: sum.splits)
  then show ?thesis using assms(1) by (auto intro: contents_plain plain_cong)
qed

text \<open>What replacing a plain file leaves behind, whether it works or not.\<close>

lemma atomic_write_plain:
  assumes "plain w p" "atomic_write_file p buf mode w = (r, w')"
  shows "frame (\<lambda>q. q = p \<or> map_of (fs w) q = None \<and> tmp_of p q) w (fds w) w'"
    and "\<And>u. r = Inr u \<Longrightarrow> contents w' p = Some buf" and "plain w' p"
    and "\<And>q. dir_at w q \<Longrightarrow> dir_at w' q"
proof -
  note s = atomic_write_spec [OF assms(2)]
  show "frame (\<lambda>q. q = p \<or> map_of (fs w) q = None \<and> tmp_of p q) w (fds w) w'"
    using s by (auto simp: write_failed_def write_done_def frame_def same_ident_def split: sum.splits)
  show "contents w' p = Some buf" if "r = Inr u" for u
    using s that by (simp add: write_done_contents)
  have "\<not> tmp_of p p" by (simp add: tmp_of_def)
  then show "plain w' p"
    using s assms(1) write_done_contents [of p buf mode w w' p]
    by (cases r) (auto simp: write_failed_def intro: plain_cong contents_plain)
  show "dir_at w' q" if "dir_at w q" for q
  proof (cases r)
    case (Inl e)
    then have "map_of (fs w') q = map_of (fs w) q \<or> map_of (fs w) q = None"
      using s by (auto simp: write_failed_def)
    then show ?thesis using that by (auto simp: dir_at_def)
  next
    case (Inr u)
    moreover have "q \<noteq> p" using that plain_not_dir [OF assms(1)] by auto
    ultimately show ?thesis using s that by (simp add: write_done_def dir_at_def)
  qed
qed

section \<open>Paths of an agent whose layout is in place\<close>

lemma agent_path_slash:
  assumes "has_layout name w" "CHR ''/'' \<in> set leaf"
    and "length (join (join (agent_base name w) (leaf_class leaf)) leaf) < n"
  shows "agent_path n name leaf w = (Inr (join (join (agent_base name w) (leaf_class leaf)) leaf), w)"
proof -
  have l: "validate_name name" "sched w = []" "length (agent_base name w) < MAX_PATHBUF"
    "length (join (agent_base name w) ''config'') < MAX_PATHBUF"
    "dir_at w (join (agent_base name w) ''config'')"
    using assms(1) by (auto simp: has_layout_def)
  obtain i where "sys_stat (join (agent_base name w) ''config'') w = (Inr i, w)"
    using dir_at_stat l by blast
  then have "migrate_layout name (join (agent_base name w) ''config'') w = (Inr (), w)"
    by (simp add: migrate_layout_def)
  moreover have "agent_dir name w = Inr (agent_base name w)"
    "agent_config_dir name w = Inr (join (agent_base name w) ''config'')"
    using l by simp_all
  ultimately show ?thesis
    using assms(2,3)
    by (simp add: agent_path_def fit_ok Let_def ensure_legacy_link_def del: agent_dir_Inr agent_subdir_Inr)
qed

lemma leaf_class_slash: "CHR ''/'' \<in> set leaf \<Longrightarrow> leaf_class leaf = ''data''"
proof -
  assume s: "CHR ''/'' \<in> set leaf"
  have "list_all (\<lambda>l. CHR ''/'' \<notin> set l) (config_leaves @ runtime_leaves)" by code_simp
  then have "leaf \<notin> set config_leaves" "leaf \<notin> set runtime_leaves"
    using s by (auto simp: list_all_iff)
  then show ?thesis by (simp add: leaf_class_def)
qed

end
