(* ===== verification/Process.thy ===== *)
theory Process
  imports Progress
begin

text \<open>
  Processes and local sockets as the supervisor and the messaging library use them, on the
  same \<open>world\<close>: \<open>fork\<close>, \<open>waitpid\<close>, signals, pid descriptors, the pause during which other
  processes make progress, and message passing with descriptors.

  A child that has exited stays in the process table, as a zombie, until it is waited for;
  process numbers are not reused. What other processes do while this one sleeps is the next
  entry of \<open>env\<close>. Messages sent are recorded under the endpoint they were sent on; what
  arrives at an endpoint is the queue \<open>rxq\<close> holds for it. A connection waiting at a
  listening endpoint is an entry of its queue that carries the connected endpoint.
\<close>

section \<open>Processes\<close>

definition SIGHUP :: nat where "SIGHUP = 1"
definition SIGKILL :: nat where "SIGKILL = 9"
definition SIGTERM :: nat where "SIGTERM = 15"

definition sys_fork :: "int io" where
  "sys_fork = call (\<lambda>w. (Inr (next_pid w),
     w\<lparr>procs := AList.update (next_pid w) \<lparr>pchild = True, pzombie = None\<rparr> (procs w), next_pid := next_pid w + 1\<rparr>))"

definition note_signal :: "int \<Rightarrow> nat \<Rightarrow> world \<Rightarrow> world" where
  "note_signal pid sig w = (if sig = 0 then w else w\<lparr>signals := (pid, sig) # signals w\<rparr>)"

definition sys_kill :: "int \<Rightarrow> nat \<Rightarrow> unit io" where
  "sys_kill pid sig = call (\<lambda>w. if map_of (procs w) pid = None then (Inl ESRCH, w)
     else (Inr (), note_signal pid sig w))"

text \<open>A signal to a process group is noted under the negated number of its leader.\<close>

definition sys_killpg :: "int \<Rightarrow> nat \<Rightarrow> unit io" where
  "sys_killpg pgid sig = call (\<lambda>w. if map_of (procs w) pgid = None then (Inl ESRCH, w)
     else (Inr (), note_signal (- pgid) sig w))"

definition zombie_child :: "int \<times> proc \<Rightarrow> bool" where
  "zombie_child x \<longleftrightarrow> pchild (snd x) \<and> pzombie (snd x) \<noteq> None"

text \<open>\<open>waitpid (-1, &status, WNOHANG)\<close>: a child that has exited, if there is one.\<close>

definition sys_waitpid :: "(int \<times> wstatus) option io" where
  "sys_waitpid = call (\<lambda>w. case find zombie_child (procs w) of
       Some (pid, p) \<Rightarrow> (Inr (Some (pid, the (pzombie p))), w\<lparr>procs := AList.delete pid (procs w)\<rparr>)
     | None \<Rightarrow> if list_ex (\<lambda>x. pchild (snd x)) (procs w) then (Inr None, w) else (Inl ECHILD, w))"

definition sys_pidfd_open :: "int \<Rightarrow> nat io" where
  "sys_pidfd_open pid = call (\<lambda>w. if map_of (procs w) pid = None then (Inl ESRCH, w)
     else (let (n, w) = new_fd (DPid pid) w in (Inr n, w)))"

definition sys_pidfd_send_signal :: "nat \<Rightarrow> nat \<Rightarrow> unit io" where
  "sys_pidfd_send_signal fd sig = call (\<lambda>w. case map_of (fds w) fd of
       Some (DPid pid) \<Rightarrow> if map_of (procs w) pid = None then (Inl ESRCH, w) else (Inr (), note_signal pid sig w)
     | _ \<Rightarrow> (Inl EBADF, w))"

text \<open>What other processes may do.\<close>

fun apply_event :: "env_event \<Rightarrow> world \<Rightarrow> world" where
  "apply_event (ProcExit pid st) w = (case map_of (procs w) pid of
       None \<Rightarrow> w
     | Some p \<Rightarrow> if pchild p then w\<lparr>procs := AList.update pid (p\<lparr>pzombie := Some st\<rparr>) (procs w)\<rparr>
                 else w\<lparr>procs := AList.delete pid (procs w)\<rparr>)"
| "apply_event (FileSet p c) w = put_inode p \<lparr>kind = Reg c, imode = 384, iuid = euid w\<rparr> w"
| "apply_event (Tick n) w = w\<lparr>now := now w + n\<rparr>"

definition sys_nanosleep :: "world \<Rightarrow> world" where
  "sys_nanosleep w = (case env w of [] \<Rightarrow> w | es # r \<Rightarrow> fold apply_event es (w\<lparr>env := r\<rparr>))"

section \<open>Sockets\<close>

definition sys_socketpair :: "(nat \<times> nat) io" where
  "sys_socketpair = call (\<lambda>w.
     let e = next_ep w;
         (a, w) = new_fd (DSock e) (w\<lparr>next_ep := e + 2\<rparr>);
         (b, w) = new_fd (DSock (e + 1)) w
     in (Inr (a, b), w))"

definition sys_socket :: "nat io" where
  "sys_socket = call (\<lambda>w. let (a, w') = new_fd (DSock (next_ep w)) (w\<lparr>next_ep := next_ep w + 1\<rparr>) in (Inr a, w'))"

definition sys_bind :: "nat \<Rightarrow> string \<Rightarrow> unit io" where
  "sys_bind fd p = call (\<lambda>w.
     if map_of (fs w) p \<noteq> None then (Inl EADDRINUSE, w)
     else if \<not> is_dir (fs w) (dirname p) then (Inl (miss_err (fs w) p), w)
     else (Inr (), put_inode p \<lparr>kind = Sock, imode = 511, iuid = euid w\<rparr> w))"

definition sys_listen :: "nat \<Rightarrow> unit io" where
  "sys_listen fd = call (\<lambda>w. (if map_of (fds w) fd = None then Inl EBADF else Inr (), w))"

definition ep_queue :: "nat \<Rightarrow> world \<Rightarrow> packet list" where
  "ep_queue e w = (case map_of (rxq w) e of Some q \<Rightarrow> q | None \<Rightarrow> [])"

definition sys_accept :: "nat \<Rightarrow> nat io" where
  "sys_accept fd = call (\<lambda>w. case map_of (fds w) fd of
       Some (DSock e) \<Rightarrow> (case ep_queue e w of
           p # r \<Rightarrow> (case rights p of
               d # _ \<Rightarrow> (let (n, w) = new_fd d (w\<lparr>rxq := AList.update e r (rxq w)\<rparr>) in (Inr n, w))
             | [] \<Rightarrow> (Inl ECONNRESET, w\<lparr>rxq := AList.update e r (rxq w)\<rparr>))
         | [] \<Rightarrow> (Inl EAGAIN, w))
     | Some _ \<Rightarrow> (Inl ENOTSOCK, w)
     | None \<Rightarrow> (Inl EBADF, w))"

fun install_fds :: "desc list \<Rightarrow> world \<Rightarrow> nat list \<times> world" where
  "install_fds [] w = ([], w)"
| "install_fds (d # ds) w = (let (n, w) = new_fd d w; (ns, w) = install_fds ds w in (n # ns, w))"

record received =
  rx_bytes :: string
  rx_fds :: "nat list"
  rx_trunc :: bool       \<comment> \<open>\<open>MSG_TRUNC\<close> or \<open>MSG_CTRUNC\<close>\<close>

text \<open>
  \<open>recvmsg\<close> of one message into a buffer of \<open>cap\<close> bytes with room for \<open>maxfds\<close> descriptors.
  An empty queue is the end of the stream.
\<close>

definition sys_recvmsg :: "nat \<Rightarrow> nat \<Rightarrow> nat \<Rightarrow> received io" where
  "sys_recvmsg fd cap maxfds = call (\<lambda>w. case map_of (fds w) fd of
       Some (DSock e) \<Rightarrow> (case ep_queue e w of
           p # r \<Rightarrow>
             (let (ns, w) = install_fds (take maxfds (rights p)) (w\<lparr>rxq := AList.update e r (rxq w)\<rparr>)
              in (Inr \<lparr>rx_bytes = take cap (bytes p), rx_fds = ns,
                     rx_trunc = (length (bytes p) > cap \<or> length (rights p) > maxfds)\<rparr>, w))
         | [] \<Rightarrow> (Inr \<lparr>rx_bytes = [], rx_fds = [], rx_trunc = False\<rparr>, w))
     | Some _ \<Rightarrow> (Inl ENOTSOCK, w)
     | None \<Rightarrow> (Inl EBADF, w))"

text \<open>A read on a stream takes at most the bytes of the first chunk waiting.\<close>

definition sys_sock_read :: "nat \<Rightarrow> nat \<Rightarrow> string io" where
  "sys_sock_read fd n = call (\<lambda>w. case map_of (fds w) fd of
       Some (DSock e) \<Rightarrow> (case ep_queue e w of
           p # r \<Rightarrow> (Inr (take n (bytes p)),
             w\<lparr>rxq := AList.update e (if length (bytes p) \<le> n then r else p\<lparr>bytes := drop n (bytes p)\<rparr> # r) (rxq w)\<rparr>)
         | [] \<Rightarrow> (Inr [], w))
     | Some _ \<Rightarrow> (Inl ENOTSOCK, w)
     | None \<Rightarrow> (Inl EBADF, w))"

definition sys_sendmsg :: "nat \<Rightarrow> string \<Rightarrow> nat list \<Rightarrow> nat io" where
  "sys_sendmsg fd bs pass = call (\<lambda>w. case map_of (fds w) fd of
       Some (DSock e) \<Rightarrow>
         if list_ex (\<lambda>n. map_of (fds w) n = None) pass then (Inl EBADF, w)
         else (Inr (length bs),
           w\<lparr>sent := (e, \<lparr>bytes = bs, rights = map (\<lambda>n. the (map_of (fds w) n)) pass\<rparr>) # sent w\<rparr>)
     | Some _ \<Rightarrow> (Inl ENOTSOCK, w)
     | None \<Rightarrow> (Inl EBADF, w))"

text \<open>
  The identity of a peer (\<open>get_peer_creds\<close> of \<open>src/common.c\<close>): what the kernel says about a
  connection is the parameter \<open>cred\<close>; a call that fails leaves a structure of zeros.
\<close>

record peer_id =
  peer_pid :: int
  peer_uid :: nat
  peer_gid :: nat
  authenticated_name :: string

definition no_peer :: peer_id where
  "no_peer = \<lparr>peer_pid = 0, peer_uid = 0, peer_gid = 0, authenticated_name = []\<rparr>"

definition get_peer_creds :: "(nat \<Rightarrow> errno + int \<times> nat \<times> nat) \<Rightarrow> nat \<Rightarrow> world \<Rightarrow> ((errno + unit) \<times> peer_id) \<times> world" where
  "get_peer_creds cred fd w = (case call (\<lambda>w. (cred fd, w)) w of
       (Inl e, w) \<Rightarrow> ((Inl e, no_peer), w)
     | (Inr (p, u, g), w) \<Rightarrow> ((Inr (), no_peer\<lparr>peer_pid := p, peer_uid := u, peer_gid := g\<rparr>), w))"

section \<open>Retrying after an interruption\<close>

lemma call_intr:
  "(Inl EINTR, w') = call m w \<Longrightarrow> (\<And>v r v'. m v = (r, v') \<Longrightarrow> r \<noteq> Inl EINTR \<and> sched v' = sched v) \<Longrightarrow>
     length (sched w') < length (sched w)"
  by (erule call_cases [OF sym]) fastforce+

lemma sys_sendmsg_intr: "(Inl EINTR, w') = sys_sendmsg fd bs ns w \<Longrightarrow> length (sched w') < length (sched w)"
  unfolding sys_sendmsg_def by (erule call_intr) (auto split: option.splits desc.splits if_splits)

lemma install_fds_sched [simp]: "sched (snd (install_fds ds w)) = sched w"
  by (induction ds arbitrary: w) (simp_all add: new_fd_def Let_def case_prod_beta)

lemma sys_recvmsg_intr: "(Inl EINTR, w') = sys_recvmsg fd cap m w \<Longrightarrow> length (sched w') < length (sched w)"
  unfolding sys_recvmsg_def
proof (erule call_intr)
  fix v r v'
  assume "(case map_of (fds v) fd of
       Some (DSock e) \<Rightarrow> (case ep_queue e v of
           p # r \<Rightarrow>
             (let (ns, w) = install_fds (take m (rights p)) (v\<lparr>rxq := AList.update e r (rxq v)\<rparr>)
              in (Inr \<lparr>rx_bytes = take cap (bytes p), rx_fds = ns,
                     rx_trunc = (length (bytes p) > cap \<or> length (rights p) > m)\<rparr>, w))
         | [] \<Rightarrow> (Inr \<lparr>rx_bytes = [], rx_fds = [], rx_trunc = False\<rparr>, v))
     | Some _ \<Rightarrow> (Inl ENOTSOCK, v)
     | None \<Rightarrow> (Inl EBADF, v)) = (r, v')"
  moreover have "sched w2 = sched v" if "install_fds ds (v\<lparr>rxq := q\<rparr>) = (ns, w2)" for ds q ns w2
    using install_fds_sched [of ds "v\<lparr>rxq := q\<rparr>"] that by simp
  ultimately show "r \<noteq> Inl EINTR \<and> sched v' = sched v"
    by (auto simp: Let_def split: option.splits desc.splits list.splits prod.splits)
qed

function send_retry :: "nat \<Rightarrow> string \<Rightarrow> nat list \<Rightarrow> nat io" where
  "send_retry fd bs ns w = (case sys_sendmsg fd bs ns w of
       (Inl e, w') \<Rightarrow> if e = EINTR then send_retry fd bs ns w' else (Inl e, w')
     | (Inr n, w') \<Rightarrow> (Inr n, w'))"
  by pat_completeness auto
termination by (relation "measure (\<lambda>(fd, bs, ns, w). length (sched w))") (auto dest: sys_sendmsg_intr)

function recv_retry :: "nat \<Rightarrow> nat \<Rightarrow> nat \<Rightarrow> received io" where
  "recv_retry fd cap m w = (case sys_recvmsg fd cap m w of
       (Inl e, w') \<Rightarrow> if e = EINTR then recv_retry fd cap m w' else (Inl e, w')
     | (Inr x, w') \<Rightarrow> (Inr x, w'))"
  by pat_completeness auto
termination by (relation "measure (\<lambda>(fd, cap, m, w). length (sched w))") (auto dest: sys_recvmsg_intr)

declare send_retry.simps [simp del] recv_retry.simps [simp del]

end
