(* ===== verification/Profiles.thy ===== *)
theory Profiles
  imports FileIO
begin

text \<open>
  Profiles (\<open>src/profiles.c\<close>): the policy names, the \<open>KEY=VALUE\<close> parser and the overlay of
  a named profile by an agent's own configuration, the search for profile files, artifact
  writes under the three artifact policies, and the upsert of a key into a file.

  The loaders fill a structure their caller passes in. The model takes that structure's
  previous contents as an argument, so what the code leaves unset stays what it was.
\<close>

section \<open>Definitions\<close>

definition MAX_PROFILE_RAW :: nat where "MAX_PROFILE_RAW = 1024"
definition MAX_PROFILE_NAME :: nat where "MAX_PROFILE_NAME = MAX_NAME"

datatype dispatch_mode = DISPATCH_SINGLE_SHOT | DISPATCH_PERSISTENT | DISPATCH_DELEGATING
datatype artifact_policy = ARTIFACT_OVERWRITE | ARTIFACT_VERSIONED | ARTIFACT_APPEND_ONLY

record profile_cfg =
  profile_name :: string
  dispatch :: dispatch_mode
  artifact_pol :: artifact_policy
  idle_timeout_sec :: int
  enforce_fs :: bool
  seccomp :: bool
  cgroup :: bool
  cgroup_memory_max :: int
  cgroup_pids_max :: int
  cgroup_cpu_max :: string
  raw :: string

definition PROFILE_DIRS_DEFAULT :: "string list" where
  "PROFILE_DIRS_DEFAULT = [''/usr/lib/agents/profiles'', ''/usr/local/lib/agents/profiles'', ''./profiles'']"

fun dispatch_name :: "dispatch_mode \<Rightarrow> string" where
  "dispatch_name DISPATCH_SINGLE_SHOT = ''single-shot''"
| "dispatch_name DISPATCH_PERSISTENT = ''persistent''"
| "dispatch_name DISPATCH_DELEGATING = ''delegating''"

fun artifact_policy_name :: "artifact_policy \<Rightarrow> string" where
  "artifact_policy_name ARTIFACT_OVERWRITE = ''overwrite''"
| "artifact_policy_name ARTIFACT_VERSIONED = ''versioned''"
| "artifact_policy_name ARTIFACT_APPEND_ONLY = ''append-only''"

definition parse_dispatch :: "string \<Rightarrow> dispatch_mode" where
  "parse_dispatch v = (if v = ''single-shot'' then DISPATCH_SINGLE_SHOT
     else if v = ''persistent'' then DISPATCH_PERSISTENT
     else if v = ''delegating'' then DISPATCH_DELEGATING else DISPATCH_PERSISTENT)"

definition parse_artifact_policy :: "string \<Rightarrow> artifact_policy" where
  "parse_artifact_policy v = (if v = ''overwrite'' then ARTIFACT_OVERWRITE
     else if v = ''versioned'' then ARTIFACT_VERSIONED
     else if v = ''append-only'' then ARTIFACT_APPEND_ONLY else ARTIFACT_OVERWRITE)"

definition clamp_idle :: "int \<Rightarrow> int" where
  "clamp_idle t = (let t = (if t < 0 then 0 else t) in if t > 86400 then 86400 else t)"

definition apply_kv :: "string \<Rightarrow> string \<Rightarrow> profile_cfg \<Rightarrow> profile_cfg" where
  "apply_kv k v cfg =
     (if k = ''dispatch'' then cfg\<lparr>dispatch := parse_dispatch v\<rparr>
      else if k = ''artifact_policy'' then cfg\<lparr>artifact_pol := parse_artifact_policy v\<rparr>
      else if k = ''idle_timeout'' then cfg\<lparr>idle_timeout_sec := clamp_idle (fst (strtol v))\<rparr>
      else if k = ''enforce_fs'' then cfg\<lparr>enforce_fs := (v = ''landlock'')\<rparr>
      else if k = ''seccomp'' then cfg\<lparr>seccomp := (v = ''minimal'')\<rparr>
      else if k = ''cgroup'' then cfg\<lparr>cgroup := (v = ''on'')\<rparr>
      else if k = ''CGROUP_MEMORY_MAX'' then
        (let n = fst (strtol v) in if n > 0 then cfg\<lparr>cgroup_memory_max := n\<rparr> else cfg)
      else if k = ''CGROUP_PIDS_MAX'' then
        (let n = fst (strtol v) in if n > 0 then cfg\<lparr>cgroup_pids_max := n\<rparr> else cfg)
      else if k = ''CGROUP_CPU_MAX'' then cfg\<lparr>cgroup_cpu_max := snprintf_trunc 32 v\<rparr>
      else cfg)"

definition is_blank_cr :: "char \<Rightarrow> bool" where
  "is_blank_cr c \<longleftrightarrow> c = SP \<or> c = TAB \<or> c = CR"

text \<open>The key and the value of a line, if it has them.\<close>

definition split_kv :: "string \<Rightarrow> (string \<times> string) option" where
  "split_kv l = (let line = dropWhile is_blank l in
     if line = [] \<or> hd line = CHR ''#'' \<or> length line \<ge> 256 then None
     else (case split_at (CHR ''='') line of
         (_, None) \<Rightarrow> None
       | (k, Some v) \<Rightarrow> Some (rstrip is_blank k, rstrip is_blank_cr v)))"

definition parse_line :: "string \<Rightarrow> profile_cfg \<Rightarrow> profile_cfg" where
  "parse_line l cfg = (case split_kv l of None \<Rightarrow> cfg | Some (k, v) \<Rightarrow> apply_kv k v cfg)"

definition parse_lines :: "string \<Rightarrow> profile_cfg \<Rightarrow> profile_cfg" where
  "parse_lines buf cfg = fold parse_line (c_lines (cstr buf)) cfg"

definition set_builtin_defaults :: "profile_cfg \<Rightarrow> profile_cfg" where
  "set_builtin_defaults cfg = cfg\<lparr>profile_name := ''worker'', dispatch := DISPATCH_PERSISTENT,
     artifact_pol := ARTIFACT_OVERWRITE, idle_timeout_sec := 0, raw := []\<rparr>"

definition collect_search_paths :: "(string \<Rightarrow> string option) \<Rightarrow> string list" where
  "collect_search_paths getenv =
     take 7 ((case getenv ''AGENT_PROFILES_DIR'' of Some (c # r) \<Rightarrow> [c # r] | _ \<Rightarrow> []) @ PROFILE_DIRS_DEFAULT)"

fun locate_in :: "nat \<Rightarrow> string \<Rightarrow> string list \<Rightarrow> string io" where
  "locate_in n name [] w = (Inl ENOENT, w)"
| "locate_in n name (d # ds) w =
     (let p = join d (name @ ''.profile'') in
      if length p \<ge> n then locate_in n name ds w
      else (case sys_access p [256] w of
          (Inr _, w) \<Rightarrow> (Inr p, w)
        | (Inl _, w) \<Rightarrow> locate_in n name ds w))"

definition profile_locate :: "(string \<Rightarrow> string option) \<Rightarrow> string \<Rightarrow> nat \<Rightarrow> string io" where
  "profile_locate getenv name n w =
     (if name = [] then (Inl EINVAL, w) else locate_in n name (collect_search_paths getenv) w)"

definition profile_read_raw :: "(string \<Rightarrow> string option) \<Rightarrow> string \<Rightarrow> nat \<Rightarrow> string io" where
  "profile_read_raw getenv name n w = (case profile_locate getenv name MAX_PATHBUF w of
       (Inl e, w) \<Rightarrow> (Inl e, w)
     | (Inr path, w) \<Rightarrow> (case sys_open path [O_RDONLY, O_CLOEXEC] 0 w of
           (Inl e, w) \<Rightarrow> (Inl e, w)
         | (Inr fd, w) \<Rightarrow> (let (r, w) = sys_read fd (n - 1) w in (r, snd (sys_close fd w)))))"

definition profile_load_by_name ::
  "(string \<Rightarrow> string option) \<Rightarrow> string \<Rightarrow> profile_cfg \<Rightarrow> world \<Rightarrow> (bool \<times> profile_cfg) \<times> world" where
  "profile_load_by_name getenv name out w =
     (let out = (set_builtin_defaults out)\<lparr>profile_name := snprintf_trunc MAX_PROFILE_NAME name\<rparr> in
      case profile_read_raw getenv name MAX_PROFILE_RAW w of
        (Inl _, w) \<Rightarrow> ((name = ''worker'', out), w)
      | (Inr r, w) \<Rightarrow> ((True, parse_lines r (out\<lparr>raw := r\<rparr>)), w))"

definition agent_profile_name :: "string \<Rightarrow> world \<Rightarrow> string \<times> world" where
  "agent_profile_name agent w = (case agent_path MAX_PATHBUF agent ''profile'' w of
       (Inl _, w) \<Rightarrow> (''worker'', w)
     | (Inr path, w) \<Rightarrow> (case read_small_file path 128 w of
           (Inl _, w) \<Rightarrow> (''worker'', w)
         | (Inr b, w) \<Rightarrow>
             (let n = take (MAX_PROFILE_NAME - 1)
                    (takeWhile (\<lambda>c. c \<noteq> NL \<and> c \<noteq> SP \<and> c \<noteq> TAB) (cstr b))
              in (if n = [] then ''worker'' else n, w))))"

definition profile_load_for_agent ::
  "(string \<Rightarrow> string option) \<Rightarrow> string \<Rightarrow> profile_cfg \<Rightarrow> world \<Rightarrow> profile_cfg \<times> world" where
  "profile_load_for_agent getenv agent out w =
     (let (name, w) = agent_profile_name agent w;
          ((ok, out), w) = profile_load_by_name getenv name out w;
          out = (if ok then out else (set_builtin_defaults out)\<lparr>profile_name := name\<rparr>)
      in case agent_path MAX_PATHBUF agent ''config'' w of
           (Inl _, w) \<Rightarrow> (out, w)
         | (Inr path, w) \<Rightarrow> (case read_small_file path MAX_PROFILE_RAW w of
               (Inl _, w) \<Rightarrow> (out, w)
             | (Inr b, w) \<Rightarrow> (parse_lines b out, w)))"

text \<open>Enumeration: the names reported, in order; the sixteen first are remembered.\<close>

definition profile_entry :: "string \<Rightarrow> string option" where
  "profile_entry e = (let l = length e in
     if starts_with ''.'' e \<or> l \<le> 8 \<or> drop (l - 8) e \<noteq> ''.profile'' \<or> l - 8 \<ge> MAX_PROFILE_NAME then None
     else Some (take (l - 8) e))"

fun list_entries :: "string list \<Rightarrow> string list \<times> string list \<Rightarrow> string list \<times> string list" where
  "list_entries [] st = st"
| "list_entries (e # es) (seen, out) = (case profile_entry e of
       None \<Rightarrow> list_entries es (seen, out)
     | Some n \<Rightarrow>
         if n \<in> set seen then list_entries es (seen, out)
         else list_entries es (if length seen < 16 then seen @ [n] else seen, out @ [n]))"

fun list_dirs :: "string list \<Rightarrow> string list \<times> string list \<Rightarrow> world \<Rightarrow> (string list \<times> string list) \<times> world" where
  "list_dirs [] st w = (st, w)"
| "list_dirs (d # ds) st w = (case sys_opendir d w of
       (Inl _, w) \<Rightarrow> list_dirs ds st w
     | (Inr es, w) \<Rightarrow> list_dirs ds (list_entries es st) w)"

definition profile_list :: "(string \<Rightarrow> string option) \<Rightarrow> world \<Rightarrow> string list \<times> world" where
  "profile_list getenv w = (let ((seen, out), w) = list_dirs (collect_search_paths getenv) ([], []) w in (out, w))"

text \<open>Artifacts.\<close>

definition validate_path_component :: "nat \<Rightarrow> string \<Rightarrow> bool" where
  "validate_path_component max_len v \<longleftrightarrow>
     v \<noteq> [] \<and> length v \<le> max_len \<and> hd v \<noteq> CHR ''.'' \<and> list_all name_char v"

definition valid_artifact_name :: "string \<Rightarrow> bool" where
  "valid_artifact_name name = validate_path_component 127 name"

definition timestamp_utc :: "world \<Rightarrow> string" where
  "timestamp_utc w = stamp_basic (gmtime_r (now w))"

definition split_stem_ext :: "nat \<Rightarrow> nat \<Rightarrow> string \<Rightarrow> (string \<times> string) option" where
  "split_stem_ext sn en base = (case split_last (CHR ''.'') base of
       Some (stem, e) \<Rightarrow>
         if stem \<noteq> [] then
           (if length stem \<ge> sn \<or> length (CHR ''.'' # e) \<ge> en then None else Some (stem, CHR ''.'' # e))
         else if length base \<ge> sn then None else Some (base, [])
     | None \<Rightarrow> if length base \<ge> sn then None else Some (base, []))"

definition artifact_rel :: "string \<Rightarrow> errno + string" where
  "artifact_rel f = fit 256 (''artifacts/'' @ f)"

text \<open>
  The artifact write shared by agents and tasks: \<open>resolve\<close> turns the name relative to the
  artifact owner into a path.
\<close>

definition append_artifact :: "string \<Rightarrow> string \<Rightarrow> unit io" where
  "append_artifact path buf w =
     (case append_file path ([NL] @ ''----- '' @ timestamp_utc w @ '' -----'' @ [NL]) 384 w of
        (Inl e, w) \<Rightarrow> (Inl e, w)
      | (Inr _, w) \<Rightarrow> append_file path buf 384 w)"

definition write_artifact :: "string \<Rightarrow> string \<Rightarrow> string \<Rightarrow> artifact_policy \<Rightarrow> unit io" where
  "write_artifact agent base buf policy w =
     (if \<not> valid_artifact_name base then (Inl EINVAL, w)
      else (case policy of
          ARTIFACT_OVERWRITE \<Rightarrow> (case artifact_rel base of
              Inl e \<Rightarrow> (Inl e, w)
            | Inr rel \<Rightarrow> with_path agent rel (\<lambda>p. atomic_write_file p buf 384) w)
        | ARTIFACT_VERSIONED \<Rightarrow> (case split_stem_ext 128 32 base of
              None \<Rightarrow> (Inl ENAMETOOLONG, w)
            | Some (stem, ext) \<Rightarrow> (case artifact_rel (stem @ ''-'' @ timestamp_utc w @ ext) of
                  Inl e \<Rightarrow> (Inl e, w)
                | Inr rel \<Rightarrow> with_path agent rel (\<lambda>p. atomic_write_file p buf 384) w))
        | ARTIFACT_APPEND_ONLY \<Rightarrow> (case artifact_rel base of
              Inl e \<Rightarrow> (Inl e, w)
            | Inr rel \<Rightarrow> with_path agent rel (\<lambda>p. append_artifact p buf) w)))"

text \<open>Upsert of \<open>kv\<close> (a text \<open>KEY=VALUE\<close>) into the lines of a file.\<close>

definition kv_match :: "nat \<Rightarrow> string \<Rightarrow> string \<Rightarrow> bool" where
  "kv_match keylen kv l \<longleftrightarrow> length l > keylen \<and> l ! keylen = CHR ''='' \<and> take keylen l = take keylen kv"

fun kv_lines :: "nat \<Rightarrow> string \<Rightarrow> string list \<Rightarrow> string \<times> bool \<Rightarrow> errno + string \<times> bool" where
  "kv_lines keylen kv [] st = Inr st"
| "kv_lines keylen kv (l # ls) (neu, replaced) =
     (if kv_match keylen kv l then
        (if length kv + 1 \<ge> 4096 - length neu then Inl ENAMETOOLONG
         else kv_lines keylen kv ls (neu @ kv @ [NL], True))
      else if l \<noteq> [] then
        (if length neu + length l + 1 \<ge> 4096 then Inl ENAMETOOLONG
         else kv_lines keylen kv ls (neu @ l @ [NL], replaced))
      else kv_lines keylen kv ls (neu, replaced))"

definition kv_upsert :: "string \<Rightarrow> string \<Rightarrow> errno + string" where
  "kv_upsert old kv = (case split_at (CHR ''='') kv of
       (key, None) \<Rightarrow> Inl EINVAL
     | (key, Some _) \<Rightarrow>
         if key = [] then Inl EINVAL
         else (case kv_lines (length key) kv (c_lines (cstr old)) ([], False) of
             Inl e \<Rightarrow> Inl e
           | Inr (neu, True) \<Rightarrow> Inr neu
           | Inr (neu, False) \<Rightarrow>
               if length kv + 1 \<ge> 4096 - length neu then Inl ENAMETOOLONG else Inr (neu @ kv @ [NL])))"

definition kv_file_set :: "string \<Rightarrow> string \<Rightarrow> unit io" where
  "kv_file_set path kv w =
     (case split_at (CHR ''='') kv of
        (_, None) \<Rightarrow> (Inl EINVAL, w)
      | ([], _) \<Rightarrow> (Inl EINVAL, w)
      | _ \<Rightarrow>
         (let (old, w) = (case sys_open path [O_RDONLY, O_CLOEXEC] 0 w of
                (Inl _, w) \<Rightarrow> ([], w)
              | (Inr fd, w) \<Rightarrow> (let (r, w) = sys_read fd 4095 w; w = snd (sys_close fd w)
                  in (case r of Inl _ \<Rightarrow> [] | Inr b \<Rightarrow> b, w)))
          in case kv_upsert old kv of
               Inl e \<Rightarrow> (Inl e, w)
             | Inr neu \<Rightarrow> atomic_write_file path neu 384 w))"

section \<open>Names\<close>

lemma parse_dispatch_name [simp]: "parse_dispatch (dispatch_name m) = m"
  by (cases m) (simp_all add: parse_dispatch_def)

lemma parse_artifact_policy_name [simp]: "parse_artifact_policy (artifact_policy_name p) = p"
  by (cases p) (simp_all add: parse_artifact_policy_def)

interpretation dispatch_codec: codec dispatch_name "\<lambda>s. Some (parse_dispatch s)" "\<lambda>_. True"
  by unfold_locales simp

interpretation artifact_codec: codec artifact_policy_name "\<lambda>s. Some (parse_artifact_policy s)" "\<lambda>_. True"
  by unfold_locales simp

interpretation artifact_name: path_component valid_artifact_name
  by unfold_locales (auto simp: valid_artifact_name_def validate_path_component_def list_all_iff)

section \<open>The effective configuration\<close>

text \<open>What every load establishes, whatever the files contain.\<close>

definition cfg_ok :: "profile_cfg \<Rightarrow> bool" where
  "cfg_ok c \<longleftrightarrow> 0 \<le> idle_timeout_sec c \<and> idle_timeout_sec c \<le> 86400 \<and> length (profile_name c) < MAX_PROFILE_NAME"

lemma clamp_idle_range: "0 \<le> clamp_idle t \<and> clamp_idle t \<le> 86400"
  by (simp add: clamp_idle_def Let_def)

lemma apply_kv_ok: "cfg_ok c \<Longrightarrow> cfg_ok (apply_kv k v c)"
  using clamp_idle_range by (simp add: apply_kv_def cfg_ok_def Let_def)

lemma parse_line_ok: "cfg_ok c \<Longrightarrow> cfg_ok (parse_line l c)"
  by (simp add: parse_line_def apply_kv_ok split: option.split)

lemma fold_parse_line_ok: "cfg_ok c \<Longrightarrow> cfg_ok (fold parse_line ls c)"
  by (induction ls arbitrary: c) (simp_all add: parse_line_ok)

lemma parse_lines_ok: "cfg_ok c \<Longrightarrow> cfg_ok (parse_lines b c)"
  by (simp add: parse_lines_def fold_parse_line_ok)

lemma snprintf_trunc_length: "0 < n \<Longrightarrow> length (snprintf_trunc n s) < n"
  by (simp add: snprintf_trunc_def)

lemma builtin_ok: "length name < MAX_PROFILE_NAME \<Longrightarrow> cfg_ok ((set_builtin_defaults c)\<lparr>profile_name := name\<rparr>)"
  by (simp add: cfg_ok_def set_builtin_defaults_def)

lemma load_by_name_ok:
  "profile_load_by_name g name out w = ((ok, cfg), w') \<Longrightarrow> cfg_ok cfg"
proof -
  let ?c = "(set_builtin_defaults out)\<lparr>profile_name := snprintf_trunc MAX_PROFILE_NAME name\<rparr>"
  have c: "cfg_ok ?c" by (rule builtin_ok) (simp add: snprintf_trunc_length MAX_PROFILE_NAME_def MAX_NAME_def)
  then have "cfg_ok (?c\<lparr>raw := r\<rparr>)" for r by (simp add: cfg_ok_def)
  then show "profile_load_by_name g name out w = ((ok, cfg), w') \<Longrightarrow> cfg_ok cfg"
    using c parse_lines_ok by (auto simp: profile_load_by_name_def Let_def split: prod.splits sum.splits)
qed

lemma agent_profile_name_length: "agent_profile_name a w = (n, w') \<Longrightarrow> length n < MAX_PROFILE_NAME"
  by (auto simp: agent_profile_name_def Let_def MAX_PROFILE_NAME_def MAX_NAME_def
      split: prod.splits sum.splits if_splits)

section \<open>Upsert\<close>

text \<open>The reference: every line with the key becomes \<open>kv\<close>, blank lines go, \<open>kv\<close> is added if absent.\<close>

definition kv_spec :: "nat \<Rightarrow> string \<Rightarrow> string list \<Rightarrow> string list" where
  "kv_spec keylen kv ls =
     map (\<lambda>l. if kv_match keylen kv l then kv else l) (filter (\<lambda>l. l \<noteq> []) ls) @
     (if list_ex (kv_match keylen kv) ls then [] else [kv])"

definition unlines :: "string list \<Rightarrow> string" where
  "unlines ls = concat (map (\<lambda>l. l @ [NL]) ls)"

lemma unlines_simps [simp]:
  "unlines [] = []" "unlines (l # ls) = l @ [NL] @ unlines ls" "unlines (a @ b) = unlines a @ unlines b"
  by (simp_all add: unlines_def)

definition kv_body :: "nat \<Rightarrow> string \<Rightarrow> string list \<Rightarrow> string" where
  "kv_body keylen kv ls = unlines (map (\<lambda>l. if kv_match keylen kv l then kv else l) (filter (\<lambda>l. l \<noteq> []) ls))"

lemma kv_body_simps:
  "kv_body n kv [] = []"
  "kv_body n kv (l # ls) = (if kv_match n kv l then kv @ [NL] else if l = [] then [] else l @ [NL]) @ kv_body n kv ls"
  by (auto simp: kv_body_def kv_match_def)

lemma kv_lines_spec:
  "length neu < 4096 \<Longrightarrow> kv_lines n kv ls (neu, r) =
     (if length (neu @ kv_body n kv ls) \<ge> 4096 then Inl ENAMETOOLONG
      else Inr (neu @ kv_body n kv ls, r \<or> list_ex (kv_match n kv) ls))"
  by (induction ls arbitrary: neu r) (auto simp: kv_body_simps)

lemma kv_upsert_spec:
  assumes "split_at (CHR ''='') kv = (key, Some v)" "key \<noteq> []"
  shows "kv_upsert old kv =
     (if length (unlines (kv_spec (length key) kv (c_lines (cstr old)))) \<ge> 4096 then Inl ENAMETOOLONG
      else Inr (unlines (kv_spec (length key) kv (c_lines (cstr old)))))"
  using assms by (auto simp: kv_upsert_def kv_lines_spec kv_spec_def kv_body_def split: bool.splits)

lemma kv_match_self: "split_at (CHR ''='') kv = (key, Some v) \<Longrightarrow> kv_match (length key) kv kv"
  by (drule split_at_SomeD) (simp add: kv_match_def)

lemma kv_spec_idem:
  assumes "split_at (CHR ''='') kv = (key, Some v)"
  shows "kv_spec (length key) kv (kv_spec (length key) kv ls) = kv_spec (length key) kv ls"
proof -
  let ?f = "\<lambda>l. if kv_match (length key) kv l then kv else l"
  let ?ls = "filter (\<lambda>l. l \<noteq> []) ls"
  have s: "kv_match (length key) kv kv" by (rule kv_match_self [OF assms])
  then have k: "kv \<noteq> []" by (auto simp: kv_match_def)
  have ff: "map ?f (map ?f ?ls) = map ?f ?ls" using s by simp
  have ne: "filter (\<lambda>l. l \<noteq> []) (map ?f ?ls) = map ?f ?ls" using k by (auto simp: filter_id_conv)
  have ex: "list_ex (kv_match (length key) kv) (kv_spec (length key) kv ls)"
    using s by (fastforce simp: kv_spec_def list_ex_iff kv_match_def)
  show ?thesis
    using ex s k ff ne by (simp add: kv_spec_def [of _ _ "kv_spec _ _ _"]) (simp add: kv_spec_def)
qed

section \<open>Properties\<close>



text \<open>
  C16. Whatever the profile and configuration files contain, and whatever the structure held
  before, the configuration an agent is started with has an idle timeout between zero and a
  day and a profile name that fits its buffer.
\<close>

theorem profile_load_bounds: "cfg_ok (fst (profile_load_for_agent g agent out w))"
proof -
  obtain name w1 where n: "agent_profile_name agent w = (name, w1)" by fastforce
  obtain ok c w2 where l: "profile_load_by_name g name out w1 = ((ok, c), w2)" by (metis surj_pair)
  have "cfg_ok (if ok then c else (set_builtin_defaults c)\<lparr>profile_name := name\<rparr>)"
    using load_by_name_ok [OF l] builtin_ok agent_profile_name_length [OF n] by simp
  with parse_lines_ok show ?thesis
    by (auto simp: profile_load_for_agent_def n l Let_def split: prod.splits sum.splits)
qed

text \<open>
  C17. When neither the profile file nor the agent's configuration can be read, the loader
  leaves the enforcement switches and the resource limits at whatever the caller's structure
  held: the built-in defaults do not set them.
\<close>

theorem profile_load_keeps_garbage:
  assumes "agent_profile_name agent w = (name, w1)"
    and "profile_read_raw g name MAX_PROFILE_RAW w1 = (Inl e, w2)"
    and "with_path agent ''config'' (\<lambda>p. read_small_file p MAX_PROFILE_RAW) w2 = (Inl e', w3)"
    and "profile_load_for_agent g agent out w = (cfg, w')"
  shows "enforce_fs cfg = enforce_fs out \<and> seccomp cfg = seccomp out \<and> cgroup cfg = cgroup out \<and>
    cgroup_memory_max cfg = cgroup_memory_max out \<and> cgroup_pids_max cfg = cgroup_pids_max out \<and>
    cgroup_cpu_max cfg = cgroup_cpu_max out"
  using assms
  by (auto simp: profile_load_for_agent_def profile_load_by_name_def with_path_def Let_def
      set_builtin_defaults_def split: prod.splits sum.splits if_splits)

theorem profile_load_keeps_garbage_witness:
  "\<exists>cfg w'. profile_load_for_agent (\<lambda>_. None) [] \<lparr>profile_name = ''x'', dispatch = DISPATCH_PERSISTENT,
      artifact_pol = ARTIFACT_OVERWRITE, idle_timeout_sec = 7, enforce_fs = True, seccomp = False,
      cgroup = False, cgroup_memory_max = 3, cgroup_pids_max = 0, cgroup_cpu_max = [], raw = []\<rparr> world0 = (cfg, w') \<and>
    enforce_fs cfg \<and> cgroup_memory_max cfg = 3"
proof -
  let ?out = "\<lparr>profile_name = ''x'', dispatch = DISPATCH_PERSISTENT,
      artifact_pol = ARTIFACT_OVERWRITE, idle_timeout_sec = 7, enforce_fs = True, seccomp = False,
      cgroup = False, cgroup_memory_max = 3, cgroup_pids_max = 0, cgroup_cpu_max = [], raw = []\<rparr>"
  obtain cfg w' where r: "profile_load_for_agent (\<lambda>_. None) [] ?out world0 = (cfg, w')" by fastforce
  have "agent_profile_name [] world0 = (''worker'', world0)" by code_simp
  moreover have "profile_read_raw (\<lambda>_. None) ''worker'' MAX_PROFILE_RAW world0 = (Inl ENOENT, world0)" by code_simp
  moreover have "with_path [] ''config'' (\<lambda>p. read_small_file p MAX_PROFILE_RAW) world0 = (Inl EINVAL, world0)" by code_simp
  ultimately show ?thesis using profile_load_keeps_garbage [OF _ _ _ r] r by auto
qed

end
