(* ===== verification/Enforcement.thy ===== *)
theory Enforcement
  imports Profiles "HOL-Library.Word"
begin

text \<open>
  Enforcement (\<open>src/enforcement.c\<close>): the request and state files, the capability lines that
  widen an agent's file access, the control group, the Landlock rules and the seccomp
  filter of a child, and the Linux and the other variant of the three entry points.

  The answers of the kernel to the calls only this component makes are collected in a
  \<open>kernel\<close> record, an argument of the definitions. A Landlock access mask is the list of
  its rights. The seccomp filter is the list of its instructions, with an interpreter for
  the instructions it uses; the numbers of the system calls are an argument, undefined
  for a call the architecture does not have. \<open>open(O_PATH)\<close> followed by \<open>close\<close> is a lookup.
\<close>

section \<open>Definitions\<close>

datatype enforce_fs_mode = ENFORCE_FS_OFF | ENFORCE_FS_LANDLOCK
datatype seccomp_mode = SECCOMP_OFF | SECCOMP_MINIMAL
datatype enf_status = ENF_STATUS_INACTIVE | ENF_STATUS_ACTIVE | ENF_STATUS_UNAVAILABLE

record enforcement_spec =
  fs_mode :: enforce_fs_mode
  sc_mode :: seccomp_mode
  cgroup_on :: bool
  cg_memory_max :: int
  cg_pids_max :: int
  cg_cpu_max :: string

record enforcement_state =
  landlock_status :: enf_status
  landlock_rules :: int
  seccomp_status :: enf_status
  cgroup_status :: enf_status
  cgroup_path :: string
  reason :: string

definition enforce_fs_name :: "enforce_fs_mode \<Rightarrow> string" where
  "enforce_fs_name m = (if m = ENFORCE_FS_LANDLOCK then ''landlock'' else ''off'')"

definition seccomp_mode_name :: "seccomp_mode \<Rightarrow> string" where
  "seccomp_mode_name m = (if m = SECCOMP_MINIMAL then ''minimal'' else ''off'')"

fun enforce_status_word :: "enf_status \<Rightarrow> string" where
  "enforce_status_word ENF_STATUS_ACTIVE = ''active''"
| "enforce_status_word ENF_STATUS_INACTIVE = ''inactive''"
| "enforce_status_word ENF_STATUS_UNAVAILABLE = ''unavailable''"

text \<open>The parameter of a line \<open>allow <verb>:<param>\<close>.\<close>

definition allow_param :: "string \<Rightarrow> string \<Rightarrow> string option" where
  "allow_param verb l = (let line = dropWhile is_blank l in
     if length line > 5 \<and> starts_with ''allow '' line then
       (let kw = dropWhile is_blank (drop 6 line); vlen = length verb in
        if length kw > vlen \<and> take vlen kw = verb \<and> kw ! vlen = CHR '':'' then
          (let v = rstrip is_blank_cr (drop (vlen + 1) kw) in
           if v \<noteq> [] \<and> length v < 4096 then Some v else None)
        else None)
     else None)"

definition iter_allow_with_verb :: "string \<Rightarrow> string \<Rightarrow> string list" where
  "iter_allow_with_verb caps_text verb = List.map_filter (allow_param verb) (c_lines (cstr caps_text))"

text \<open>The request and state files.\<close>

definition dash :: "string \<Rightarrow> string" where
  "dash s = (if s \<noteq> [] then s else ''-'')"

definition req_text :: "enforcement_spec \<Rightarrow> string" where
  "req_text spec =
     ''enforce_fs='' @ enforce_fs_name (fs_mode spec) @ [NL] @
     ''seccomp='' @ seccomp_mode_name (sc_mode spec) @ [NL] @
     ''cgroup='' @ (if cgroup_on spec then ''on'' else ''off'') @ [NL] @
     ''cgroup_memory_max='' @ dec_int (cg_memory_max spec) @ [NL] @
     ''cgroup_pids_max='' @ dec_int (cg_pids_max spec) @ [NL] @
     ''cgroup_cpu_max='' @ dash (cg_cpu_max spec) @ [NL]"

definition enforcement_write_req :: "string \<Rightarrow> enforcement_spec \<Rightarrow> unit io" where
  "enforcement_write_req agent spec = with_path agent ''enforcement.req'' (\<lambda>path w.
     if length (req_text spec) \<ge> 512 then (Inl ENAMETOOLONG, w)
     else atomic_write_file path (req_text spec) 384 w)"

definition state_lines :: "enforcement_state \<Rightarrow> (string \<times> string) list" where
  "state_lines st =
     [(''landlock_status'', enforce_status_word (landlock_status st)),
      (''landlock_rules'', dec_int (landlock_rules st)),
      (''seccomp_status'', enforce_status_word (seccomp_status st)),
      (''cgroup_status'', enforce_status_word (cgroup_status st)),
      (''cgroup_path'', dash (cgroup_path st)),
      (''reason'', dash (reason st))]"

definition kv_text :: "(string \<times> string) list \<Rightarrow> string" where
  "kv_text kvs = concat (map (\<lambda>(k, v). k @ ''='' @ v @ [NL]) kvs)"

definition write_state_file :: "string \<Rightarrow> enforcement_state \<Rightarrow> unit io" where
  "write_state_file agent st = with_path agent ''enforcement.applied'' (\<lambda>path w.
     if length (kv_text (state_lines st)) \<ge> 1024 then (Inl ENAMETOOLONG, w)
     else atomic_write_file path (kv_text (state_lines st)) 384 w)"

definition state0 :: enforcement_state where
  "state0 = \<lparr>landlock_status = ENF_STATUS_INACTIVE, landlock_rules = 0, seccomp_status = ENF_STATUS_INACTIVE,
     cgroup_status = ENF_STATUS_INACTIVE, cgroup_path = [], reason = []\<rparr>"

definition parse_status :: "string \<Rightarrow> enf_status \<Rightarrow> enf_status" where
  "parse_status v old = (if v = ''active'' then ENF_STATUS_ACTIVE
     else if v = ''unavailable'' then ENF_STATUS_UNAVAILABLE else old)"

definition state_line :: "string \<Rightarrow> enforcement_state \<Rightarrow> enforcement_state" where
  "state_line l st = (case split_at (CHR ''='') l of
       (_, None) \<Rightarrow> st
     | (k, Some v) \<Rightarrow>
         if k = ''landlock_status'' then st\<lparr>landlock_status := parse_status v (landlock_status st)\<rparr>
         else if k = ''landlock_rules'' then st\<lparr>landlock_rules := atoi v\<rparr>
         else if k = ''seccomp_status'' then st\<lparr>seccomp_status := parse_status v (seccomp_status st)\<rparr>
         else if k = ''cgroup_status'' then st\<lparr>cgroup_status := parse_status v (cgroup_status st)\<rparr>
         else if k = ''cgroup_path'' then
           (if v \<noteq> ''-'' then st\<lparr>cgroup_path := snprintf_trunc 256 v\<rparr> else st)
         else if k = ''reason'' then
           (if v \<noteq> ''-'' then st\<lparr>reason := snprintf_trunc 256 v\<rparr> else st)
         else st)"

definition state_of_file :: "string \<Rightarrow> enforcement_state" where
  "state_of_file b = fold state_line (c_lines (cstr b)) state0"

definition enforcement_read_state :: "string \<Rightarrow> enforcement_state io" where
  "enforcement_read_state agent = with_path agent ''enforcement.applied'' (\<lambda>path w.
     case read_small_file path 1024 w of
       (Inl e, w) \<Rightarrow> (Inl e, w)
     | (Inr b, w) \<Rightarrow> (Inr (state_of_file b), w))"

definition reason_or :: "enforcement_state \<Rightarrow> string" where
  "reason_or st = (if reason st \<noteq> [] then reason st else ''?'')"

definition audit_lines :: "enforcement_state \<Rightarrow> string list" where
  "audit_lines st =
     (if landlock_status st = ENF_STATUS_ACTIVE
        then [''landlock active rules='' @ dec_int (landlock_rules st)]
      else if landlock_status st = ENF_STATUS_UNAVAILABLE
        then [''landlock unavailable: '' @ reason_or st] else []) @
     (if seccomp_status st = ENF_STATUS_ACTIVE then [''seccomp minimal active'']
      else if seccomp_status st = ENF_STATUS_UNAVAILABLE
        then [''seccomp unavailable: '' @ reason_or st] else []) @
     (if cgroup_status st = ENF_STATUS_ACTIVE then [''cgroup active path='' @ cgroup_path st] else [])"

definition audit_all :: "string \<Rightarrow> string list \<Rightarrow> world \<Rightarrow> world" where
  "audit_all agent ls w = fold (\<lambda>l w. snd (audit_log agent l w)) ls w"

definition enforcement_audit_status :: "string \<Rightarrow> world \<Rightarrow> world" where
  "enforcement_audit_status agent w = (case enforcement_read_state agent w of
       (Inl _, w) \<Rightarrow> w | (Inr st, w) \<Rightarrow> audit_all agent (audit_lines st) w)"

text \<open>Control groups.\<close>

definition write_str :: "string \<Rightarrow> string \<Rightarrow> unit io" where
  "write_str path val w = (case sys_open path [O_WRONLY, O_CLOEXEC] 0 w of
       (Inl e, w) \<Rightarrow> (Inl e, w)
     | (Inr fd, w) \<Rightarrow> (case sys_write fd val w of
           (Inl e, w) \<Rightarrow> (Inl e, snd (sys_close fd w))
         | (Inr k, w) \<Rightarrow> (if k \<noteq> length val then Inl E0 else Inr (), snd (sys_close fd w))))"

definition mkdir_ok :: "string \<Rightarrow> nat \<Rightarrow> unit io" where
  "mkdir_ok p m w = (case sys_mkdir p m w of
       (Inr _, w) \<Rightarrow> (Inr (), w) | (Inl e, w) \<Rightarrow> (if e = EEXIST then Inr () else Inl e, w))"

definition because :: "string \<Rightarrow> enforcement_state \<Rightarrow> enforcement_state" where
  "because msg st = st\<lparr>reason := snprintf_trunc 256 msg\<rparr>"

text \<open>One limit file of the group; a failure is only remembered as the reason.\<close>

definition cgroup_limit :: "(errno \<Rightarrow> string) \<Rightarrow> string \<Rightarrow> string \<Rightarrow> string \<Rightarrow>
    enforcement_state \<times> world \<Rightarrow> enforcement_state \<times> world" where
  "cgroup_limit strerror dir leaf val = (\<lambda>(st, w). case write_str (snprintf_trunc 512 (join dir leaf)) val w of
       (Inl e, w) \<Rightarrow> (because (leaf @ '': '' @ strerror e) st, w)
     | (Inr _, w) \<Rightarrow> (st, w))"

definition slash_to_space :: "string \<Rightarrow> string" where
  "slash_to_space s = (case split_at (CHR ''/'') s of
       (a, Some b) \<Rightarrow> a @ '' '' @ b | (a, None) \<Rightarrow> a)"

definition cgroup_setup_linux :: "(errno \<Rightarrow> string) \<Rightarrow> string \<Rightarrow> enforcement_spec \<Rightarrow> enforcement_state \<Rightarrow>
    world \<Rightarrow> ((errno + unit) \<times> enforcement_state) \<times> world" where
  "cgroup_setup_linux strerror agent spec st w =
     (let dir = ''/sys/fs/cgroup/agents/'' @ agent in
      if length dir \<ge> 256 then ((Inl ENAMETOOLONG, st), w)
      else (case mkdir_ok ''/sys/fs/cgroup/agents'' 493 w of
          (Inl e, w) \<Rightarrow> ((Inl e, (because (''mkdir /sys/fs/cgroup/agents: '' @ strerror e) st)
              \<lparr>cgroup_status := ENF_STATUS_UNAVAILABLE\<rparr>), w)
        | (Inr _, w) \<Rightarrow> (case mkdir_ok dir 493 w of
          (Inl e, w) \<Rightarrow> ((Inl e, (because (''cgroup mkdir: '' @ take 220 (strerror e)) st)
              \<lparr>cgroup_status := ENF_STATUS_UNAVAILABLE\<rparr>), w)
        | (Inr _, w) \<Rightarrow>
            (let s = (st\<lparr>cgroup_path := dir\<rparr>, w);
                 s = (if cg_memory_max spec > 0 then
                        cgroup_limit strerror dir ''memory.max'' (dec_int (cg_memory_max spec)) s else s);
                 s = (if cg_pids_max spec > 0 then
                        cgroup_limit strerror dir ''pids.max'' (dec_int (cg_pids_max spec)) s else s);
                 (st, w) = (if cg_cpu_max spec \<noteq> [] then
                        cgroup_limit strerror dir ''cpu.max'' (slash_to_space (snprintf_trunc 64 (cg_cpu_max spec))) s
                      else s)
             in ((Inr (), st\<lparr>cgroup_status := ENF_STATUS_ACTIVE\<rparr>), w)))))"

definition cgroup_attach_pid_linux :: "enforcement_state \<Rightarrow> int \<Rightarrow> unit io" where
  "cgroup_attach_pid_linux st pid w = (if cgroup_status st \<noteq> ENF_STATUS_ACTIVE then (Inr (), w)
     else write_str (snprintf_trunc 512 (join (cgroup_path st) ''cgroup.procs'')) (dec_int pid) w)"

text \<open>Landlock.\<close>

datatype access_right = LL_EXECUTE | LL_WRITE_FILE | LL_READ_FILE | LL_READ_DIR | LL_REMOVE_DIR | LL_REMOVE_FILE
  | LL_MAKE_CHAR | LL_MAKE_DIR | LL_MAKE_REG | LL_MAKE_SOCK | LL_MAKE_FIFO | LL_MAKE_BLOCK | LL_MAKE_SYM | LL_REFER

record kernel =
  k_abi :: "errno + nat"
  k_ruleset :: "errno + unit"
  k_add_rule :: "string \<Rightarrow> bool"
  k_nnp :: "errno + unit"
  k_restrict :: "errno + unit"
  k_seccomp :: "errno + unit"

type_synonym ruleset = "(string \<times> access_right list) list"

definition read_mask :: "access_right list" where
  "read_mask = [LL_READ_FILE, LL_READ_DIR]"

definition execute_mask :: "access_right list" where
  "execute_mask = [LL_EXECUTE]"

definition write_mask :: "nat \<Rightarrow> access_right list" where
  "write_mask abi = [LL_WRITE_FILE, LL_REMOVE_FILE, LL_REMOVE_DIR, LL_MAKE_REG, LL_MAKE_DIR, LL_MAKE_SOCK,
     LL_MAKE_FIFO, LL_MAKE_BLOCK, LL_MAKE_CHAR, LL_MAKE_SYM] @ (if abi \<ge> 2 then [LL_REFER] else [])"

text \<open>One rule: the path is opened, then offered to the kernel; failures are passed over.\<close>

definition add_path_rule :: "kernel \<Rightarrow> string \<times> access_right list \<Rightarrow> ruleset \<times> world \<Rightarrow> ruleset \<times> world" where
  "add_path_rule k pa = (\<lambda>(rs, w). case sys_stat (fst pa) w of
       (Inl _, w) \<Rightarrow> (rs, w)
     | (Inr _, w) \<Rightarrow> (if k_add_rule k (fst pa) then rs @ [pa] else rs, w))"

text \<open>The directory of the runtime: what precedes its last slash, or the root.\<close>

definition runtime_dir_of :: "string \<Rightarrow> string option" where
  "runtime_dir_of runtime_path = (if runtime_path = [] then None
     else (case split_last (CHR ''/'') (snprintf_trunc MAX_PATHBUF runtime_path) of
         None \<Rightarrow> None | Some (d, _) \<Rightarrow> Some (if d = [] then ''/'' else d)))"

definition own_rule :: "errno + string \<Rightarrow> access_right list \<Rightarrow> ruleset" where
  "own_rule d a = (case d of Inl _ \<Rightarrow> [] | Inr p \<Rightarrow> [(p, a)])"

definition wanted_rules :: "nat \<Rightarrow> string \<Rightarrow> string \<Rightarrow> string \<Rightarrow> world \<Rightarrow> ruleset" where
  "wanted_rules abi agent runtime_path caps_text w =
     map (\<lambda>p. (p, read_mask)) [''/etc'', ''/proc'', ''/dev/null'', ''/dev/urandom''] @
     map (\<lambda>p. (p, read_mask @ execute_mask)) [''/usr'', ''/lib'', ''/lib64''] @
     (case runtime_dir_of runtime_path of None \<Rightarrow> [] | Some d \<Rightarrow> [(d, read_mask @ execute_mask)]) @
     own_rule (agent_config_dir agent w) read_mask @
     own_rule (agent_runtime_dir agent w) (read_mask @ write_mask abi) @
     own_rule (agent_data_dir agent w) (read_mask @ write_mask abi) @
     map (\<lambda>p. (p, read_mask)) (iter_allow_with_verb caps_text ''fs.read'') @
     map (\<lambda>p. (p, read_mask @ write_mask abi)) (iter_allow_with_verb caps_text ''fs.write'')"

definition unavailable :: "string \<Rightarrow> enforcement_state \<Rightarrow> enforcement_state" where
  "unavailable msg st = (because msg st)\<lparr>landlock_status := ENF_STATUS_UNAVAILABLE\<rparr>"

definition landlock_apply_linux :: "(errno \<Rightarrow> string) \<Rightarrow> kernel \<Rightarrow> string \<Rightarrow> string \<Rightarrow> string \<Rightarrow> enforcement_state \<Rightarrow>
    world \<Rightarrow> (ruleset option \<times> enforcement_state) \<times> world" where
  "landlock_apply_linux strerror k agent runtime_path caps_text st w =
     (case k_abi k of
        Inl e \<Rightarrow> ((None, unavailable (''landlock unsupported: '' @ strerror e) st), w)
      | Inr abi \<Rightarrow>
          if abi < 1 then ((None, unavailable (''landlock unsupported: '' @ strerror E0) st), w)
          else (case k_ruleset k of
              Inl e \<Rightarrow> ((None, unavailable (''landlock create_ruleset: '' @ strerror e) st), w)
            | Inr _ \<Rightarrow>
                (let (rs, w) = fold (add_path_rule k) (wanted_rules abi agent runtime_path caps_text w) ([], w)
                 in case k_nnp k of
                      Inl e \<Rightarrow> ((None, unavailable (''PR_SET_NO_NEW_PRIVS: '' @ strerror e) st), w)
                    | Inr _ \<Rightarrow> (case k_restrict k of
                        Inl e \<Rightarrow> ((None, unavailable (''landlock restrict_self: '' @ strerror e) st), w)
                      | Inr _ \<Rightarrow> ((Some rs, st\<lparr>landlock_status := ENF_STATUS_ACTIVE, landlock_rules := int (length rs)\<rparr>), w)))))"

text \<open>The seccomp filter.\<close>

datatype sc_field = F_ARCH | F_NR
datatype verdict = RET_KILL_PROCESS | RET_ALLOW | RET_ERRNO errno
datatype bpf = BPF_LD_ABS sc_field | BPF_JEQ "32 word" nat nat | BPF_RET verdict

record seccomp_data =
  sd_nr :: "32 word"
  sd_arch :: "32 word"

function bpf_run :: "seccomp_data \<Rightarrow> bpf list \<Rightarrow> 32 word \<Rightarrow> verdict option" where
  "bpf_run d [] a = None"
| "bpf_run d (BPF_LD_ABS f # is) a = bpf_run d is (case f of F_ARCH \<Rightarrow> sd_arch d | F_NR \<Rightarrow> sd_nr d)"
| "bpf_run d (BPF_JEQ k jt jf # is) a = bpf_run d (drop (if a = k then jt else jf) is) a"
| "bpf_run d (BPF_RET v # is) a = Some v"
  by pat_completeness auto
termination by (relation "measure (\<lambda>(d, is, a). length is)") auto

definition SC_ALLOW :: "32 word \<Rightarrow> bpf list" where
  "SC_ALLOW nr = [BPF_JEQ nr 0 1, BPF_RET RET_ALLOW]"

text \<open>
  The allowed calls in the order of the filter: a group under a guard is compiled in when
  the architecture has the call the guard names.
\<close>

definition sc_groups :: "(string option \<times> string list) list" where
  "sc_groups =
     [(None, [''read'', ''write'', ''readv'', ''writev'', ''close'', ''lseek'', ''dup'', ''dup3'', ''fcntl'']),
      (Some ''open'', [''open'']), (None, [''openat'']),
      (Some ''stat'', [''stat'', ''lstat'', ''fstat'']),
      (None, [''newfstatat'', ''fstatfs'', ''unlinkat'', ''renameat'', ''renameat2'', ''fchmod'', ''fchmodat'',
         ''truncate'', ''ftruncate'', ''getdents64'', ''readlinkat'', ''faccessat'', ''faccessat2'', ''pipe2'']),
      (Some ''mkdir'', [''mkdir'']), (Some ''unlink'', [''unlink'']), (Some ''rename'', [''rename'']),
      (Some ''chmod'', [''chmod'']), (Some ''readlink'', [''readlink'']), (Some ''access'', [''access'']),
      (Some ''readdir'', [''readdir'']),
      (None, [''ioctl'', ''mmap'', ''munmap'', ''mprotect'', ''brk'', ''madvise'', ''getpid'', ''getppid'', ''gettid'',
         ''getuid'', ''geteuid'', ''getgid'', ''getegid'', ''exit'', ''exit_group'', ''rt_sigaction'',
         ''rt_sigprocmask'', ''rt_sigreturn'']),
      (Some ''sigaltstack'', [''sigaltstack'']),
      (None, [''nanosleep'', ''clock_gettime'', ''clock_nanosleep'']),
      (Some ''gettimeofday'', [''gettimeofday'']), (Some ''poll'', [''poll'']), (None, [''ppoll'']),
      (Some ''select'', [''select'']),
      (None, [''pselect6'', ''socket'', ''socketpair'', ''bind'', ''listen'', ''accept'', ''accept4'', ''connect'',
         ''shutdown'', ''setsockopt'', ''getsockopt'', ''getsockname'', ''getpeername'', ''sendto'', ''recvfrom'',
         ''sendmsg'', ''recvmsg'', ''futex'', ''set_robust_list'', ''get_robust_list'']),
      (Some ''arch_prctl'', [''arch_prctl'']), (None, [''getrandom''])]"

definition sc_numbers :: "(string \<Rightarrow> 32 word option) \<Rightarrow> 32 word list" where
  "sc_numbers nr = concat (map (\<lambda>(g, ns). case g of
       None \<Rightarrow> List.map_filter nr ns
     | Some g \<Rightarrow> if nr g = None then [] else List.map_filter nr ns) sc_groups)"

definition seccomp_filter :: "32 word \<Rightarrow> (string \<Rightarrow> 32 word option) \<Rightarrow> bpf list" where
  "seccomp_filter arch nr =
     [BPF_LD_ABS F_ARCH, BPF_JEQ arch 1 0, BPF_RET RET_KILL_PROCESS, BPF_LD_ABS F_NR] @
     concat (map SC_ALLOW (sc_numbers nr)) @ [BPF_RET (RET_ERRNO EPERM)]"

definition sc_unavailable :: "string \<Rightarrow> enforcement_state \<Rightarrow> enforcement_state" where
  "sc_unavailable msg st = (because msg st)\<lparr>seccomp_status := ENF_STATUS_UNAVAILABLE\<rparr>"

definition seccomp_apply_linux :: "(errno \<Rightarrow> string) \<Rightarrow> kernel \<Rightarrow> 32 word \<Rightarrow> (string \<Rightarrow> 32 word option) \<Rightarrow>
    enforcement_state \<Rightarrow> bpf list option \<times> enforcement_state" where
  "seccomp_apply_linux strerror k arch nr st =
     (if arch = 0 then (None, sc_unavailable ''seccomp arch not supported'' st)
      else (case k_nnp k of
          Inl e \<Rightarrow> (None, sc_unavailable (''PR_SET_NO_NEW_PRIVS: '' @ strerror e) st)
        | Inr _ \<Rightarrow> (case k_seccomp k of
            Inl e \<Rightarrow> (None, sc_unavailable (''PR_SET_SECCOMP: '' @ strerror e) st)
          | Inr _ \<Rightarrow> (Some (seccomp_filter arch nr), st\<lparr>seccomp_status := ENF_STATUS_ACTIVE\<rparr>))))"

text \<open>Entry points on Linux.\<close>

definition enforcement_parent_setup :: "(errno \<Rightarrow> string) \<Rightarrow> string \<Rightarrow> enforcement_spec \<Rightarrow>
    world \<Rightarrow> ((errno + unit) \<times> enforcement_state) \<times> world" where
  "enforcement_parent_setup strerror agent spec w =
     (let (st, w) = (if cgroup_on spec then
            (case cgroup_setup_linux strerror agent spec state0 w of ((_, st), w) \<Rightarrow> (st, w)) else (state0, w));
          (r, w) = write_state_file agent st w
      in ((r, st), w))"

definition enforcement_parent_attach_pid :: "enforcement_state \<Rightarrow> int \<Rightarrow> unit io" where
  "enforcement_parent_attach_pid st pid = cgroup_attach_pid_linux st pid"

record confinement =
  rules :: "ruleset option"
  filter_prog :: "bpf list option"

definition read_policy :: "string \<Rightarrow> world \<Rightarrow> string \<times> world" where
  "read_policy agent w = (case with_path agent ''policy'' (\<lambda>p. read_small_file p 8192) w of
       (Inl _, w) \<Rightarrow> ([], w) | (Inr b, w) \<Rightarrow> (b, w))"

definition enforcement_child_apply :: "(errno \<Rightarrow> string) \<Rightarrow> kernel \<Rightarrow> 32 word \<Rightarrow> (string \<Rightarrow> 32 word option) \<Rightarrow>
    string \<Rightarrow> string \<Rightarrow> enforcement_spec \<Rightarrow> enforcement_state \<Rightarrow> world \<Rightarrow> (confinement \<times> enforcement_state) \<times> world" where
  "enforcement_child_apply strerror k arch nr agent runtime_path spec st w =
     (let (caps, w) = read_policy agent w;
          ((rs, st), w) = (if fs_mode spec = ENFORCE_FS_LANDLOCK
             then landlock_apply_linux strerror k agent runtime_path caps st w else ((None, st), w));
          w = snd (write_state_file agent st w);
          (prog, st) = (if sc_mode spec = SECCOMP_MINIMAL
             then seccomp_apply_linux strerror k arch nr st else (None, st));
          w = snd (write_state_file agent st w)
      in ((\<lparr>rules = rs, filter_prog = prog\<rparr>, st), w))"

text \<open>Entry points elsewhere.\<close>

definition unsupported_state :: "enforcement_spec \<Rightarrow> enforcement_state" where
  "unsupported_state spec = state0
     \<lparr>landlock_status := (if fs_mode spec = ENFORCE_FS_LANDLOCK then ENF_STATUS_UNAVAILABLE else ENF_STATUS_INACTIVE),
      seccomp_status := (if sc_mode spec = SECCOMP_MINIMAL then ENF_STATUS_UNAVAILABLE else ENF_STATUS_INACTIVE),
      cgroup_status := (if cgroup_on spec then ENF_STATUS_UNAVAILABLE else ENF_STATUS_INACTIVE),
      reason := (if fs_mode spec = ENFORCE_FS_LANDLOCK \<or> sc_mode spec = SECCOMP_MINIMAL \<or> cgroup_on spec
        then ''unsupported on this platform'' else [])\<rparr>"

definition enforcement_parent_setup_other :: "string \<Rightarrow> enforcement_spec \<Rightarrow>
    world \<Rightarrow> ((errno + unit) \<times> enforcement_state) \<times> world" where
  "enforcement_parent_setup_other agent spec w =
     (let st = unsupported_state spec; (r, w) = write_state_file agent st w in ((r, st), w))"

definition enforcement_child_apply_other :: "string \<Rightarrow> enforcement_state \<Rightarrow> unit io" where
  "enforcement_child_apply_other agent st = write_state_file agent st"

section \<open>The filter\<close>

lemma bpf_run_allow:
  "bpf_run d (concat (map SC_ALLOW ns) @ [BPF_RET v]) a = Some (if a \<in> set ns then RET_ALLOW else v)"
  by (induction ns) (auto simp: SC_ALLOW_def)

lemma map_filter_mem: "x \<in> set (List.map_filter f xs) \<longleftrightarrow> (\<exists>y \<in> set xs. f y = Some x)"
  by (force simp: List.map_filter_def image_iff)

lemma sc_numbers_named: "x \<in> set (sc_numbers nr) \<Longrightarrow> \<exists>n \<in> \<Union> (set ` snd ` set sc_groups). nr n = Some x"
proof -
  assume "x \<in> set (sc_numbers nr)"
  then obtain gns where g: "gns \<in> set sc_groups" and x: "x \<in> set (case gns of (g, ns) \<Rightarrow> case g of
      None \<Rightarrow> List.map_filter nr ns | Some g \<Rightarrow> if nr g = None then [] else List.map_filter nr ns)"
    unfolding sc_numbers_def set_concat set_map by blast
  obtain g' ns where gns: "gns = (g', ns)" by fastforce
  have "x \<in> set (List.map_filter nr ns)" using x gns by (cases g') (auto split: if_splits)
  then obtain n where "n \<in> set ns" "nr n = Some x" using map_filter_mem by metis
  moreover have "set ns \<in> set ` snd ` set sc_groups" using g gns by force
  ultimately show ?thesis by blast
qed

lemma sc_groups_no_exec: "''execve'' \<notin> \<Union> (set ` snd ` set sc_groups)"
proof -
  have "list_all (\<lambda>(g, ns). ''execve'' \<notin> set ns) sc_groups" by code_simp
  then show ?thesis by (fastforce simp: list_all_iff)
qed

section \<open>The rules\<close>

lemma add_path_rules_wanted:
  "set (fst (fold (add_path_rule k) ps (rs, w))) \<subseteq> set rs \<union> set ps"
proof (induction ps arbitrary: rs w)
  case (Cons p ps)
  obtain rs' w' where s: "add_path_rule k p (rs, w) = (rs', w')" by fastforce
  then have "set rs' \<subseteq> set rs \<union> {p}"
    by (auto simp: add_path_rule_def split: prod.splits sum.splits if_splits)
  with Cons.IH [of rs' w'] s show ?case by auto
qed simp

definition write_rights :: "access_right list" where
  "write_rights = write_mask 2"

lemma masks:
  "set read_mask \<inter> set write_rights = {}" "set execute_mask \<inter> set write_rights = {}"
  "LL_EXECUTE \<notin> set read_mask" "LL_EXECUTE \<notin> set (write_mask abi)"
  by (simp_all add: read_mask_def execute_mask_def write_rights_def write_mask_def)

lemma wanted_write:
  assumes "(p, a) \<in> set (wanted_rules abi agent rt caps w)" "set a \<inter> set write_rights \<noteq> {}"
  shows "agent_runtime_dir agent w = Inr p \<or> agent_data_dir agent w = Inr p \<or>
    p \<in> set (iter_allow_with_verb caps ''fs.write'')"
proof -
  have "set (read_mask @ execute_mask) \<inter> set write_rights = {}"
    using masks(1,2) unfolding set_append by blast
  then show ?thesis
    using assms masks(1)
    by (auto simp: wanted_rules_def own_rule_def simp del: agent_subdir_Inr split: option.splits sum.splits)
qed

lemma wanted_execute:
  assumes "(p, a) \<in> set (wanted_rules abi agent rt caps w)" "LL_EXECUTE \<in> set a"
  shows "p \<in> {''/usr'', ''/lib'', ''/lib64''} \<or> runtime_dir_of rt = Some p"
  using assms masks(3,4)
  by (auto simp: wanted_rules_def own_rule_def simp del: agent_subdir_Inr split: option.splits sum.splits)

section \<open>The state file\<close>

definition text_ok :: "string \<Rightarrow> bool" where
  "text_ok s \<longleftrightarrow> NL \<notin> set s \<and> NUL \<notin> set s \<and> length s < 256 \<and> s \<noteq> ''-''"

definition state_ok :: "enforcement_state \<Rightarrow> bool" where
  "state_ok st \<longleftrightarrow> text_ok (cgroup_path st) \<and> text_ok (reason st) \<and>
     - (2 ^ 31) \<le> landlock_rules st \<and> landlock_rules st \<le> INT_MAX"

lemma c_lines_kv_text:
  "(\<And>k v. (k, v) \<in> set kvs \<Longrightarrow> NL \<notin> set k \<and> NL \<notin> set v) \<Longrightarrow>
     c_lines (kv_text kvs) = map (\<lambda>(k, v). k @ ''='' @ v) kvs"
proof (induction kvs)
  case (Cons kv kvs)
  obtain k v where kv: "kv = (k, v)" by fastforce
  have "NL \<notin> set (k @ ''='' @ v)" using Cons.prems [of k v] kv by auto
  from c_lines_line [OF this, of "kv_text kvs"] have "c_lines (kv_text (kv # kvs)) = (k @ ''='' @ v) # c_lines (kv_text kvs)"
    by (simp add: kv_text_def kv)
  moreover have "c_lines (kv_text kvs) = map (\<lambda>(k, v). k @ ''='' @ v) kvs"
    by (rule Cons.IH) (use Cons.prems in auto)
  ultimately show ?case by (simp add: kv)
qed (simp add: kv_text_def)

lemma dec_int_chars: "c \<in> set (dec_int i) \<Longrightarrow> c_isdigit c \<or> c = CHR ''-''"
  by (auto simp: dec_int_def dest: dec_nat_digits split: if_splits)

lemma dec_int_plain: "NL \<notin> set (dec_int i)" "NUL \<notin> set (dec_int i)"
  using dec_int_chars [of NL i] dec_int_chars [of NUL i] by (auto simp: c_isdigit_def)

lemma atoi_dec_int: "- (2 ^ 31) \<le> i \<Longrightarrow> i \<le> INT_MAX \<Longrightarrow> atoi (dec_int i) = i"
  using strtol_dec_int [of "[]" i]
  by (simp add: atoi_def no_digit_ahead_def wrap_int_id LONG_MIN_def LONG_MAX_def INT_MAX_def)

lemma state_line_kv: "CHR ''='' \<notin> set k \<Longrightarrow> split_at (CHR ''='') (k @ ''='' @ v) = (k, Some v)"
  by (simp add: split_at_found)

lemma status_word_plain: "NL \<notin> set (enforce_status_word s)" "NUL \<notin> set (enforce_status_word s)"
  by (cases s; simp)+

lemma parse_status_word: "parse_status (enforce_status_word s) ENF_STATUS_INACTIVE = s"
  by (cases s) (simp_all add: parse_status_def)

lemma state_of_file_text:
  assumes "state_ok st"
  shows "state_of_file (kv_text (state_lines st)) = st"
proof -
  have ok: "text_ok (cgroup_path st)" "text_ok (reason st)"
    "- (2 ^ 31) \<le> landlock_rules st" "landlock_rules st \<le> INT_MAX"
    using assms by (simp_all add: state_ok_def)
  have nl: "NL \<notin> set k \<and> NL \<notin> set v" and nul: "NUL \<notin> set k \<and> NUL \<notin> set v"
    if "(k, v) \<in> set (state_lines st)" for k v
    using that ok(1,2) dec_int_plain status_word_plain
    by (auto simp: state_lines_def dash_def text_ok_def split: if_splits)
  have "NUL \<notin> set (kv_text (state_lines st))" using nul by (fastforce simp: kv_text_def)
  then have "c_lines (cstr (kv_text (state_lines st))) = map (\<lambda>(k, v). k @ ''='' @ v) (state_lines st)"
    using c_lines_kv_text [OF nl] by simp
  moreover have "take 255 (cgroup_path st) = cgroup_path st" "take 255 (reason st) = reason st"
    using ok(1,2) by (simp_all add: text_ok_def)
  moreover have sp: "split_at (CHR ''='') (k @ CHR ''='' # v) = (k, Some v)" if "CHR ''='' \<notin> set k" for k v
    using that by (simp add: split_at_found)
  ultimately show ?thesis
    using ok sp [of "''landlock_status''"] sp [of "''landlock_rules''"] sp [of "''seccomp_status''"]
      sp [of "''cgroup_status''"] sp [of "''cgroup_path''"] sp [of "''reason''"]
    by (simp add: state_of_file_def state_lines_def state_line_def state0_def parse_status_word atoi_dec_int
        dash_def text_ok_def snprintf_trunc_def)
qed

interpretation enf_state: codec "\<lambda>st. kv_text (state_lines st)" "\<lambda>b. Some (state_of_file b)" state_ok
  by unfold_locales (simp add: state_of_file_text)

section \<open>Properties\<close>

text \<open>
  C25. The verdict of the seccomp filter: a call under another architecture kills the
  process, a call in the list is allowed, and every other call returns \<open>EPERM\<close>; the filter
  never runs off its end.
\<close>

theorem seccomp_filter_verdict:
  "bpf_run d (seccomp_filter arch nr) a = Some
     (if sd_arch d \<noteq> arch then RET_KILL_PROCESS
      else if sd_nr d \<in> set (sc_numbers nr) then RET_ALLOW else RET_ERRNO EPERM)"
  by (simp add: seccomp_filter_def bpf_run_allow)

lemma seccomp_minimal_denies_exec:
  assumes "\<And>m n x. nr m = Some x \<Longrightarrow> nr n = Some x \<Longrightarrow> m = n" "nr ''execve'' = Some x"
    and "enforcement_child_apply strerror k arch nr agent rt spec st w = ((c, st'), w')"
    and "filter_prog c = Some p"
  shows "bpf_run \<lparr>sd_nr = x, sd_arch = arch\<rparr> p 0 = Some (RET_ERRNO EPERM)"
proof -
  have "p = seccomp_filter arch nr"
    using assms(3,4)
    by (auto simp: enforcement_child_apply_def seccomp_apply_linux_def Let_def
        split: prod.splits if_splits sum.splits)
  moreover have "x \<notin> set (sc_numbers nr)"
    using sc_numbers_named [of x nr] sc_groups_no_exec assms(1,2) by metis
  ultimately show ?thesis by (simp add: seccomp_filter_def bpf_run_allow)
qed

definition demo_kernel :: kernel where
  "demo_kernel = \<lparr>k_abi = Inr 3, k_ruleset = Inr (), k_add_rule = (\<lambda>_. True), k_nnp = Inr (),
     k_restrict = Inr (), k_seccomp = Inr ()\<rparr>"

definition demo_nr :: "string \<Rightarrow> 32 word option" where
  "demo_nr = map_of [(''read'', 0), (''write'', 1), (''execve'', 59)]"

definition demo_spec :: enforcement_spec where
  "demo_spec = \<lparr>fs_mode = ENFORCE_FS_LANDLOCK, sc_mode = SECCOMP_MINIMAL, cgroup_on = False,
     cg_memory_max = 0, cg_pids_max = 0, cg_cpu_max = []\<rparr>"

text \<open>
  C24. What a confined child may write and execute. Whatever the capability text holds and
  whichever rules the kernel refuses, a rule that grants a right to change files is for the
  agent's own \<open>runtime\<close> or \<open>data\<close> directory or for a path named by an \<open>allow fs.write\<close> line,
  and a rule that grants execution is for a system directory or the directory of the
  runtime; so without such lines the agent's configuration is never writable.
\<close>

theorem landlock_confines:
  assumes "landlock_apply_linux strerror k agent rt caps st w = ((Some rs, st'), w')" "(p, a) \<in> set rs"
  shows "(set a \<inter> set write_rights \<noteq> {} \<longrightarrow> agent_runtime_dir agent w = Inr p \<or> agent_data_dir agent w = Inr p \<or>
       p \<in> set (iter_allow_with_verb caps ''fs.write'')) \<and>
    (LL_EXECUTE \<in> set a \<longrightarrow> p \<in> {''/usr'', ''/lib'', ''/lib64''} \<or> runtime_dir_of rt = Some p) \<and>
    landlock_rules st' = int (length rs)"
proof -
  obtain abi where f: "fold (add_path_rule k) (wanted_rules abi agent rt caps w) ([], w) = (rs, w')"
    and n: "landlock_rules st' = int (length rs)"
    using assms(1) by (auto simp: landlock_apply_linux_def Let_def split: sum.splits if_splits prod.splits)
  have "(p, a) \<in> set (wanted_rules abi agent rt caps w)"
    using assms(2) add_path_rules_wanted [of k "wanted_rules abi agent rt caps w" "[]" w] f by auto
  moreover note n
  ultimately show ?thesis using wanted_write wanted_execute by blast
qed

definition demo_tree :: world where
  "demo_tree = world0\<lparr>fs := [(''/r/agents/a/data'', \<lparr>kind = Dir, imode = 448, iuid = 1000\<rparr>)]\<rparr>"

theorem landlock_confines_witness:
  "\<exists>rs st' w'. landlock_apply_linux (\<lambda>_. []) demo_kernel ''a'' ''/r/x'' [] state0 demo_tree = ((Some rs, st'), w') \<and>
     (''/r/agents/a/data'', read_mask @ write_mask 3) \<in> set rs \<and> landlock_rules st' = int (length rs)"
proof -
  have "case landlock_apply_linux (\<lambda>_. []) demo_kernel ''a'' ''/r/x'' [] state0 demo_tree of
      ((Some rs, _), _) \<Rightarrow> (''/r/agents/a/data'', read_mask @ write_mask 3) \<in> set rs | _ \<Rightarrow> False" by code_simp
  then obtain rs st' w' where
    r: "landlock_apply_linux (\<lambda>_. []) demo_kernel ''a'' ''/r/x'' [] state0 demo_tree = ((Some rs, st'), w')"
    and m: "(''/r/agents/a/data'', read_mask @ write_mask 3) \<in> set rs"
    by (auto split: prod.splits option.splits)
  from landlock_confines [OF r m] r m show ?thesis by blast
qed



end
