(* ===== verification/Descriptors.thy ===== *)
theory Descriptors
  imports Process Enforcement
begin

text \<open>
  Which operations leave the descriptor table alone. Every helper of the file layer closes
  what it opens, whatever fails in between; the rules below, one per operation, let the
  components above conclude the same of their own functions by following their branches.
\<close>

named_theorems fd_intros \<open>operations that keep the descriptor table\<close>

definition kfd :: "(nat, desc) alist \<Rightarrow> 'a \<times> world \<Rightarrow> bool" where
  "kfd d x \<longleftrightarrow> fds (snd x) = d"

lemma kfd_pair [fd_intros]: "fds w = d \<Longrightarrow> kfd d (r, w)"
  by (simp add: kfd_def)

lemma kfd_case [fd_intros]:
  assumes "kfd d m" and "\<And>e w'. m = (Inl e, w') \<Longrightarrow> fds w' = d \<Longrightarrow> kfd d (f e w')"
    and "\<And>x w'. m = (Inr x, w') \<Longrightarrow> fds w' = d \<Longrightarrow> kfd d (g x w')"
  shows "kfd d (case m of (r, w') \<Rightarrow> (case r of Inl e \<Rightarrow> f e w' | Inr x \<Rightarrow> g x w'))"
  using assms by (cases m; cases "fst m") (auto simp: kfd_def)

lemma kfd_prod [fd_intros]:
  assumes "kfd d m" and "\<And>x w'. m = (x, w') \<Longrightarrow> fds w' = d \<Longrightarrow> kfd d (g x w')"
  shows "kfd d (case m of (x, w') \<Rightarrow> g x w')"
  using assms by (cases m) (simp add: kfd_def)

lemma kfd_if [fd_intros]: "(c \<Longrightarrow> kfd d x) \<Longrightarrow> (\<not> c \<Longrightarrow> kfd d y) \<Longrightarrow> kfd d (if c then x else y)"
  by simp

lemma kfd_sum [fd_intros]: "(\<And>e. x = Inl e \<Longrightarrow> kfd d (f e)) \<Longrightarrow> (\<And>v. x = Inr v \<Longrightarrow> kfd d (g v)) \<Longrightarrow>
    kfd d (case x of Inl e \<Rightarrow> f e | Inr v \<Rightarrow> g v)"
  by (cases x) auto

lemma kfd_option [fd_intros]: "(x = None \<Longrightarrow> kfd d a) \<Longrightarrow> (\<And>v. x = Some v \<Longrightarrow> kfd d (g v)) \<Longrightarrow>
    kfd d (case x of None \<Rightarrow> a | Some v \<Rightarrow> g v)"
  by (cases x) auto

lemma kfdD: "kfd d x \<Longrightarrow> fds (snd x) = d"
  by (simp add: kfd_def)

lemma kfd_frame: "frame A w0 d w' \<Longrightarrow> x = (r, w') \<Longrightarrow> kfd d x"
  by (simp add: kfd_def frame_def)

lemma kfd_from_frame: "(\<And>d. fds w = d \<Longrightarrow> frame A w d (snd x)) \<Longrightarrow> fds w = d \<Longrightarrow> kfd d x"
  by (simp add: kfd_def frame_def)

lemma frame_all: "fds w = d \<Longrightarrow> frame (\<lambda>_. True) w d w"
  by (auto simp: frame_def)

section \<open>System calls\<close>

lemma kfd_call: "fds w = d \<Longrightarrow> (\<And>v. fds (snd (m v)) = fds v) \<Longrightarrow> kfd d (call m w)"
  by (auto simp: kfd_def call_def split: list.splits fault.splits)

lemma kfd_stat [fd_intros]: "fds w = d \<Longrightarrow> kfd d (sys_stat p w)"
  unfolding sys_stat_def by (erule kfd_call) (auto split: sum.splits option.splits)

lemma kfd_lstat [fd_intros]: "fds w = d \<Longrightarrow> kfd d (sys_lstat p w)"
  unfolding sys_lstat_def by (erule kfd_call) (auto split: sum.splits option.splits)

lemma kfd_access [fd_intros]: "fds w = d \<Longrightarrow> kfd d (sys_access p ms w)"
  unfolding sys_access_def by (erule kfd_call) (auto split: sum.splits option.splits)

lemma kfd_opendir [fd_intros]: "fds w = d \<Longrightarrow> kfd d (sys_opendir p w)"
  unfolding sys_opendir_def by (erule kfd_call) (auto split: sum.splits)

lemma kfd_mkdir [fd_intros]: "fds w = d \<Longrightarrow> kfd d (sys_mkdir p m w)"
  unfolding sys_mkdir_def by (erule kfd_call) auto

lemma kfd_unlink [fd_intros]: "fds w = d \<Longrightarrow> kfd d (sys_unlink p w)"
  unfolding sys_unlink_def by (erule kfd_call) (auto split: option.splits)

lemma kfd_fcntl [fd_intros]: "fds w = d \<Longrightarrow> kfd d (sys_fcntl_fd n w)"
  unfolding sys_fcntl_fd_def by (erule kfd_call) auto

lemma kfd_chmod [fd_intros]: "fds w = d \<Longrightarrow> kfd d (sys_chmod p m w)"
  unfolding sys_chmod_def by (erule kfd_call) (auto split: sum.splits option.splits)

lemma kfd_fork [fd_intros]: "fds w = d \<Longrightarrow> kfd d (sys_fork w)"
  unfolding sys_fork_def by (erule kfd_call) auto

lemma fds_note_signal [simp]: "fds (note_signal p s w) = fds w"
  by (simp add: note_signal_def)

lemma kfd_kill [fd_intros]: "fds w = d \<Longrightarrow> kfd d (sys_kill p s w)"
  unfolding sys_kill_def by (erule kfd_call) auto

lemma kfd_killpg [fd_intros]: "fds w = d \<Longrightarrow> kfd d (sys_killpg p s w)"
  unfolding sys_killpg_def by (erule kfd_call) auto

lemma kfd_pidfd_signal [fd_intros]: "fds w = d \<Longrightarrow> kfd d (sys_pidfd_send_signal n s w)"
  unfolding sys_pidfd_send_signal_def by (erule kfd_call) (auto split: option.splits desc.splits)

lemma kfd_waitpid [fd_intros]: "fds w = d \<Longrightarrow> kfd d (sys_waitpid w)"
  unfolding sys_waitpid_def by (erule kfd_call) (auto split: option.splits)

lemma kfd_sendmsg [fd_intros]: "fds w = d \<Longrightarrow> kfd d (sys_sendmsg n bs ns w)"
  unfolding sys_sendmsg_def by (erule kfd_call) (auto split: option.splits desc.splits)

lemma kfd_sock_read [fd_intros]: "fds w = d \<Longrightarrow> kfd d (sys_sock_read n k w)"
  unfolding sys_sock_read_def by (erule kfd_call) (auto split: option.splits desc.splits list.splits)

lemma kfd_bind [fd_intros]: "fds w = d \<Longrightarrow> kfd d (sys_bind n p w)"
  unfolding sys_bind_def by (erule kfd_call) auto

lemma kfd_listen [fd_intros]: "fds w = d \<Longrightarrow> kfd d (sys_listen n w)"
  unfolding sys_listen_def by (erule kfd_call) auto

lemma kfd_send_retry [fd_intros]: "fds w = d \<Longrightarrow> kfd d (send_retry n bs ns w)"
proof (induction n bs ns w rule: send_retry.induct)
  case (1 n bs ns w)
  show ?case
    by (subst send_retry.simps) (use 1 in \<open>auto intro!: fd_intros\<close>)
qed

lemma fds_apply_event [simp]: "fds (apply_event e w) = fds w"
  by (cases e) (auto split: option.splits)

lemma fds_nanosleep [simp]: "fds (sys_nanosleep w) = fds w"
proof -
  have "fds (fold apply_event es v) = fds v" for es v by (induction es arbitrary: v) auto
  then show ?thesis by (simp add: sys_nanosleep_def split: list.split)
qed

section \<open>A descriptor opened and closed again\<close>

definition holding :: "(nat, desc) alist \<Rightarrow> nat \<Rightarrow> world \<Rightarrow> bool" where
  "holding d n w \<longleftrightarrow> map_of d n = None \<and> (\<exists>x. fds w = AList.update n x d)"

lemma holdingI: "map_of d n = None \<Longrightarrow> fds w = AList.update n x d \<Longrightarrow> holding d n w"
  by (auto simp: holding_def)

lemma holding_new: "fds w = d \<Longrightarrow> new_fd x w = (n, w') \<Longrightarrow> holding d n w'"
  using fresh_fd [of "fds w"] by (auto simp: new_fd_def holding_def)

lemma holding_call:
  "holding d n w \<Longrightarrow> (\<And>v. holding d n v \<Longrightarrow> holding d n (snd (m v))) \<Longrightarrow> holding d n (snd (call m w))"
  by (auto simp: call_def holding_def split: list.splits fault.splits)

lemma open_holding:
  assumes "fds w = d" "sys_open p fl m w = (Inr n, w')"
  shows "holding d n w'"
  using assms(2) unfolding sys_open_def
proof (cases rule: call_cases)
  case (run s)
  have d: "fds (w\<lparr>sched := s\<rparr>) = d" "\<And>q i. fds (put_inode q i (w\<lparr>sched := s\<rparr>)) = d" using assms(1) by simp_all
  show ?thesis
    using run(2)
    by (auto simp: Let_def split: sum.splits option.splits node.splits if_splits prod.splits
        intro: holding_new [OF d(1)] holding_new [OF d(2)])
qed simp

lemma kfd_open_fail: "fds w = d \<Longrightarrow> sys_open p fl m w = (Inl e, w') \<Longrightarrow> fds w' = d"
  using open_fail_frame [of p fl m w e w'] by (simp add: frame_def)

lemma write_holding: "holding d n w \<Longrightarrow> holding d n (snd (sys_write n b w))"
  unfolding sys_write_def
  by (erule holding_call)
    (auto simp: Let_def put_inode_def holding_def split: option.splits desc.splits node.splits)

lemma read_holding: "holding d n w \<Longrightarrow> holding d n (snd (sys_read n k w))"
  unfolding sys_read_def
  by (erule holding_call) (auto simp: Let_def holding_def split: option.splits desc.splits node.splits)

lemma write_all_holding: "holding d n w \<Longrightarrow> holding d n (snd (write_all n b w))"
proof (induction n b w rule: write_all.induct)
  case (1 n b w)
  show ?case
  proof (cases "b = []")
    case False
    obtain x w1 where x: "sys_write n b w = (x, w1)" by fastforce
    have h: "holding d n w1" using write_holding [OF "1.prems", of b] x by simp
    show ?thesis
    proof (cases x)
      case (Inl e)
      then show ?thesis using "1.IH"(1) [OF False x [symmetric] Inl] h False x
        by (simp add: write_all.simps [of n b w])
    next
      case (Inr k)
      then show ?thesis using "1.IH"(2) [OF False x [symmetric] Inr h] False x
        by (auto simp: write_all.simps [of n b w] split: prod.splits sum.splits)
    qed
  qed (use "1.prems" in \<open>simp add: write_all.simps\<close>)
qed

lemma read_all_holding: "holding d n w \<Longrightarrow> holding d n (snd (read_all n k w))"
proof (induction n k w rule: read_all.induct)
  case (1 n k w)
  show ?case
  proof (cases "k = 0")
    case False
    obtain x w1 where x: "sys_read n k w = (x, w1)" by fastforce
    have h: "holding d n w1" using read_holding [OF "1.prems", of k] x by simp
    show ?thesis
    proof (cases x)
      case (Inl e)
      then show ?thesis using "1.IH"(1) [OF False x [symmetric] Inl] h False x
        by (simp add: read_all.simps [of n k w])
    next
      case (Inr bs)
      then show ?thesis using "1.IH"(2) [OF False x [symmetric] Inr] h False x
        by (auto simp: read_all.simps [of n k w] split: prod.splits sum.splits)
    qed
  qed (use "1.prems" in \<open>simp add: read_all.simps\<close>)
qed

lemma close_holding: "holding d n w \<Longrightarrow> kfd d (sys_close n w)"
  using alist_delete_new [of d n]
  by (auto simp: holding_def kfd_def sys_close_def call_def split: list.splits fault.splits)

lemma fds_close_holding: "holding d n w \<Longrightarrow> fds (snd (sys_close n w)) = d"
  using close_holding kfdD by blast

lemma holding_eq: "holding d n (snd x) \<Longrightarrow> x = (r, w) \<Longrightarrow> holding d n w"
  by simp

section \<open>The file layer\<close>

lemma kfd_ensure_dir [fd_intros]: "fds w = d \<Longrightarrow> kfd d (ensure_dir p m w)"
  unfolding ensure_dir_def by (auto intro!: fd_intros)

lemma kfd_agent_path [fd_intros]: "fds w = d \<Longrightarrow> kfd d (agent_path n a l w)"
  using agent_path_frame [of w a n l] by (simp add: kfd_def frame_def)

lemma kfd_ensure_layout [fd_intros]: "fds w = d \<Longrightarrow> kfd d (agent_ensure_layout a w)"
  using frame_agent_ensure_layout [OF frame_refl, of w a] by (simp add: kfd_def frame_def)

lemma kfd_with_path [fd_intros]:
  "fds w = d \<Longrightarrow> (\<And>p w. fds w = d \<Longrightarrow> kfd d (f p w)) \<Longrightarrow> kfd d (with_path a l f w)"
  unfolding with_path_def by (auto intro!: fd_intros)

lemma kfd_read_small_file [fd_intros]: "fds w = d \<Longrightarrow> kfd d (read_small_file p n w)"
  using frame_read_small_file [OF frame_all, of w d p n] by (simp add: kfd_def frame_def)

lemma kfd_atomic_write [fd_intros]: "fds w = d \<Longrightarrow> kfd d (atomic_write_file p b m w)"
proof -
  assume d: "fds w = d"
  obtain r w' where r: "atomic_write_file p b m w = (r, w')" by fastforce
  from atomic_write_spec [OF r] have "same_ident w w'"
    by (auto simp: write_failed_def write_done_def split: sum.splits)
  then show ?thesis using r d by (simp add: kfd_def same_ident_def)
qed

lemma kfd_append_file [fd_intros]: "fds w = d \<Longrightarrow> kfd d (append_file p b m w)"
proof -
  assume d: "fds w = d"
  obtain x w1 where x: "sys_open p [O_WRONLY, O_CREAT, O_APPEND, O_CLOEXEC] m w = (x, w1)" by fastforce
  show ?thesis
  proof (cases x)
    case (Inl e)
    then show ?thesis using x kfd_open_fail [OF d] by (simp add: append_file_def kfd_def)
  next
    case (Inr n)
    obtain y w2 where y: "write_all n b w1 = (y, w2)" by fastforce
    have "holding d n w2" using write_all_holding [OF open_holding [OF d x [unfolded Inr]], of b] y by simp
    then show ?thesis using x y Inr close_holding
      by (auto simp: append_file_def kfd_def fds_close_holding split: sum.splits)
  qed
qed

lemma kfd_write_agent_setting [fd_intros]: "fds w = d \<Longrightarrow> kfd d (write_agent_setting a l v w)"
  unfolding write_agent_setting_def by (auto intro!: fd_intros)

lemma kfd_read_agent_setting [fd_intros]: "fds w = d \<Longrightarrow> kfd d (read_agent_setting a l n w)"
  unfolding read_agent_setting_def by (auto intro!: fd_intros)

lemma kfd_write_status [fd_intros]: "fds w = d \<Longrightarrow> kfd d (write_status a s w)"
  unfolding write_status_def by (auto intro!: fd_intros)

lemma kfd_audit_log [fd_intros]: "fds w = d \<Longrightarrow> kfd d (audit_log a s w)"
  unfolding audit_log_def by (auto intro!: fd_intros)

lemma kfd_read_pid_file [fd_intros]: "fds w = d \<Longrightarrow> kfd d (read_pid_file a w)"
  unfolding read_pid_file_def by (auto intro!: fd_intros)

lemma kfd_opened:
  assumes "fds w = d" "\<And>n w'. sys_open p fl m w = (Inr n, w') \<Longrightarrow> holding d n w' \<Longrightarrow> kfd d (g n w')"
    and "\<And>e w'. fds w' = d \<Longrightarrow> kfd d (f e w')"
  shows "kfd d (case sys_open p fl m w of (r, w') \<Rightarrow> (case r of Inl e \<Rightarrow> f e w' | Inr n \<Rightarrow> g n w'))"
proof -
  obtain x w1 where x: "sys_open p fl m w = (x, w1)" by fastforce
  show ?thesis
  proof (cases x)
    case (Inl e)
    then show ?thesis using x kfd_open_fail [OF assms(1)] assms(3) by auto
  next
    case (Inr n)
    then show ?thesis using x open_holding [OF assms(1), of p fl m n w1] assms(2) by auto
  qed
qed

lemma kfd_close_ret: "holding d n w \<Longrightarrow> kfd d (r, snd (sys_close n w))"
  by (simp add: kfd_def fds_close_holding)

section \<open>Profiles and enforcement\<close>

lemma kfd_locate_in [fd_intros]: "fds w = d \<Longrightarrow> kfd d (locate_in n a ds w)"
proof (induction ds arbitrary: w)
  case (Cons x xs)
  show ?case unfolding locate_in.simps Let_def
    by (intro fd_intros Cons.IH) (use Cons.prems in simp_all)
qed (simp add: kfd_def)

lemma kfd_profile_locate [fd_intros]: "fds w = d \<Longrightarrow> kfd d (profile_locate g a n w)"
  unfolding profile_locate_def by (intro fd_intros)

lemma kfd_profile_read_raw [fd_intros]: "fds w = d \<Longrightarrow> kfd d (profile_read_raw g a n w)"
proof -
  have r: "kfd d (case sys_read k m v of (r, w) \<Rightarrow> (r, snd (sys_close k w)))" if "holding d k v" for k m v
    using read_holding [OF that, of m] by (cases "sys_read k m v") (simp add: kfd_close_ret)
  assume "fds w = d"
  then show ?thesis
    unfolding profile_read_raw_def Let_def
    by (rule kfd_case [OF kfd_profile_locate]) (erule kfd_pair, (rule kfd_opened, assumption, erule r, erule kfd_pair))
qed

lemma kfd_agent_profile_name [fd_intros]: "fds w = d \<Longrightarrow> kfd d (agent_profile_name a w)"
  unfolding agent_profile_name_def Let_def by (auto intro!: fd_intros)

lemma kfd_profile_load_by_name [fd_intros]: "fds w = d \<Longrightarrow> kfd d (profile_load_by_name g a out w)"
  unfolding profile_load_by_name_def Let_def by (auto intro!: fd_intros)

lemma kfd_profile_load [fd_intros]: "fds w = d \<Longrightarrow> kfd d (profile_load_for_agent g a out w)"
  unfolding profile_load_for_agent_def Let_def by (auto intro!: fd_intros)

lemma kfd_write_req [fd_intros]: "fds w = d \<Longrightarrow> kfd d (enforcement_write_req a s w)"
  unfolding enforcement_write_req_def by (auto intro!: fd_intros)

lemma kfd_write_state_file [fd_intros]: "fds w = d \<Longrightarrow> kfd d (write_state_file a s w)"
  unfolding write_state_file_def by (auto intro!: fd_intros)

lemma kfd_read_state [fd_intros]: "fds w = d \<Longrightarrow> kfd d (enforcement_read_state a w)"
  unfolding enforcement_read_state_def by (auto intro!: fd_intros)

lemma kfd_audit_all [simp]: "fds (audit_all a ls w) = fds w"
proof (induction ls arbitrary: w)
  case (Cons l ls)
  have "fds (snd (audit_log a l w)) = fds w" by (rule kfdD [OF kfd_audit_log]) simp
  with Cons show ?case by (simp add: audit_all_def)
qed (simp add: audit_all_def)

lemma kfd_write_str [fd_intros]: "fds w = d \<Longrightarrow> kfd d (write_str p v w)"
proof -
  assume d: "fds w = d"
  have "kfd d (case sys_write n v w' of (Inl e, w) \<Rightarrow> (Inl e, snd (sys_close n w))
     | (Inr k, w) \<Rightarrow> (if k \<noteq> length v then Inl E0 else Inr (), snd (sys_close n w)))"
    if "holding d n w'" for n w'
    using write_holding [OF that, of v] by (auto simp: kfd_close_ret split: prod.splits sum.splits)
  then show ?thesis unfolding write_str_def by (intro kfd_opened [OF d]) (auto intro: fd_intros)
qed

lemma kfd_mkdir_ok [fd_intros]: "fds w = d \<Longrightarrow> kfd d (mkdir_ok p m w)"
  unfolding mkdir_ok_def by (auto intro!: fd_intros)

lemma kfd_cgroup_limit [fd_intros]: "fds w = d \<Longrightarrow> kfd d (cgroup_limit f dir l v (st, w))"
  unfolding cgroup_limit_def by (auto intro!: fd_intros)

lemma kfd_cgroup_step: "kfd d x \<Longrightarrow> kfd d (if c then cgroup_limit f dir l v x else x)"
  by (cases x) (auto simp: kfd_def intro!: kfdD [OF kfd_cgroup_limit])

lemma kfd_cgroup_setup [fd_intros]: "fds w = d \<Longrightarrow> kfd d (cgroup_setup_linux f a spec st w)"
  unfolding cgroup_setup_linux_def Let_def
  by (intro kfd_cgroup_step kfd_if kfd_pair kfd_case kfd_mkdir_ok kfd_prod) simp_all

lemma kfd_parent_setup [fd_intros]: "fds w = d \<Longrightarrow> kfd d (enforcement_parent_setup f a spec w)"
  unfolding enforcement_parent_setup_def Let_def by (auto intro!: fd_intros)

lemma kfd_attach_pid [fd_intros]: "fds w = d \<Longrightarrow> kfd d (enforcement_parent_attach_pid st pid w)"
  unfolding enforcement_parent_attach_pid_def cgroup_attach_pid_linux_def by (auto intro!: fd_intros)

section \<open>Several descriptors held at once\<close>

text \<open>\<open>held d ns w\<close>: the table is \<open>d\<close> with the descriptors \<open>ns\<close>, opened since, added to it.\<close>

definition held :: "(nat, desc) alist \<Rightarrow> nat list \<Rightarrow> world \<Rightarrow> bool" where
  "held d ns w \<longleftrightarrow> (\<exists>ext. fds w = d @ ext \<and> map fst ext = ns) \<and> distinct ns \<and> (\<forall>n \<in> set ns. map_of d n = None)"

lemma held_Nil [simp]: "held d [] w \<longleftrightarrow> fds w = d"
  by (simp add: held_def)

lemma held_keep: "held d ns w \<Longrightarrow> fds w' = fds w \<Longrightarrow> held d ns w'"
  by (simp add: held_def)

lemma held_kfd: "held d ns w \<Longrightarrow> kfd (fds w) x \<Longrightarrow> held d ns (snd x)"
  by (simp add: held_def kfd_def)

lemma held_new:
  assumes "held d ns w" "new_fd x w = (n, w')"
  shows "held d (ns @ [n]) w'"
proof -
  obtain ext where e: "fds w = d @ ext" "map fst ext = ns" "distinct ns" "\<forall>n \<in> set ns. map_of d n = None"
    using assms(1) by (auto simp: held_def)
  have n: "map_of (fds w) n = None" "w' = w\<lparr>fds := AList.update n x (fds w)\<rparr>"
    using assms(2) fresh_fd [of "fds w"] by (auto simp: new_fd_def)
  then have "map_of d n = None" "n \<notin> set ns"
    using e by (auto simp: map_add_def map_of_eq_None_iff split: option.splits)
  moreover have "fds w' = d @ (ext @ [(n, x)])" using n e(1) by (simp add: update_new)
  ultimately show ?thesis using e unfolding held_def by (auto intro!: exI [of _ "ext @ [(n, x)]"])
qed

lemma held_close:
  assumes "held d ns w" "n \<in> set ns"
  shows "held d (filter (\<lambda>m. m \<noteq> n) ns) (snd (sys_close n w))"
proof -
  obtain ext where e: "fds w = d @ ext" "map fst ext = ns" "distinct ns" "\<forall>n \<in> set ns. map_of d n = None"
    using assms(1) by (auto simp: held_def)
  have "map_of d n = None" using e(4) assms(2) by blast
  moreover from this have "n \<notin> fst ` set d" by (simp add: map_of_eq_None_iff)
  then have del: "AList.delete n (fds w) = d @ AList.delete n ext" using e(1) by (simp add: delete_append)
  have in_ext: "n \<in> fst ` set ext" using assms(2) e(2) by (metis list.set_map)
  then have "map_of (fds w) n \<noteq> None" using e(1) by (auto simp: map_of_eq_None_iff image_Un)
  then have "fds (snd (sys_close n w)) = AList.delete n (fds w)"
    by (auto simp: sys_close_def call_def split: list.splits fault.splits)
  moreover have "map fst (AList.delete n ext) = filter (\<lambda>m. m \<noteq> n) ns"
    unfolding e(2) [symmetric] by (induction ext) auto
  ultimately show ?thesis
    using e(3,4) del unfolding held_def by auto
qed

lemma held_open: "held d ns w \<Longrightarrow> sys_open p fl m w = (Inr n, w') \<Longrightarrow> held d (ns @ [n]) w'"
  unfolding sys_open_def
proof (erule call_cases)
  fix s
  assume h: "held d ns w" and o: "(case follow (fs (w\<lparr>sched := s\<rparr>)) p of
       Inl e \<Rightarrow> (Inl e, w\<lparr>sched := s\<rparr>)
     | Inr q \<Rightarrow> (case map_of (fs (w\<lparr>sched := s\<rparr>)) q of
           Some i \<Rightarrow> (case kind i of
               Reg c \<Rightarrow>
                 (let w = (if O_TRUNC \<in> set fl then put_inode q (i\<lparr>kind := Reg []\<rparr>) (w\<lparr>sched := s\<rparr>) else w\<lparr>sched := s\<rparr>);
                      (n, w) = new_fd (DFile q 0 fl) w
                  in (Inr n, w))
             | Chr \<Rightarrow> (let (n, w) = new_fd (DFile q 0 fl) (w\<lparr>sched := s\<rparr>) in (Inr n, w))
             | Dir \<Rightarrow> if O_RDONLY \<in> set fl
                      then (let (n, w) = new_fd (DFile q 0 fl) (w\<lparr>sched := s\<rparr>) in (Inr n, w))
                      else (Inl EISDIR, w\<lparr>sched := s\<rparr>)
             | _ \<Rightarrow> (Inl ENXIO, w\<lparr>sched := s\<rparr>))
         | None \<Rightarrow>
             if O_CREAT \<notin> set fl \<or> \<not> is_dir (fs (w\<lparr>sched := s\<rparr>)) (dirname q)
             then (Inl (miss_err (fs (w\<lparr>sched := s\<rparr>)) q), w\<lparr>sched := s\<rparr>)
             else (let (n, w) = new_fd (DFile q 0 fl)
                        (put_inode q \<lparr>kind = Reg [], imode = m, iuid = euid (w\<lparr>sched := s\<rparr>)\<rparr> (w\<lparr>sched := s\<rparr>))
                   in (Inr n, w)))) = (Inr n, w')"
  have h1: "held d ns (w\<lparr>sched := s\<rparr>)" "\<And>q i. held d ns (put_inode q i (w\<lparr>sched := s\<rparr>))"
    using h by (simp_all add: held_def)
  show "held d (ns @ [n]) w'"
    using o by (auto simp: Let_def split: sum.splits option.splits node.splits if_splits prod.splits
        intro: held_new [OF h1(1)] held_new [OF h1(2)])
qed simp

lemma held_open_fail: "held d ns w \<Longrightarrow> sys_open p fl m w = (Inl e, w') \<Longrightarrow> held d ns w'"
  using kfd_open_fail [of w "fds w"] held_keep by blast

lemma held_socketpair: "held d ns w \<Longrightarrow> sys_socketpair w = (Inr (a, b), w') \<Longrightarrow> held d (ns @ [a, b]) w'"
  unfolding sys_socketpair_def
proof (erule call_cases)
  fix s
  assume h: "held d ns w"
    and o: "(let e = next_ep (w\<lparr>sched := s\<rparr>); (a, w) = new_fd (DSock e) (w\<lparr>sched := s, next_ep := e + 2\<rparr>);
         (b, w) = new_fd (DSock (e + 1)) w in (Inr (a, b), w)) = (Inr (a, b), w')"
  let ?e = "next_ep w"
  obtain w1 where 1: "new_fd (DSock ?e) (w\<lparr>sched := s, next_ep := ?e + 2\<rparr>) = (a, w1)"
    "new_fd (DSock (?e + 1)) w1 = (b, w')"
    using o by (auto simp: Let_def split: prod.splits)
  have "held d ns (w\<lparr>sched := s, next_ep := ?e + 2\<rparr>)" using h by (simp add: held_def)
  from held_new [OF held_new [OF this 1(1)] 1(2)] show "held d (ns @ [a, b]) w'" by simp
qed simp

lemma held_socketpair_fail: "held d ns w \<Longrightarrow> sys_socketpair w = (Inl e, w') \<Longrightarrow> held d ns w'"
  unfolding sys_socketpair_def by (erule call_cases) (auto simp: held_def Let_def split: prod.splits)

lemma held_lookup: "held d ns w \<Longrightarrow> n \<in> set ns \<Longrightarrow> map_of (fds w) n \<noteq> None"
proof -
  assume h: "held d ns w" and n: "n \<in> set ns"
  obtain ext where "fds w = d @ ext" "map fst ext = ns" using h by (auto simp: held_def)
  then have "n \<in> fst ` set (fds w)" using n by (metis UnI2 image_Un list.set_map set_append)
  then show ?thesis by (simp add: map_of_eq_None_iff)
qed

end
