(* ===== verification/Spawn.thy ===== *)
theory Spawn
  imports Descriptors
begin

text \<open>
  Starting a runtime and the life-cycle helpers (\<open>src/common.c\<close>, lines 1140 to 1495):
  \<open>spawn_agent_runtime\<close> with the broker and inbox channels, the descriptor slots and the
  confinement of the child, the wait for the first status, and the liveness and signal
  helpers the supervisor uses.

  What the process takes from its host (the environment, the working directory, path
  canonicalisation, error texts, the kernel's answers to the confinement calls, and the
  contents of an uninitialised structure) is a \<open>host\<close> record. The parent's part is in two
  halves, up to and including \<open>fork\<close> and after it; the child's part is a function of its
  own copy of the world. Descriptors the child keeps across \<open>exec\<close> are listed in \<open>keep\<close>.
\<close>

section \<open>Definitions\<close>

record host =
  h_getenv :: "string \<Rightarrow> string option"
  h_cwd :: "string option"
  h_realpath :: "string \<Rightarrow> errno + string"
  h_strerror :: "errno \<Rightarrow> string"
  h_kernel :: kernel
  h_arch :: "32 word"
  h_nr :: "string \<Rightarrow> 32 word option"
  h_stack :: profile_cfg

definition run_alive :: "int \<Rightarrow> world \<Rightarrow> bool \<times> world" where
  "run_alive pid w = (if pid \<le> 0 then (False, w)
     else (case sys_kill pid 0 w of
         (Inr _, w) \<Rightarrow> (True, w) | (Inl e, w) \<Rightarrow> (e = EPERM, w)))"

definition refuse_root :: "(string \<Rightarrow> string option) \<Rightarrow> world \<Rightarrow> bool" where
  "refuse_root getenv w \<longleftrightarrow> euid w = 0 \<and> getenv ''AGENT_ALLOW_ROOT'' \<noteq> Some ''1''"

definition lifecycle_pidfd_open :: "int \<Rightarrow> nat io" where
  "lifecycle_pidfd_open pid = sys_pidfd_open pid"

text \<open>\<open>1\<close>, \<open>0\<close> and \<open>-1\<close> of the source: alive, gone, unknown.\<close>

definition lifecycle_pidfd_alive :: "nat option \<Rightarrow> world \<Rightarrow> bool option \<times> world" where
  "lifecycle_pidfd_alive fd w = (case fd of
       None \<Rightarrow> (None, w)
     | Some n \<Rightarrow> (case sys_pidfd_send_signal n 0 w of
           (Inr _, w) \<Rightarrow> (Some True, w)
         | (Inl e, w) \<Rightarrow> (if e = ESRCH then Some False else None, w)))"

definition lifecycle_pidfd_signal :: "nat option \<Rightarrow> nat \<Rightarrow> unit io" where
  "lifecycle_pidfd_signal fd sig w = (case fd of
       None \<Rightarrow> (Inl EBADF, w) | Some n \<Rightarrow> sys_pidfd_send_signal n sig w)"

definition lifecycle_signal_group :: "int \<Rightarrow> nat \<Rightarrow> unit io" where
  "lifecycle_signal_group pgid sig = sys_killpg pgid sig"

definition lifecycle_cgroup_kill :: "string \<Rightarrow> unit io" where
  "lifecycle_cgroup_kill cg w =
     (if cg = [] then (Inl EINVAL, w)
      else (case fit MAX_PATHBUF (join cg ''cgroup.kill'') of
          Inl e \<Rightarrow> (Inl e, w)
        | Inr path \<Rightarrow> (case sys_open path [O_WRONLY, O_CLOEXEC] 0 w of
              (Inl e, w) \<Rightarrow> (Inl e, w)
            | (Inr fd, w) \<Rightarrow> (case sys_write fd (''1'' @ [NL]) w of
                  (Inl e, w) \<Rightarrow> (Inl e, snd (sys_close fd w))
                | (Inr _, w) \<Rightarrow> (Inr (), snd (sys_close fd w))))))"

definition export_profiles_dir_once :: "host \<Rightarrow> world \<Rightarrow> (string \<Rightarrow> string option) \<times> world" where
  "export_profiles_dir_once h w =
     (if h_getenv h ''AGENT_PROFILES_DIR'' \<noteq> None then (h_getenv h, w)
      else (case h_cwd h of
          None \<Rightarrow> (h_getenv h, w)
        | Some cwd \<Rightarrow>
            (let prof_dir = join cwd ''profiles'' in
             if length prof_dir \<ge> MAX_PATHBUF then (h_getenv h, w)
             else (case sys_access prof_dir [256, 64] w of
                 (Inl _, w) \<Rightarrow> (h_getenv h, w)
               | (Inr _, w) \<Rightarrow> ((h_getenv h)(''AGENT_PROFILES_DIR'' := Some prof_dir), w)))))"

text \<open>The enforcement asked for: an override that is not negative wins over the profile.\<close>

definition pick :: "int \<Rightarrow> bool \<Rightarrow> bool" where
  "pick override cfg = (if override \<ge> 0 then override \<noteq> 0 else cfg)"

definition spawn_spec :: "int \<Rightarrow> int \<Rightarrow> int \<Rightarrow> profile_cfg \<Rightarrow> enforcement_spec" where
  "spawn_spec fs_o sc_o cg_o p = \<lparr>
     fs_mode = (if pick fs_o (enforce_fs p) then ENFORCE_FS_LANDLOCK else ENFORCE_FS_OFF),
     sc_mode = (if pick sc_o (seccomp p) then SECCOMP_MINIMAL else SECCOMP_OFF),
     cgroup_on = pick cg_o (cgroup p),
     cg_memory_max = cgroup_memory_max p, cg_pids_max = cgroup_pids_max p,
     cg_cpu_max = snprintf_trunc 32 (cgroup_cpu_max p)\<rparr>"

definition enforcement_audit :: "string \<Rightarrow> string \<Rightarrow> enforcement_spec \<Rightarrow> enforcement_state \<Rightarrow> world \<Rightarrow> world" where
  "enforcement_audit name label spec enf w = audit_all name
     ([label @ '': enforcement requested fs='' @ enforce_fs_name (fs_mode spec) @ '' seccomp='' @
         seccomp_mode_name (sc_mode spec) @ '' cgroup='' @ (if cgroup_on spec then ''on'' else ''off'')] @
      (if cgroup_status enf = ENF_STATUS_ACTIVE then [''cgroup active path='' @ cgroup_path enf]
       else if cgroup_status enf = ENF_STATUS_UNAVAILABLE then [''cgroup unavailable: '' @ reason_or enf] else [])) w"

definition close_opt :: "nat option \<Rightarrow> world \<Rightarrow> world" where
  "close_opt fd w = (case fd of None \<Rightarrow> w | Some n \<Rightarrow> snd (sys_close n w))"

record channel =
  ch_parent :: nat
  ch_child :: nat

text \<open>The broker channel and the lock file that serialises its use; the name is removed at once.\<close>

definition open_broker :: "string \<Rightarrow> (channel \<times> nat) io" where
  "open_broker runtime_dir w = (case sys_socketpair w of
       (Inl e, w) \<Rightarrow> (Inl e, w)
     | (Inr (a, b), w) \<Rightarrow>
         (let lock_path = join runtime_dir ''broker.lock'';
              give_up = (\<lambda>e w. (Inl e, snd (sys_close b (snd (sys_close a w)))))
          in if length lock_path \<ge> MAX_PATHBUF then give_up E0 w
             else (case sys_open lock_path [O_RDWR, O_CREAT, O_CLOEXEC] 384 w of
                 (Inl e, w) \<Rightarrow> give_up e w
               | (Inr l, w) \<Rightarrow> (Inr (\<lparr>ch_parent = a, ch_child = b\<rparr>, l), snd (sys_unlink lock_path w)))))"

definition open_inbox :: "channel io" where
  "open_inbox w = (case sys_socketpair w of
       (Inl e, w) \<Rightarrow> (Inl e, w)
     | (Inr (a, b), w) \<Rightarrow> (Inr \<lparr>ch_parent = a, ch_child = b\<rparr>,
         snd (sys_fcntl_fd b (snd (sys_fcntl_fd b (snd (sys_fcntl_fd a (snd (sys_fcntl_fd a w)))))))))"

definition close_channel :: "channel option \<Rightarrow> world \<Rightarrow> world" where
  "close_channel c w = (case c of None \<Rightarrow> w
     | Some c \<Rightarrow> snd (sys_close (ch_child c) (snd (sys_close (ch_parent c) w))))"

record prepared =
  p_pid :: int
  p_audit :: "nat option"
  p_broker :: "channel option"
  p_lock :: "nat option"
  p_inbox :: "channel option"
  p_spec :: enforcement_spec
  p_enf :: enforcement_state
  p_runtime :: string
  p_getenv :: "string \<Rightarrow> string option"

text \<open>The checks and files before the channels.\<close>

definition spawn_checks :: "host \<Rightarrow> string \<Rightarrow> string \<Rightarrow> (string \<times> string) io" where
  "spawn_checks h name runtime_path w =
     (if \<not> validate_name name then (Inl EINVAL, w)
      else (case agent_dir name w of
        Inl e \<Rightarrow> (Inl e, w)
      | Inr dir \<Rightarrow> (case agent_ensure_layout name w of
        (Inl e, w) \<Rightarrow> (Inl e, w)
      | (Inr _, w) \<Rightarrow> (case agent_data_dir name w of
        Inl e \<Rightarrow> (Inl e, w)
      | Inr _ \<Rightarrow> (case agent_runtime_dir name w of
        Inl e \<Rightarrow> (Inl e, w)
      | Inr runtime_dir \<Rightarrow> (case sys_stat dir w of
        (Inl e, w) \<Rightarrow> (Inl e, w)
      | (Inr _, w) \<Rightarrow> (case h_realpath h runtime_path of
        Inl e \<Rightarrow> (Inl e, w)
      | Inr runtime_abs \<Rightarrow> (case sys_access runtime_abs [64] w of
        (Inl _, w) \<Rightarrow> (Inl EACCES, w)
      | (Inr _, w) \<Rightarrow> (Inr (runtime_abs, runtime_dir), w)))))))))"

definition open_audit :: "string \<Rightarrow> nat option io" where
  "open_audit name = with_path name ''audit.log'' (\<lambda>p w.
     case sys_open p [O_WRONLY, O_CREAT, O_APPEND, O_CLOEXEC] 384 w of
       (Inl _, w) \<Rightarrow> (Inr None, w) | (Inr fd, w) \<Rightarrow> (Inr (Some fd), w))"

definition spawn_enforcement :: "host \<Rightarrow> string \<Rightarrow> string \<Rightarrow> int \<times> int \<times> int \<Rightarrow> world \<Rightarrow>
    (enforcement_spec \<times> enforcement_state \<times> (string \<Rightarrow> string option)) \<times> world" where
  "spawn_enforcement h name label ov w =
     (let w = snd (write_agent_setting name ''supervisor'' label w);
          w = snd (write_status name ''starting'' w);
          (getenv, w) = export_profiles_dir_once h w;
          (pcfg, w) = profile_load_for_agent getenv name (h_stack h) w;
          spec = spawn_spec (fst ov) (fst (snd ov)) (snd (snd ov)) pcfg;
          w = snd (enforcement_write_req name spec w);
          ((_, enf), w) = enforcement_parent_setup (h_strerror h) name spec w;
          w = enforcement_audit name label spec enf w
      in ((spec, enf, getenv), w))"

definition opt_broker :: "bool \<Rightarrow> string \<Rightarrow> (channel \<times> nat) option io" where
  "opt_broker want runtime_dir w = (if want then
     (case open_broker runtime_dir w of (Inl e, w) \<Rightarrow> (Inl e, w) | (Inr x, w) \<Rightarrow> (Inr (Some x), w)) else (Inr None, w))"

definition opt_inbox :: "bool \<Rightarrow> channel option io" where
  "opt_inbox want w = (if want then
     (case open_inbox w of (Inl e, w) \<Rightarrow> (Inl e, w) | (Inr x, w) \<Rightarrow> (Inr (Some x), w)) else (Inr None, w))"

definition spawn_channels :: "nat option \<Rightarrow> bool \<Rightarrow> bool \<Rightarrow> string \<Rightarrow>
    (channel option \<times> nat option \<times> channel option \<times> int) io" where
  "spawn_channels audit want_broker want_inbox runtime_dir w =
     (case opt_broker want_broker runtime_dir w of
        (Inl e, w) \<Rightarrow> (Inl e, close_opt audit w)
      | (Inr br, w) \<Rightarrow>
          (let b = map_option fst br; l = map_option snd br in
           case opt_inbox want_inbox w of
             (Inl e, w) \<Rightarrow> (Inl e, close_opt audit (close_opt l (close_channel b w)))
           | (Inr i, w) \<Rightarrow> (case sys_fork w of
               (Inl e, w) \<Rightarrow> (Inl e, close_opt l (close_channel i (close_channel b (close_opt audit w))))
             | (Inr pid, w) \<Rightarrow> (Inr (b, l, i, pid), w))))"

definition spawn_prepare :: "host \<Rightarrow> string \<Rightarrow> string \<Rightarrow> string \<Rightarrow> int \<times> int \<times> int \<Rightarrow> bool \<Rightarrow> bool \<Rightarrow> prepared io" where
  "spawn_prepare h name runtime_path label ov want_broker want_inbox w =
     (case spawn_checks h name runtime_path w of
        (Inl e, w) \<Rightarrow> (Inl e, w)
      | (Inr (runtime_abs, runtime_dir), w) \<Rightarrow> (case open_audit name w of
        (Inl e, w) \<Rightarrow> (Inl e, w)
      | (Inr audit, w) \<Rightarrow>
          (let ((spec, enf, getenv), w) = spawn_enforcement h name label ov w in
           case spawn_channels audit want_broker want_inbox runtime_dir w of
             (Inl e, w) \<Rightarrow> (Inl e, w)
           | (Inr (b, l, i, pid), w) \<Rightarrow> (Inr \<lparr>p_pid = pid, p_audit = audit, p_broker = b, p_lock = l, p_inbox = i,
               p_spec = spec, p_enf = enf, p_runtime = runtime_abs, p_getenv = getenv\<rparr>, w))))"

text \<open>The parent after \<open>fork\<close>.\<close>

definition status_is :: "string \<Rightarrow> string \<Rightarrow> bool" where
  "status_is b s \<longleftrightarrow> takeWhile (\<lambda>c. c \<noteq> NL) (cstr b) = s"

fun wait_started :: "nat \<Rightarrow> string \<Rightarrow> int \<Rightarrow> world \<Rightarrow> world" where
  "wait_started 0 path pid w = w"
| "wait_started (Suc k) path pid w =
     (let (r, w) = read_small_file path 64 w in
      if (case r of Inr b \<Rightarrow> \<not> status_is b ''starting'' \<and> \<not> status_is b ''created'' | Inl _ \<Rightarrow> False) then w
      else (case run_alive pid w of
          (False, w) \<Rightarrow> w
        | (True, w) \<Rightarrow> wait_started k path pid (sys_nanosleep w)))"

definition close_child_ends :: "prepared \<Rightarrow> world \<Rightarrow> world" where
  "close_child_ends p w = close_opt (p_lock p) (close_opt (map_option ch_child (p_inbox p))
     (close_opt (map_option ch_child (p_broker p)) (close_opt (p_audit p) w)))"

definition wait_status :: "string \<Rightarrow> int \<Rightarrow> world \<Rightarrow> world" where
  "wait_status name pid w = (case agent_path MAX_PATHBUF name ''status'' w of
       (Inl _, w) \<Rightarrow> w | (Inr p, w) \<Rightarrow> wait_started 40 p pid w)"

definition spawn_finish :: "string \<Rightarrow> string \<Rightarrow> string \<Rightarrow> prepared \<Rightarrow> unit io" where
  "spawn_finish name runtime_path label p w =
     (let w = close_child_ends p w; pid = p_pid p in
      case with_path name ''pid'' (\<lambda>path. atomic_write_file path (dec_int pid @ [NL]) 384) w of
        (Inl e, w) \<Rightarrow> (Inl e, w)
      | (Inr _, w) \<Rightarrow>
          (let w = snd (enforcement_parent_attach_pid (p_enf p) pid w);
               w = snd (audit_log name (label @ '' forked pid='' @ dec_int pid @ '' pgid='' @ dec_int pid @
                     '' runtime='' @ p_runtime p) w);
               w = snd (write_agent_setting name ''exec'' runtime_path w)
           in (Inr (), wait_status name pid w)))"

definition or_direct :: "string option \<Rightarrow> string" where
  "or_direct label = (case label of Some l \<Rightarrow> l | None \<Rightarrow> ''direct'')"

text \<open>The out parameters: the parent's ends are handed out even when a later step fails.\<close>

record spawned =
  sp_pid :: "int option"
  sp_broker :: "nat option"
  sp_inbox :: "nat option"

definition spawn_agent_runtime :: "host \<Rightarrow> string \<Rightarrow> string \<Rightarrow> string option \<Rightarrow> int \<times> int \<times> int \<Rightarrow> bool \<Rightarrow> bool \<Rightarrow>
    world \<Rightarrow> ((errno + unit) \<times> spawned) \<times> world" where
  "spawn_agent_runtime h name runtime_path supervisor_label ov want_broker want_inbox w =
     (let label = or_direct supervisor_label in
      case spawn_prepare h name runtime_path label ov want_broker want_inbox w of
        (Inl e, w) \<Rightarrow> ((Inl e, \<lparr>sp_pid = None, sp_broker = None, sp_inbox = None\<rparr>), w)
      | (Inr p, w) \<Rightarrow>
          (let (r, w) = spawn_finish name runtime_path label p w;
               b = map_option ch_parent (p_broker p); i = map_option ch_parent (p_inbox p)
           in ((r, \<lparr>sp_pid = (case r of Inl _ \<Rightarrow> None | Inr _ \<Rightarrow> Some (p_pid p)), sp_broker = b, sp_inbox = i\<rparr>), w)))"

text \<open>
  The child. It works on its own copy of the world; a step that ends in \<open>_exit (127)\<close> is
  \<open>None\<close>. \<open>dup2\<close> onto another number clears the close-on-exec flag of the copy.
\<close>

definition INBOX_FD_SLOT :: nat where "INBOX_FD_SLOT = 4"
definition BROKER_LOCK_FD_SLOT :: nat where "BROKER_LOCK_FD_SLOT = 5"

record child =
  cw :: world
  keep :: "nat list"
  cenv :: "(string \<times> string) list"

definition sys_dup2 :: "nat \<Rightarrow> nat \<Rightarrow> nat io" where
  "sys_dup2 old new = call (\<lambda>w. case map_of (fds w) old of
       None \<Rightarrow> (Inl EBADF, w)
     | Some d \<Rightarrow> (Inr new, w\<lparr>fds := AList.update new d (fds w)\<rparr>))"

definition sys_setsid :: "unit io" where
  "sys_setsid = call (\<lambda>w. (Inr (), w))"

definition sys_chdir :: "string \<Rightarrow> unit io" where
  "sys_chdir p = call (\<lambda>w. case follow (fs w) p of
       Inl e \<Rightarrow> (Inl e, w)
     | Inr q \<Rightarrow> (if is_dir (fs w) q then Inr ()
                 else Inl (if map_of (fs w) q = None then miss_err (fs w) q else ENOTDIR), w))"

definition std_dup :: "nat \<Rightarrow> nat \<Rightarrow> child \<Rightarrow> child" where
  "std_dup old new c = (case sys_dup2 old new (cw c) of
       (Inl _, w) \<Rightarrow> c\<lparr>cw := w\<rparr>
     | (Inr _, w) \<Rightarrow> c\<lparr>cw := w, keep := (if old = new then keep c else new # keep c)\<rparr>)"

definition child_stdio :: "nat option \<Rightarrow> child \<Rightarrow> child" where
  "child_stdio audit c =
     (let c = (case sys_open ''/dev/null'' [O_RDONLY, O_CLOEXEC] 0 (cw c) of
            (Inl _, w) \<Rightarrow> c\<lparr>cw := w\<rparr>
          | (Inr n, w) \<Rightarrow> (let c = std_dup n 0 (c\<lparr>cw := w\<rparr>) in c\<lparr>cw := snd (sys_close n (cw c))\<rparr>))
      in case audit of
           None \<Rightarrow> c
         | Some a \<Rightarrow> (let c = std_dup a 2 (std_dup a 1 c) in c\<lparr>cw := snd (sys_close a (cw c))\<rparr>))"

text \<open>One inherited end moved to its slot, with the close-on-exec flag cleared.\<close>

definition to_slot :: "nat \<Rightarrow> nat \<Rightarrow> child \<Rightarrow> child option" where
  "to_slot old slot c = (case sys_dup2 old slot (cw c) of
       (Inl _, w) \<Rightarrow> None
     | (Inr _, w) \<Rightarrow>
         (let c = c\<lparr>cw := w, keep := (if old = slot then keep c else slot # keep c)\<rparr>;
              c = (case sys_fcntl_fd slot (cw c) of
                    (Inl _, w) \<Rightarrow> c\<lparr>cw := w\<rparr>
                  | (Inr _, w) \<Rightarrow> (case sys_fcntl_fd slot w of
                        (Inl _, w) \<Rightarrow> c\<lparr>cw := w\<rparr>
                      | (Inr _, w) \<Rightarrow> c\<lparr>cw := w, keep := slot # keep c\<rparr>))
          in Some (if old \<noteq> slot then c\<lparr>cw := snd (sys_close old (cw c))\<rparr> else c)))"

definition drop_end :: "nat \<Rightarrow> child \<Rightarrow> child" where
  "drop_end n c = c\<lparr>cw := snd (sys_close n (cw c))\<rparr>"

definition child_broker :: "channel option \<Rightarrow> child \<Rightarrow> child option" where
  "child_broker b c = (case b of None \<Rightarrow> Some c
     | Some b \<Rightarrow> to_slot (ch_child b) 3 (drop_end (ch_parent b) c))"

definition child_inbox :: "channel option \<Rightarrow> child \<Rightarrow> child option" where
  "child_inbox i c = (case i of None \<Rightarrow> Some c
     | Some i \<Rightarrow> map_option (\<lambda>c. c\<lparr>cenv := (''AGENTCTL_INBOX_FD'', ''4'') # cenv c\<rparr>)
         (to_slot (ch_child i) INBOX_FD_SLOT (drop_end (ch_parent i) c)))"

definition child_lock :: "nat option \<Rightarrow> child \<Rightarrow> child option" where
  "child_lock l c = (case l of None \<Rightarrow> Some c
     | Some l \<Rightarrow> map_option (\<lambda>c. c\<lparr>cenv := (''AGENTCTL_BROKER_LOCK_FD'', ''5'') # cenv c\<rparr>)
         (to_slot l BROKER_LOCK_FD_SLOT c))"

definition child_slots :: "prepared \<Rightarrow> child \<Rightarrow> child option" where
  "child_slots p c = (case child_broker (p_broker p) (child_stdio (p_audit p) c) of
       None \<Rightarrow> None
     | Some c \<Rightarrow> (case child_inbox (p_inbox p) c of
           None \<Rightarrow> None
         | Some c \<Rightarrow> child_lock (p_lock p) c))"

record exec_image =
  e_path :: string
  e_argv :: "string list"
  e_fds :: "(nat, desc) alist"
  e_env :: "(string \<times> string) list"
  e_limits :: "(rlimit \<times> int) list"
  e_rules :: "ruleset option"
  e_filter :: "bpf list option"

text \<open>Whether the installed filter lets \<open>execve\<close> through.\<close>

definition exec_allowed :: "host \<Rightarrow> bpf list option \<Rightarrow> bool" where
  "exec_allowed h prog = (case prog of None \<Rightarrow> True
     | Some p \<Rightarrow> (case h_nr h ''execve'' of None \<Rightarrow> False
         | Some x \<Rightarrow> bpf_run \<lparr>sd_nr = x, sd_arch = h_arch h\<rparr> p 0 = Some RET_ALLOW))"

definition child_limits :: "string \<Rightarrow> child \<Rightarrow> (rlimit \<times> int) list \<times> child" where
  "child_limits name c = (case agent_path MAX_PATHBUF name ''limits'' (cw c) of
       (Inl _, w) \<Rightarrow> ([], c\<lparr>cw := w\<rparr>)
     | (Inr p, w) \<Rightarrow> (let (ls, w) = apply_limits_from_file p w in (ls, c\<lparr>cw := w\<rparr>)))"

definition child_image :: "host \<Rightarrow> string \<Rightarrow> prepared \<Rightarrow> child \<Rightarrow> exec_image option" where
  "child_image h name p c =
     (let (ls, c) = child_limits name c;
          ((conf, _), w) = enforcement_child_apply (h_strerror h) (h_kernel h) (h_arch h) (h_nr h) name
             (p_runtime p) (p_spec p) (p_enf p) (cw c);
          argv0 = ''agent:'' @ name
      in if length argv0 \<ge> MAX_NAME + 16 \<or> \<not> exec_allowed h (filter_prog conf) then None
         else Some \<lparr>e_path = p_runtime p, e_argv = [argv0, name],
           e_fds = filter (\<lambda>(n, _). n < 3 \<or> n \<in> set (keep c)) (fds w), e_env = cenv c,
           e_limits = ls, e_rules = rules conf, e_filter = filter_prog conf\<rparr>)"

definition child_main :: "host \<Rightarrow> string \<Rightarrow> string \<Rightarrow> prepared \<Rightarrow> world \<Rightarrow> exec_image option" where
  "child_main h name data_dir p w = (case sys_setsid w of
       (Inl _, w) \<Rightarrow> None
     | (Inr _, w) \<Rightarrow> (case sys_chdir data_dir w of
           (Inl _, w) \<Rightarrow> None
         | (Inr _, w) \<Rightarrow> (case child_slots p \<lparr>cw = w, keep = [], cenv = []\<rparr> of
               None \<Rightarrow> None | Some c \<Rightarrow> child_image h name p c)))"

section \<open>Descriptors of the parent\<close>

lemma kfd_export [fd_intros]: "fds w = d \<Longrightarrow> kfd d (export_profiles_dir_once h w)"
  unfolding export_profiles_dir_once_def Let_def by (intro fd_intros)

lemma kfd_spawn_checks [fd_intros]: "fds w = d \<Longrightarrow> kfd d (spawn_checks h n r w)"
  unfolding spawn_checks_def by (intro fd_intros)

lemma kfd_snd [simp]:
  "fds (snd (write_agent_setting a l v w)) = fds w" "fds (snd (write_status a t w)) = fds w"
  "fds (snd (audit_log a m w)) = fds w" "fds (snd (enforcement_write_req a sp w)) = fds w"
  "fds (snd (enforcement_parent_attach_pid st pid w)) = fds w"
  by (intro kfdD fd_intros refl)+

lemma fds_enforcement_audit [simp]: "fds (enforcement_audit n l sp st w) = fds w"
  by (simp add: enforcement_audit_def)

lemma kfd_spawn_enforcement [fd_intros]: "fds w = d \<Longrightarrow> kfd d (spawn_enforcement h n l ov w)"
  unfolding spawn_enforcement_def Let_def
  by (intro fd_intros) (simp_all add: kfd_def split: prod.splits)

lemma open_audit_held:
  assumes "fds w = d" "open_audit name w = (Inr a, w')"
  shows "held d (case a of None \<Rightarrow> [] | Some n \<Rightarrow> [n]) w'"
proof -
  obtain p w1 where p: "agent_path MAX_PATHBUF name ''audit.log'' w = (Inr p, w1)"
    using assms(2) by (auto simp: open_audit_def with_path_def split: prod.splits sum.splits)
  have d1: "held d [] w1" using kfdD [OF kfd_agent_path [OF assms(1)], of MAX_PATHBUF name "''audit.log''"] p by simp
  obtain x w2 where x: "sys_open p [O_WRONLY, O_CREAT, O_APPEND, O_CLOEXEC] 384 w1 = (x, w2)" by fastforce
  show ?thesis
  proof (cases x)
    case (Inl e)
    then show ?thesis using assms(2) p x held_open_fail [OF d1, of p] by (auto simp: open_audit_def with_path_def)
  next
    case (Inr n)
    then show ?thesis using assms(2) p x held_open [OF d1, of p] by (auto simp: open_audit_def with_path_def)
  qed
qed

lemma open_audit_fail: "fds w = d \<Longrightarrow> open_audit name w = (Inl e, w') \<Longrightarrow> fds w' = d"
  using kfdD [OF kfd_agent_path, of w d MAX_PATHBUF name "''audit.log''"]
  by (auto simp: open_audit_def with_path_def split: prod.splits sum.splits)

definition chan_fds :: "channel option \<Rightarrow> nat list" where
  "chan_fds c = (case c of None \<Rightarrow> [] | Some c \<Rightarrow> [ch_parent c, ch_child c])"

definition opt_fd :: "nat option \<Rightarrow> nat list" where
  "opt_fd n = (case n of None \<Rightarrow> [] | Some n \<Rightarrow> [n])"

lemma held_distinct: "held d ns w \<Longrightarrow> distinct ns"
  by (simp add: held_def)

lemma held_close_opt:
  assumes "held d (a @ opt_fd n @ b) w"
  shows "held d (a @ b) (close_opt n w)"
proof (cases n)
  case (Some m)
  have "distinct (a @ m # b)" using held_distinct [OF assms] Some by (simp add: opt_fd_def)
  then have "filter (\<lambda>x. x \<noteq> m) a = a" "filter (\<lambda>x. x \<noteq> m) b = b" by (auto intro!: filter_True)
  then have "filter (\<lambda>x. x \<noteq> m) (a @ m # b) = a @ b" by simp
  with held_close [OF assms, of m] Some show ?thesis by (simp add: opt_fd_def close_opt_def)
qed (use assms in \<open>simp add: opt_fd_def close_opt_def\<close>)

lemma held_close_channel:
  assumes "held d (a @ chan_fds c @ b) w"
  shows "held d (a @ b) (close_channel c w)"
proof (cases c)
  case (Some ch)
  have h: "held d (a @ opt_fd (Some (ch_parent ch)) @ (ch_child ch # b)) w"
    using assms Some by (simp add: chan_fds_def opt_fd_def)
  from held_close_opt [OF h] have "held d (a @ opt_fd (Some (ch_child ch)) @ b) (close_opt (Some (ch_parent ch)) w)"
    by (simp add: opt_fd_def)
  from held_close_opt [OF this] Some show ?thesis by (simp add: close_channel_def close_opt_def)
qed (use assms in \<open>simp add: chan_fds_def close_channel_def\<close>)

lemma open_broker_held:
  assumes "held d ns w" "open_broker rd w = (r, w')"
  shows "case r of Inl _ \<Rightarrow> held d ns w' | Inr (c, l) \<Rightarrow> held d (ns @ chan_fds (Some c) @ [l]) w'"
proof -
  obtain x w1 where x: "sys_socketpair w = (x, w1)" by fastforce
  show ?thesis
  proof (cases x)
    case (Inl e)
    then show ?thesis using assms x held_socketpair_fail by (auto simp: open_broker_def)
  next
    case (Inr ab)
    obtain a b where ab: "ab = (a, b)" by fastforce
    have h1: "held d (ns @ chan_fds (Some \<lparr>ch_parent = a, ch_child = b\<rparr>) @ []) w1"
      using held_socketpair [OF assms(1)] x Inr ab by (simp add: chan_fds_def)
    have up: "held d ns (snd (sys_close b (snd (sys_close a v))))" if "fds v = fds w1" for v
      using held_close_channel [OF held_keep [OF h1 that]] by (simp add: close_channel_def)
    let ?l = "join rd ''broker.lock''"
    obtain y w2 where y: "sys_open ?l [O_RDWR, O_CREAT, O_CLOEXEC] 384 w1 = (y, w2)" by fastforce
    show ?thesis
    proof (cases "MAX_PATHBUF \<le> length ?l")
      case True
      then show ?thesis using assms(2) x Inr ab up [OF refl] by (auto simp: open_broker_def Let_def)
    next
      case False
      show ?thesis
      proof (cases y)
        case (Inl e)
        then show ?thesis
          using assms(2) x \<open>x = Inr ab\<close> ab y False up [OF kfd_open_fail [OF refl, of ?l]]
          by (auto simp: open_broker_def Let_def)
      next
        case (Inr l)
        have "held d (ns @ chan_fds (Some \<lparr>ch_parent = a, ch_child = b\<rparr>) @ [l]) (snd (sys_unlink ?l w2))"
          using held_kfd [OF held_open [OF h1] kfd_unlink [OF refl]] y Inr by simp
        then show ?thesis using assms(2) x \<open>x = Inr ab\<close> ab y False Inr by (auto simp: open_broker_def Let_def)
      qed
    qed
  qed
qed

lemma fds_fcntl [simp]: "fds (snd (sys_fcntl_fd n w)) = fds w"
  by (rule kfdD [OF kfd_fcntl]) simp

lemma open_inbox_held:
  assumes "held d ns w" "open_inbox w = (r, w')"
  shows "case r of Inl _ \<Rightarrow> held d ns w' | Inr c \<Rightarrow> held d (ns @ chan_fds (Some c)) w'"
proof -
  obtain x w1 where x: "sys_socketpair w = (x, w1)" by fastforce
  show ?thesis
  proof (cases x)
    case (Inl e)
    then show ?thesis using assms x held_socketpair_fail by (auto simp: open_inbox_def)
  next
    case (Inr ab)
    obtain a b where ab: "ab = (a, b)" by fastforce
    have "held d (ns @ [a, b]) w1" using held_socketpair [OF assms(1)] x Inr ab by simp
    then show ?thesis
      using assms(2) x Inr ab by (auto simp: open_inbox_def chan_fds_def elim!: held_keep)
  qed
qed

lemma spawn_channels_held:
  assumes "held d (opt_fd audit) w" "spawn_channels audit wb wi rd w = (r, w')"
  shows "case r of Inl _ \<Rightarrow> fds w' = d
     | Inr (b, l, i, pid) \<Rightarrow> held d (opt_fd audit @ chan_fds b @ opt_fd l @ chan_fds i) w'"
proof -
  obtain x w1 where x: "opt_broker wb rd w = (x, w1)" by fastforce
  have hx: "case x of Inl _ \<Rightarrow> held d (opt_fd audit) w1
      | Inr br \<Rightarrow> held d (opt_fd audit @ chan_fds (map_option fst br) @ opt_fd (map_option snd br)) w1"
    using x open_broker_held [OF assms(1), of rd] assms(1)
    by (auto simp: opt_broker_def opt_fd_def chan_fds_def split: if_splits prod.splits sum.splits)
  show ?thesis
  proof (cases x)
    case (Inl e)
    have "held d ([] @ opt_fd audit @ []) w1" using hx Inl by simp
    then have "fds (close_opt audit w1) = d" using held_close_opt by fastforce
    then show ?thesis using assms(2) x Inl by (auto simp: spawn_channels_def)
  next
    case (Inr br)
    define b l where bl: "b = map_option fst br" "l = map_option snd br"
    have h1: "held d (opt_fd audit @ chan_fds b @ opt_fd l) w1" using hx Inr bl by simp
    obtain y w2 where y: "opt_inbox wi w1 = (y, w2)" by fastforce
    have hy: "case y of Inl _ \<Rightarrow> held d (opt_fd audit @ chan_fds b @ opt_fd l) w2
        | Inr i \<Rightarrow> held d (opt_fd audit @ chan_fds b @ opt_fd l @ chan_fds i) w2"
      using y open_inbox_held [OF h1] h1
      by (auto simp: opt_inbox_def chan_fds_def split: if_splits prod.splits sum.splits)
    show ?thesis
    proof (cases y)
      case (Inl e)
      have "held d (opt_fd audit @ opt_fd l @ []) (close_channel b w2)"
        using hy Inl held_close_channel [of d "opt_fd audit" b "opt_fd l" w2] by simp
      from held_close_opt [OF this] have "held d ([] @ opt_fd audit @ []) (close_opt l (close_channel b w2))" by simp
      from held_close_opt [OF this] have "fds (close_opt audit (close_opt l (close_channel b w2))) = d" by simp
      then show ?thesis using assms(2) x y Inr Inl by (auto simp: spawn_channels_def Let_def bl)
    next
      case (Inr i)
      have h2: "held d (opt_fd audit @ chan_fds b @ opt_fd l @ chan_fds i) w2" using hy Inr by simp
      obtain z w3 where z: "sys_fork w2 = (z, w3)" by fastforce
      have h3: "held d ([] @ opt_fd audit @ (chan_fds b @ opt_fd l @ chan_fds i)) w3"
        using held_kfd [OF h2 kfd_fork [OF refl]] z by simp
      have "held d (([] @ (chan_fds b @ opt_fd l)) @ chan_fds i @ []) (close_opt audit w3)"
        using held_close_opt [OF h3] by simp
      then have "held d ([] @ chan_fds b @ (opt_fd l @ chan_fds i)) (close_opt audit w3)" by simp
      from held_close_channel [OF this]
      have "held d (opt_fd l @ chan_fds i @ []) (close_channel b (close_opt audit w3))" by simp
      from held_close_channel [OF this]
      have "held d ([] @ opt_fd l @ []) (close_channel i (close_channel b (close_opt audit w3)))" by simp
      from held_close_opt [OF this]
      have "fds (close_opt l (close_channel i (close_channel b (close_opt audit w3)))) = d" by simp
      then show ?thesis
        using assms(2) x y z h3 \<open>x = Inr br\<close> Inr
        by (auto simp: spawn_channels_def Let_def bl split: sum.splits)
    qed
  qed
qed

lemma spawn_prepare_held:
  "case spawn_prepare h name runtime_path label ov want_broker want_inbox w of
     (Inl _, w') \<Rightarrow> fds w' = fds w
   | (Inr p, w') \<Rightarrow> held (fds w)
       (opt_fd (p_audit p) @ chan_fds (p_broker p) @ opt_fd (p_lock p) @ chan_fds (p_inbox p)) w'"
proof -
  obtain c w1 where c: "spawn_checks h name runtime_path w = (c, w1)" by fastforce
  have d1: "fds w1 = fds w" using kfdD [OF kfd_spawn_checks [OF refl]] c by (metis snd_conv)
  show ?thesis
  proof (cases c)
    case (Inr rr)
    obtain ra rd where rr: "rr = (ra, rd)" by fastforce
    obtain a w2 where a: "open_audit name w1 = (a, w2)" by fastforce
    show ?thesis
    proof (cases a)
      case (Inl e)
      then show ?thesis using c \<open>c = Inr rr\<close> rr a open_audit_fail [OF d1] by (simp add: spawn_prepare_def)
    next
      case (Inr au)
      have h2: "held (fds w) (opt_fd au) w2"
        using open_audit_held [OF d1] a Inr unfolding opt_fd_def by blast
      obtain sp en ge w3 where se: "spawn_enforcement h name label ov w2 = ((sp, en, ge), w3)"
        by (metis surj_pair)
      have h3: "held (fds w) (opt_fd au) w3"
        using held_kfd [OF h2 kfd_spawn_enforcement [OF refl], of h name label ov] se by simp
      obtain r w4 where r: "spawn_channels au want_broker want_inbox rd w3 = (r, w4)" by fastforce
      show ?thesis
        using spawn_channels_held [OF h3 r] c \<open>c = Inr rr\<close> rr a Inr se r
        by (auto simp: spawn_prepare_def split: sum.splits)
    qed
  qed (use c d1 in \<open>simp add: spawn_prepare_def\<close>)
qed

text \<open>
  C27. Everything \<open>spawn_agent_runtime\<close> does before and including \<open>fork\<close>, under every
  schedule of failing system calls: when it fails, the descriptor table of the parent is
  what it was, and when it succeeds, the new descriptors are exactly the audit log, the
  two ends of the broker channel, the lock file and the two ends of the inbox channel.\<close>

theorem spawn_prepare_descriptors:
  "case spawn_prepare h name runtime_path label ov want_broker want_inbox w of
     (Inl _, w') \<Rightarrow> fds w' = fds w
   | (Inr p, w') \<Rightarrow> held (fds w)
       (opt_fd (p_audit p) @ chan_fds (p_broker p) @ opt_fd (p_lock p) @ chan_fds (p_inbox p)) w'"
  by (rule spawn_prepare_held)

section \<open>The child\<close>

lemma child_image_denied:
  assumes "\<And>m n x. h_nr h m = Some x \<Longrightarrow> h_nr h n = Some x \<Longrightarrow> m = n" "h_nr h ''execve'' = Some x"
    and "h_arch h \<noteq> 0" "k_nnp (h_kernel h) = Inr ()" "k_seccomp (h_kernel h) = Inr ()"
    and "sc_mode (p_spec p) = SECCOMP_MINIMAL"
  shows "child_image h name p c = None"
proof -
  obtain ls c' where l: "child_limits name c = (ls, c')" by fastforce
  obtain conf st w where e: "enforcement_child_apply (h_strerror h) (h_kernel h) (h_arch h) (h_nr h) name
     (p_runtime p) (p_spec p) (p_enf p) (cw c') = ((conf, st), w)" by (metis surj_pair)
  from e assms(3-6) obtain prog where f: "filter_prog conf = Some prog"
    by (auto simp: enforcement_child_apply_def seccomp_apply_linux_def Let_def split: prod.splits)
  have "bpf_run \<lparr>sd_nr = x, sd_arch = h_arch h\<rparr> prog 0 = Some (RET_ERRNO EPERM)"
    using assms(1) by (rule seccomp_minimal_denies_exec [OF _ assms(2) e f])
  then show ?thesis using assms(2) l e f by (simp add: child_image_def exec_allowed_def)
qed

text \<open>
  C29. An agent whose profile asks for the minimal system call filter never starts on a kernel
  that accepts the filter. The child installs it before \<open>execl\<close>, the allow list does not
  hold \<open>execve\<close>, and so, whatever else the child does, it ends in \<open>_exit (127)\<close>. The numbers
  of distinct system calls are distinct.\<close>

theorem minimal_seccomp_never_execs:
  assumes "\<And>m n x. h_nr h m = Some x \<Longrightarrow> h_nr h n = Some x \<Longrightarrow> m = n" "h_nr h ''execve'' = Some x"
    and "h_arch h \<noteq> 0" "k_nnp (h_kernel h) = Inr ()" "k_seccomp (h_kernel h) = Inr ()"
    and "sc_mode (p_spec p) = SECCOMP_MINIMAL"
  shows "child_main h name data_dir p w = None"
  using child_image_denied [OF assms]
  by (auto simp: child_main_def split: prod.splits sum.splits option.splits)

definition demo_host :: host where
  "demo_host = \<lparr>h_getenv = Map.empty, h_cwd = None, h_realpath = Inr, h_strerror = (\<lambda>_. []),
     h_kernel = demo_kernel, h_arch = 7, h_nr = demo_nr, h_stack = \<lparr>profile_name = [],
     dispatch = DISPATCH_SINGLE_SHOT, artifact_pol = ARTIFACT_OVERWRITE, idle_timeout_sec = 0, enforce_fs = False,
     seccomp = False, cgroup = False, cgroup_memory_max = 0, cgroup_pids_max = 0, cgroup_cpu_max = [], raw = []\<rparr>\<rparr>"

definition demo_prepared :: prepared where
  "demo_prepared = \<lparr>p_pid = 0, p_audit = None, p_broker = Some \<lparr>ch_parent = 6, ch_child = 7\<rparr>, p_lock = Some 8,
     p_inbox = Some \<lparr>ch_parent = 9, ch_child = 10\<rparr>, p_spec = demo_spec, p_enf = state0, p_runtime = ''/bin/x'',
     p_getenv = Map.empty\<rparr>"

theorem minimal_seccomp_never_execs_witness:
  "child_main demo_host ''a'' ''/d'' demo_prepared world0 = None"
proof -
  have inj: "m = n" if "h_nr demo_host m = Some x" "h_nr demo_host n = Some x" for m n x
    using that by (auto simp: demo_host_def demo_nr_def split: if_splits)
  show ?thesis
    by (rule minimal_seccomp_never_execs [where x = 59])
      (erule (1) inj, simp_all add: demo_host_def demo_nr_def demo_kernel_def demo_prepared_def demo_spec_def)
qed

text \<open>\<open>keeps n d c\<close>: no call fails any more and descriptor \<open>n\<close> of the child is \<open>d\<close>.\<close>

definition keeps :: "nat \<Rightarrow> desc \<Rightarrow> child \<Rightarrow> bool" where
  "keeps n d c \<longleftrightarrow> sched (cw c) = [] \<and> map_of (fds (cw c)) n = Some d"

lemma close_lookup: "sched w = [] \<Longrightarrow> sched (snd (sys_close m w)) = [] \<and>
    map_of (fds (snd (sys_close m w))) = (map_of (fds w))(m := None)"
  by (auto simp: sys_close_def delete_conv' fun_eq_iff)

lemma dup2_lookup: "sched w = [] \<Longrightarrow> map_of (fds w) old = Some d \<Longrightarrow>
    sys_dup2 old new w = (Inr new, w\<lparr>fds := AList.update new d (fds w)\<rparr>)"
  by (simp add: sys_dup2_def)

lemma keeps_drop_end: "keeps n d c \<Longrightarrow> m \<noteq> n \<Longrightarrow> keeps n d (drop_end m c)"
  by (simp add: keeps_def drop_end_def close_lookup)

lemma drop_end_same [simp]: "keep (drop_end m c) = keep c" "cenv (drop_end m c) = cenv c"
  by (simp_all add: drop_end_def)

lemma keeps_std_dup: "keeps n d c \<Longrightarrow> new \<noteq> n \<Longrightarrow> keeps n d (std_dup old new c)"
  by (auto simp: keeps_def std_dup_def sys_dup2_def update_conv' split: option.splits)

lemma std_dup_env [simp]: "cenv (std_dup old new c) = cenv c"
  by (simp add: std_dup_def split: prod.splits sum.splits)

lemma open_lookup:
  assumes "sched w = []" "map_of (fds w) n = Some d" "sys_open p fl m w = (r, w')"
  shows "sched w' = [] \<and> map_of (fds w') n = Some d \<and> r \<noteq> Inr n"
proof -
  have q: "sched w' = []" using assms(1,3)
    by (auto simp: sys_open_def new_fd_def put_inode_def Let_def
        split: sum.splits option.splits node.splits if_splits)
  show ?thesis
  proof (cases r)
    case (Inl e)
    then show ?thesis using q kfd_open_fail [OF refl, of p fl m w e] assms(2,3) by simp
  next
    case (Inr k)
    have "held (fds w) [k] w'" using held_open [of "fds w" "[]" w] assms(3) Inr by simp
    then obtain x where "fds w' = fds w @ x" "map_of (fds w) k = None" by (auto simp: held_def)
    then show ?thesis using q Inr assms(2) by (auto simp: map_add_def)
  qed
qed

lemma keeps_stdio:
  assumes "keeps n d c" "3 \<le> n" "audit \<noteq> Some n"
  shows "keeps n d (child_stdio audit c)"
proof -
  obtain r w where o: "sys_open ''/dev/null'' [O_RDONLY, O_CLOEXEC] 0 (cw c) = (r, w)" by fastforce
  define c1 where "c1 = (case r of Inl _ \<Rightarrow> c\<lparr>cw := w\<rparr> | Inr m \<Rightarrow> drop_end m (std_dup m 0 (c\<lparr>cw := w\<rparr>)))"
  have k: "keeps n d (c\<lparr>cw := w\<rparr>)" "r \<noteq> Inr n"
    using open_lookup [OF _ _ o] assms(1) by (auto simp: keeps_def)
  then have "keeps n d c1"
    using keeps_std_dup [OF k(1), of 0] assms(2) by (auto simp: c1_def intro!: keeps_drop_end split: sum.splits)
  then have "keeps n d (std_dup a 2 (std_dup a 1 c1))" for a
    using assms(2) keeps_std_dup by simp
  moreover have "child_stdio audit c = (case audit of None \<Rightarrow> c1 | Some a \<Rightarrow> drop_end a (std_dup a 2 (std_dup a 1 c1)))"
    using o by (auto simp: child_stdio_def c1_def drop_end_def Let_def split: sum.splits option.splits)
  ultimately show ?thesis
    using \<open>keeps n d c1\<close> assms(3) keeps_drop_end by (auto split: option.splits)
qed

lemma child_stdio_env [simp]: "cenv (child_stdio audit c) = cenv c"
  by (simp add: child_stdio_def Let_def split: prod.splits sum.splits option.splits)

lemma to_slot_keeps:
  assumes "keeps old d c"
  obtains c' where "to_slot old slot c = Some c'" "keeps slot d c'" "slot \<in> set (keep c')"
    "set (keep c) \<subseteq> set (keep c')" "cenv c' = cenv c"
    "\<And>n e. keeps n e c \<Longrightarrow> n \<noteq> old \<Longrightarrow> n \<noteq> slot \<Longrightarrow> keeps n e c'"
  using assms that
  by (cases "old = slot")
    (auto simp: to_slot_def keeps_def dup2_lookup sys_fcntl_fd_def update_conv' close_lookup Let_def)

text \<open>
  C28. The descriptor slots of a runtime. When the parent's descriptors were handed out in the
  order \<open>spawn_agent_runtime\<close> opens them (above the standard ones, the audit log
  first) and no call of the child fails, the runtime finds the broker channel at 3, the inbox
  channel at 4 and the broker lock at 5, all three without the close-on-exec flag, and the
  two variables that announce the inbox and the lock; moving one never destroys another.\<close>

theorem child_fd_slots:
  assumes "p_broker p = Some \<lparr>ch_parent = b0, ch_child = b1\<rparr>" "p_lock p = Some l"
    and "p_inbox p = Some \<lparr>ch_parent = i0, ch_child = i1\<rparr>"
    and "3 \<le> b0" "b0 < b1" "b1 < l" "l < i0" "i0 < i1"
    and "case p_audit p of None \<Rightarrow> True | Some a \<Rightarrow> a < b0"
    and "keeps b1 db c" "keeps l dl c" "keeps i1 di c"
  shows "\<exists>c'. child_slots p c = Some c' \<and> map_of (fds (cw c')) 3 = Some db \<and>
    map_of (fds (cw c')) INBOX_FD_SLOT = Some di \<and> map_of (fds (cw c')) BROKER_LOCK_FD_SLOT = Some dl \<and>
    {3, 4, 5} \<subseteq> set (keep c') \<and>
    cenv c' = (''AGENTCTL_BROKER_LOCK_FD'', ''5'') # (''AGENTCTL_INBOX_FD'', ''4'') # cenv c"
proof -
  let ?c0 = "drop_end b0 (child_stdio (p_audit p) c)"
  have k0: "keeps b1 db ?c0" "keeps l dl ?c0" "keeps i1 di ?c0"
    using assms(4-12) by (auto intro!: keeps_drop_end keeps_stdio split: option.splits)
  from to_slot_keeps [OF k0(1), of 3] obtain c1 where 1: "to_slot b1 3 ?c0 = Some c1" "keeps 3 db c1"
      "3 \<in> set (keep c1)" "cenv c1 = cenv ?c0" "\<And>n e. keeps n e ?c0 \<Longrightarrow> n \<noteq> b1 \<Longrightarrow> n \<noteq> 3 \<Longrightarrow> keeps n e c1"
    by metis
  let ?c1 = "drop_end i0 c1"
  have k1: "keeps 3 db ?c1" "keeps l dl ?c1" "keeps i1 di ?c1"
    using 1(2) 1(5) [OF k0(2)] 1(5) [OF k0(3)] assms(4-8) by (auto intro!: keeps_drop_end)
  from to_slot_keeps [OF k1(3), of 4] obtain c2 where 2: "to_slot i1 4 ?c1 = Some c2" "keeps 4 di c2"
      "4 \<in> set (keep c2)" "set (keep ?c1) \<subseteq> set (keep c2)" "cenv c2 = cenv ?c1"
      "\<And>n e. keeps n e ?c1 \<Longrightarrow> n \<noteq> i1 \<Longrightarrow> n \<noteq> 4 \<Longrightarrow> keeps n e c2"
    by metis
  let ?c2 = "c2\<lparr>cenv := (''AGENTCTL_INBOX_FD'', ''4'') # cenv c2\<rparr>"
  have k2: "keeps 3 db ?c2" "keeps l dl ?c2" "keeps 4 di ?c2"
    using 2(2) 2(6) [OF k1(1)] 2(6) [OF k1(2)] assms(4-8) by (auto simp: keeps_def)
  from to_slot_keeps [OF k2(2), of 5] obtain c3 where 3: "to_slot l 5 ?c2 = Some c3" "keeps 5 dl c3"
      "5 \<in> set (keep c3)" "set (keep ?c2) \<subseteq> set (keep c3)" "cenv c3 = cenv ?c2"
      "\<And>n e. keeps n e ?c2 \<Longrightarrow> n \<noteq> l \<Longrightarrow> n \<noteq> 5 \<Longrightarrow> keeps n e c3"
    by metis
  have k3: "keeps 3 db c3" "keeps 4 di c3" using 3(6) [OF k2(1)] 3(6) [OF k2(3)] assms(4-8) by auto
  have "child_slots p c = Some (c3\<lparr>cenv := (''AGENTCTL_BROKER_LOCK_FD'', ''5'') # cenv c3\<rparr>)"
    using assms(1-3) 1(1) 2(1) 3(1)
    by (simp add: child_slots_def child_broker_def child_inbox_def child_lock_def INBOX_FD_SLOT_def BROKER_LOCK_FD_SLOT_def)
  moreover have "{3, 4, 5} \<subseteq> set (keep c3)" using 1(3) 2(3,4) 3(3,4) by auto
  ultimately show ?thesis
    using k3 3(2,5) 2(5) 1(4) by (simp add: keeps_def INBOX_FD_SLOT_def BROKER_LOCK_FD_SLOT_def)
qed

definition demo_child :: child where
  "demo_child = \<lparr>cw = world0\<lparr>fds := [(0, DSock 0), (1, DSock 0), (2, DSock 0), (3, DSock 9), (4, DSock 1), (5, DSock 2),
     (6, DSock 5), (7, DSock 3), (8, DSock 4)]\<rparr>, keep = [], cenv = []\<rparr>"

definition demo_slots :: prepared where
  "demo_slots = demo_prepared\<lparr>p_audit := Some 3, p_broker := Some \<lparr>ch_parent = 4, ch_child = 5\<rparr>, p_lock := Some 6,
     p_inbox := Some \<lparr>ch_parent = 7, ch_child = 8\<rparr>\<rparr>"

theorem child_fd_slots_witness:
  "\<exists>c'. child_slots demo_slots demo_child = Some c' \<and> map_of (fds (cw c')) 3 = Some (DSock 2) \<and>
    map_of (fds (cw c')) INBOX_FD_SLOT = Some (DSock 4) \<and> map_of (fds (cw c')) BROKER_LOCK_FD_SLOT = Some (DSock 5) \<and>
    {3, 4, 5} \<subseteq> set (keep c') \<and>
    cenv c' = (''AGENTCTL_BROKER_LOCK_FD'', ''5'') # (''AGENTCTL_INBOX_FD'', ''4'') # cenv demo_child"
  by (rule child_fd_slots [where ?b0.0 = 4 and ?b1.0 = 5 and l = 6 and ?i0.0 = 7 and ?i1.0 = 8])
    (simp_all add: demo_slots_def demo_prepared_def demo_child_def keeps_def world0_def)

end
