(* ===== verification/Broker.thy ===== *)
theory Broker
  imports FileIO
begin

text \<open>
  The capability broker's wire format and policy (\<open>src/broker.c\<close>): correlation tokens, the
  header parser, the two response formatters and the allow-pattern check. The handler that
  drives them is in the theory of the daemon's broker.

  The parser keeps, as the code does, which fields it has seen: a field is \<open>None\<close> until its
  line was read. Field values are used as C strings, so a field is cut at a NUL.
\<close>

section \<open>Definitions\<close>

definition BROKER_MSG_MAX :: nat where "BROKER_MSG_MAX = 512"
definition BROKER_CAP_MAX :: nat where "BROKER_CAP_MAX = 128"
definition BROKER_TOKEN_LEN :: nat where "BROKER_TOKEN_LEN = 8"
definition BROKER_REASON_MAX :: nat where "BROKER_REASON_MAX = 128"
definition MAX_TASK_ID :: nat where "MAX_TASK_ID = 32"

datatype broker_verb = BROKER_VERB_UNKNOWN | BROKER_VERB_REQUEST | BROKER_VERB_ISSUED | BROKER_VERB_DENIED

record broker_msg =
  bverb :: broker_verb
  cap :: string
  btask_id :: string
  reason :: string
  token :: string

text \<open>
  Four bytes of the random device, or failure. A read that is interrupted is repeated; any
  other error, or the end of the device, ends the loop.
\<close>

function token_read :: "nat \<Rightarrow> nat \<Rightarrow> world \<Rightarrow> string \<times> world" where
  "token_read fd n w =
     (if n = 0 then ([], w)
      else (case sys_read fd n w of
          (Inl e, w') \<Rightarrow> if e = EINTR then token_read fd n w' else ([], w')
        | (Inr bs, w') \<Rightarrow>
            if bs = [] then ([], w')
            else (let (rest, w2) = token_read fd (n - length bs) w' in (bs @ rest, w2))))"
  by pat_completeness auto
termination
  by (relation "measure (\<lambda>(fd, n, w). n + length (sched w))")
    (auto dest: sys_read_intr sys_read_some)

declare token_read.simps [simp del]

definition broker_make_token :: "string io" where
  "broker_make_token w = (case sys_open ''/dev/urandom'' [O_RDONLY, O_CLOEXEC] 0 w of
       (Inl e, w) \<Rightarrow> (Inl e, w)
     | (Inr fd, w) \<Rightarrow>
         (let (r, w) = token_read fd 4 w; w = snd (sys_close fd w)
          in if length r \<noteq> 4 then (Inl EIO, w) else (Inr (hex_bytes r), w)))"

definition copy_field :: "nat \<Rightarrow> string \<Rightarrow> string option" where
  "copy_field capacity v = (if v = [] \<or> length v \<ge> capacity then None else Some (cstr v))"

text \<open>What has been seen of a message.\<close>

record broker_seen =
  s_verb :: "broker_verb option"
  s_cap :: "string option"
  s_task :: "string option"
  s_reason :: "string option"
  s_token :: "string option"

definition seen0 :: broker_seen where
  "seen0 = \<lparr>s_verb = None, s_cap = None, s_task = None, s_reason = None, s_token = None\<rparr>"

definition verb_of :: "string \<Rightarrow> broker_verb option" where
  "verb_of v = (if v = ''request'' then Some BROKER_VERB_REQUEST
     else if v = ''issued'' then Some BROKER_VERB_ISSUED
     else if v = ''denied'' then Some BROKER_VERB_DENIED else None)"

definition skip_sp :: "string \<Rightarrow> string" where
  "skip_sp v = dropWhile (\<lambda>c. c = SP) v"

definition broker_line :: "string \<Rightarrow> broker_seen \<Rightarrow> broker_seen option" where
  "broker_line l s =
     (if starts_with ''VERB '' l then
        (if s_verb s \<noteq> None then None
         else (case verb_of (skip_sp (drop 5 l)) of None \<Rightarrow> None | Some v \<Rightarrow> Some (s\<lparr>s_verb := Some v\<rparr>)))
      else if starts_with ''CAP '' l then
        (if s_cap s \<noteq> None then None
         else (case copy_field BROKER_CAP_MAX (skip_sp (drop 4 l)) of
             None \<Rightarrow> None | Some v \<Rightarrow> Some (s\<lparr>s_cap := Some v\<rparr>)))
      else if starts_with ''TASK-ID '' l then
        (if s_task s \<noteq> None then None
         else (case copy_field MAX_TASK_ID (skip_sp (drop 8 l)) of
             None \<Rightarrow> None | Some v \<Rightarrow> Some (s\<lparr>s_task := Some v\<rparr>)))
      else if starts_with ''REASON '' l then
        (if s_reason s \<noteq> None then None
         else (case copy_field BROKER_REASON_MAX (skip_sp (drop 7 l)) of
             None \<Rightarrow> None | Some v \<Rightarrow> Some (s\<lparr>s_reason := Some v\<rparr>)))
      else if starts_with ''TOKEN '' l then
        (if s_token s \<noteq> None then None
         else (case copy_field (BROKER_TOKEN_LEN + 1) (skip_sp (drop 6 l)) of
             None \<Rightarrow> None | Some v \<Rightarrow> Some (s\<lparr>s_token := Some v\<rparr>)))
      else Some s)"

text \<open>The scanning loop: a line without its newline, or no blank line at all, is malformed.\<close>

function broker_scan :: "string \<Rightarrow> broker_seen \<Rightarrow> broker_seen option" where
  "broker_scan buf s =
     (if buf = [] then None
      else (case split_at NL buf of
          (_, None) \<Rightarrow> None
        | (l, Some rest) \<Rightarrow>
            if l = [] then Some s
            else (case broker_line l s of None \<Rightarrow> None | Some s' \<Rightarrow> broker_scan rest s')))"
  by pat_completeness auto
termination
  by (relation "measure (\<lambda>(b, s). length b)")
    (auto simp: split_at_def split: list.splits dest!: dropWhile_Cons_shorter)

declare broker_scan.simps [simp del]

definition opt_str :: "string option \<Rightarrow> string" where
  "opt_str x = (case x of None \<Rightarrow> [] | Some s \<Rightarrow> s)"

definition broker_parse :: "string \<Rightarrow> broker_msg option" where
  "broker_parse buf = (case broker_scan buf seen0 of
       None \<Rightarrow> None
     | Some s \<Rightarrow> (case (s_verb s, s_cap s) of
           (Some v, Some c) \<Rightarrow>
             if v = BROKER_VERB_ISSUED \<and> s_token s = None then None
             else Some \<lparr>bverb = v, cap = c, btask_id = opt_str (s_task s),
                        reason = opt_str (s_reason s), token = opt_str (s_token s)\<rparr>
         | _ \<Rightarrow> None))"

definition broker_format_issued :: "nat \<Rightarrow> string \<Rightarrow> string \<Rightarrow> errno + string" where
  "broker_format_issued cap_sz c tok =
     (let s = ''VERB issued'' @ [NL] @ ''CAP '' @ c @ [NL] @ ''TOKEN '' @ tok @ [NL, NL]
      in if length s \<ge> cap_sz then Inl EOVERFLOW else Inr s)"

definition broker_format_denied :: "nat \<Rightarrow> string \<Rightarrow> string \<Rightarrow> errno + string" where
  "broker_format_denied cap_sz c rsn =
     (let s = ''VERB denied'' @ [NL] @ ''CAP '' @ c @ [NL] @ ''REASON '' @ rsn @ [NL, NL]
      in if length s \<ge> cap_sz then Inl EOVERFLOW else Inr s)"

text \<open>The request an agent sends (\<open>src/ipc.c\<close>).\<close>

definition broker_request :: "string \<Rightarrow> string" where
  "broker_request target = ''VERB request'' @ [NL] @ ''CAP mailbox.send:'' @ target @ [NL] @
     ''REASON libagentctl'' @ [NL, NL]"

definition pattern_match :: "string \<Rightarrow> string \<Rightarrow> bool" where
  "pattern_match pattern name =
     (if pattern = [] then False
      else if last pattern = CHR ''*'' then starts_with (butlast pattern) name
      else pattern = name)"

definition broker_policy_check :: "string \<Rightarrow> string list \<Rightarrow> bool" where
  "broker_policy_check cap_name allow = list_ex (\<lambda>p. pattern_match p cap_name) allow"

section \<open>Tokens\<close>

lemma token_read_reading: "reading w0 fd w \<Longrightarrow> reading w0 fd (snd (token_read fd n w))"
proof (induction fd n w rule: token_read.induct)
  case (1 fd n w)
  obtain r w1 where r: "sys_read fd n w = (r, w1)" by fastforce
  have w1: "reading w0 fd w1" by (rule sys_read_reading [OF "1.prems" r])
  show ?case
  proof (cases r)
    case (Inl e)
    then show ?thesis
      using "1.IH"(1) [OF _ r [symmetric] Inl _ w1] "1.prems" r w1
      by (simp add: token_read.simps [of fd n w])
  next
    case (Inr bs)
    then show ?thesis
      using "1.IH"(2) [OF _ r [symmetric] Inr _ w1] "1.prems" r w1
      by (auto simp: token_read.simps [of fd n w] split: prod.splits)
  qed
qed

lemma frame_make_token [inv_intros]:
  assumes "frame A w0 d w"
  shows "frame A w0 d (snd (broker_make_token w))"
proof -
  have "frame (\<lambda>_. False) w (fds w) (snd (broker_make_token w))"
  proof (cases "sys_open ''/dev/urandom'' [O_RDONLY, O_CLOEXEC] 0 w")
    case (Pair r w1)
    show ?thesis
    proof (cases r)
      case (Inl e)
      with Pair show ?thesis using open_fail_frame [of "''/dev/urandom''" _ 0 w e w1]
        by (auto simp: broker_make_token_def)
    next
      case (Inr fd)
      with Pair have "reading w fd (snd (token_read fd 4 w1))"
        by (intro token_read_reading open_reading) simp
      from reading_close [OF this] Pair Inr show ?thesis
        by (auto simp: broker_make_token_def Let_def split: prod.splits)
    qed
  qed
  with assms show ?thesis by (auto simp: frame_def)
qed

section \<open>The header parser\<close>

text \<open>The parser folds \<open>broker_line\<close> over the lines before the first blank one.\<close>

fun fold_lines :: "string list \<Rightarrow> broker_seen \<Rightarrow> broker_seen option" where
  "fold_lines [] s = Some s"
| "fold_lines (l # ls) s = (case broker_line l s of None \<Rightarrow> None | Some s' \<Rightarrow> fold_lines ls s')"

definition header_text :: "string list \<Rightarrow> string" where
  "header_text ls = concat (map (\<lambda>l. l @ [NL]) ls) @ [NL]"

lemma broker_scan_line [parse_simps]:
  "NL \<notin> set l \<Longrightarrow> l \<noteq> [] \<Longrightarrow> broker_scan (l @ NL # r) s =
     (case broker_line l s of None \<Rightarrow> None | Some s' \<Rightarrow> broker_scan r s')"
  by (subst broker_scan.simps) (simp add: split_at_found)

lemma broker_scan_blank [parse_simps]: "broker_scan (NL # r) s = Some s"
  by (subst broker_scan.simps) (simp add: split_at_def)

lemma broker_scan_header:
  "(\<And>l. l \<in> set ls \<Longrightarrow> l \<noteq> [] \<and> NL \<notin> set l) \<Longrightarrow> broker_scan (header_text ls @ r) s = fold_lines ls s"
proof (induction ls arbitrary: s)
  case Nil
  then show ?case by (simp add: header_text_def broker_scan_blank)
next
  case (Cons l ls)
  have "header_text (l # ls) @ r = l @ NL # (header_text ls @ r)" by (simp add: header_text_def)
  with Cons show ?case by (auto simp: broker_scan_line split: option.splits)
qed

lemma broker_scanD:
  "broker_scan buf s = Some s' \<Longrightarrow>
     \<exists>ls r. buf = header_text ls @ r \<and> (\<forall>l \<in> set ls. l \<noteq> [] \<and> NL \<notin> set l) \<and> fold_lines ls s = Some s'"
proof (induction buf s arbitrary: s' rule: broker_scan.induct)
  case (1 buf s)
  obtain l x where sp: "split_at NL buf = (l, x)" by fastforce
  from "1.prems" sp obtain r where x: "buf \<noteq> []" "x = Some r"
    by (subst (asm) broker_scan.simps) (auto split: if_splits option.splits)
  then have buf: "buf = l @ NL # r" "NL \<notin> set l" using split_at_SomeD [of NL buf l r] sp by simp_all
  show ?case
  proof (cases "l = []")
    case True
    with "1.prems" buf have "s' = s" by (simp add: broker_scan_blank)
    then show ?thesis using buf True
      by (intro exI [of _ "[]"] exI [of _ r]) (simp add: header_text_def)
  next
    case False
    with "1.prems" buf obtain s1 where s1: "broker_line l s = Some s1" "broker_scan r s1 = Some s'"
      by (auto simp: broker_scan_line split: option.splits)
    from "1.IH" [OF x(1) sp [symmetric] x(2) False s1] obtain ls r' where
      "r = header_text ls @ r'" "\<forall>l \<in> set ls. l \<noteq> [] \<and> NL \<notin> set l" "fold_lines ls s1 = Some s'" by blast
    then show ?thesis using buf False s1(1)
      by (intro exI [of _ "l # ls"] exI [of _ r']) (simp add: header_text_def)
  qed
qed

text \<open>Each known field is set exactly by the one line that carries its tag.\<close>

definition tagged :: "string \<Rightarrow> string list \<Rightarrow> nat" where
  "tagged t ls = length (filter (starts_with t) ls)"

lemma tags_disjoint:
  "starts_with ''VERB '' l \<Longrightarrow> \<not> starts_with ''CAP '' l \<and> \<not> starts_with ''TASK-ID '' l \<and>
     \<not> starts_with ''REASON '' l \<and> \<not> starts_with ''TOKEN '' l"
  "starts_with ''CAP '' l \<Longrightarrow> \<not> starts_with ''TASK-ID '' l \<and> \<not> starts_with ''REASON '' l \<and>
     \<not> starts_with ''TOKEN '' l"
  "starts_with ''TASK-ID '' l \<Longrightarrow> \<not> starts_with ''REASON '' l \<and> \<not> starts_with ''TOKEN '' l"
  "starts_with ''REASON '' l \<Longrightarrow> \<not> starts_with ''TOKEN '' l"
  by (auto simp: starts_with_iff)

definition count_opt :: "'a option \<Rightarrow> nat" where
  "count_opt x = (case x of None \<Rightarrow> 0 | Some _ \<Rightarrow> 1)"

lemma broker_line_counts:
  assumes "broker_line l s = Some s'"
  shows "count_opt (s_verb s') = count_opt (s_verb s) + (if starts_with ''VERB '' l then 1 else 0)"
    and "count_opt (s_cap s') = count_opt (s_cap s) + (if starts_with ''CAP '' l then 1 else 0)"
    and "count_opt (s_task s') = count_opt (s_task s) + (if starts_with ''TASK-ID '' l then 1 else 0)"
    and "count_opt (s_reason s') = count_opt (s_reason s) + (if starts_with ''REASON '' l then 1 else 0)"
    and "count_opt (s_token s') = count_opt (s_token s) + (if starts_with ''TOKEN '' l then 1 else 0)"
  using assms tags_disjoint [of l]
  by (auto simp: broker_line_def count_opt_def split: if_splits option.splits)

lemma fold_lines_counts:
  "fold_lines ls s = Some s' \<Longrightarrow>
     count_opt (s_verb s') = count_opt (s_verb s) + tagged ''VERB '' ls \<and>
     count_opt (s_cap s') = count_opt (s_cap s) + tagged ''CAP '' ls \<and>
     count_opt (s_task s') = count_opt (s_task s) + tagged ''TASK-ID '' ls \<and>
     count_opt (s_reason s') = count_opt (s_reason s) + tagged ''REASON '' ls \<and>
     count_opt (s_token s') = count_opt (s_token s) + tagged ''TOKEN '' ls"
proof (induction ls arbitrary: s)
  case (Cons l ls)
  then obtain s1 where s1: "broker_line l s = Some s1" "fold_lines ls s1 = Some s'"
    by (auto split: option.splits)
  from Cons.IH [OF s1(2)] broker_line_counts [OF s1(1)] show ?case
    by (simp add: tagged_def)
qed (simp add: tagged_def)

section \<open>Properties\<close>

definition field_ok :: "nat \<Rightarrow> string \<Rightarrow> bool" where
  "field_ok capacity v \<longleftrightarrow> v \<noteq> [] \<and> length v < capacity \<and> NUL \<notin> set v \<and> NL \<notin> set v \<and> hd v \<noteq> SP"

lemma skip_sp_id: "v \<noteq> [] \<Longrightarrow> hd v \<noteq> SP \<Longrightarrow> skip_sp v = v"
  by (cases v) (simp_all add: skip_sp_def)

lemma copy_field_ok: "field_ok n v \<Longrightarrow> copy_field n (skip_sp v) = Some v"
  by (simp add: field_ok_def skip_sp_id copy_field_def)

lemma broker_line_verb [simp]: "s_verb s = None \<Longrightarrow>
    broker_line (''VERB '' @ v) s = map_option (\<lambda>x. s\<lparr>s_verb := Some x\<rparr>) (verb_of (skip_sp v))"
  by (simp add: broker_line_def starts_with_def split: option.split)

lemma broker_line_cap [simp]: "s_cap s = None \<Longrightarrow> field_ok BROKER_CAP_MAX v \<Longrightarrow>
    broker_line (''CAP '' @ v) s = Some (s\<lparr>s_cap := Some v\<rparr>)"
  by (simp add: broker_line_def starts_with_def copy_field_ok)

lemma broker_line_token [simp]: "s_token s = None \<Longrightarrow> field_ok (BROKER_TOKEN_LEN + 1) v \<Longrightarrow>
    broker_line (''TOKEN '' @ v) s = Some (s\<lparr>s_token := Some v\<rparr>)"
  by (simp add: broker_line_def starts_with_def copy_field_ok)

lemma broker_line_reason [simp]: "s_reason s = None \<Longrightarrow> field_ok BROKER_REASON_MAX v \<Longrightarrow>
    broker_line (''REASON '' @ v) s = Some (s\<lparr>s_reason := Some v\<rparr>)"
  by (simp add: broker_line_def starts_with_def copy_field_ok)

lemma verb_of_simps [simp]:
  "verb_of (skip_sp ''request'') = Some BROKER_VERB_REQUEST"
  "verb_of (skip_sp ''issued'') = Some BROKER_VERB_ISSUED"
  "verb_of (skip_sp ''denied'') = Some BROKER_VERB_DENIED"
  by (simp_all add: verb_of_def skip_sp_def)

lemma broker_parse_header:
  "\<forall>l \<in> set ls. l \<noteq> [] \<and> NL \<notin> set l \<Longrightarrow> fold_lines ls seen0 = Some s \<Longrightarrow>
     broker_parse (header_text ls) = (case (s_verb s, s_cap s) of
           (Some v, Some c) \<Rightarrow>
             if v = BROKER_VERB_ISSUED \<and> s_token s = None then None
             else Some \<lparr>bverb = v, cap = c, btask_id = opt_str (s_task s),
                        reason = opt_str (s_reason s), token = opt_str (s_token s)\<rparr>
         | _ \<Rightarrow> None)"
  using broker_scan_header [of ls "[]" seen0] by (simp add: broker_parse_def)

lemma issued_header: "broker_format_issued n c t = Inr s \<Longrightarrow>
    s = header_text [''VERB '' @ ''issued'', ''CAP '' @ c, ''TOKEN '' @ t]"
  by (auto simp: broker_format_issued_def header_text_def Let_def split: if_splits)

lemma denied_header: "broker_format_denied n c r = Inr s \<Longrightarrow>
    s = header_text [''VERB '' @ ''denied'', ''CAP '' @ c, ''REASON '' @ r]"
  by (auto simp: broker_format_denied_def header_text_def Let_def split: if_splits)

lemma parse_issued:
  assumes "field_ok BROKER_CAP_MAX c" "field_ok (BROKER_TOKEN_LEN + 1) t"
  shows "broker_parse (header_text [''VERB '' @ ''issued'', ''CAP '' @ c, ''TOKEN '' @ t]) =
    Some \<lparr>bverb = BROKER_VERB_ISSUED, cap = c, btask_id = [], reason = [], token = t\<rparr>"
proof -
  have "fold_lines [''VERB '' @ ''issued'', ''CAP '' @ c, ''TOKEN '' @ t] seen0 =
      Some (seen0\<lparr>s_verb := Some BROKER_VERB_ISSUED, s_cap := Some c, s_token := Some t\<rparr>)"
    using assms by (simp add: seen0_def del: append_Cons)
  then show ?thesis
    using assms by (subst broker_parse_header) (auto simp: field_ok_def seen0_def opt_str_def)
qed

lemma parse_denied:
  assumes "field_ok BROKER_CAP_MAX c" "field_ok BROKER_REASON_MAX r"
  shows "broker_parse (header_text [''VERB '' @ ''denied'', ''CAP '' @ c, ''REASON '' @ r]) =
    Some \<lparr>bverb = BROKER_VERB_DENIED, cap = c, btask_id = [], reason = r, token = []\<rparr>"
proof -
  have "fold_lines [''VERB '' @ ''denied'', ''CAP '' @ c, ''REASON '' @ r] seen0 =
      Some (seen0\<lparr>s_verb := Some BROKER_VERB_DENIED, s_cap := Some c, s_reason := Some r\<rparr>)"
    using assms by (simp add: seen0_def del: append_Cons)
  then show ?thesis
    using assms by (subst broker_parse_header) (auto simp: field_ok_def seen0_def opt_str_def)
qed

lemma request_header: "broker_request t =
    header_text [''VERB '' @ ''request'', ''CAP '' @ (''mailbox.send:'' @ t), ''REASON '' @ ''libagentctl'']"
  by (simp add: broker_request_def header_text_def)

lemma parse_request:
  assumes "validate_name t"
  shows "broker_parse (broker_request t) =
    Some \<lparr>bverb = BROKER_VERB_REQUEST, cap = ''mailbox.send:'' @ t, btask_id = [],
      reason = ''libagentctl'', token = []\<rparr>"
proof -
  have t: "NL \<notin> set t" "NUL \<notin> set t" "length t \<le> 64"
    using assms validate_name_notin validate_name_length by simp_all
  then have c: "field_ok BROKER_CAP_MAX (''mailbox.send:'' @ t)"
    by (simp add: field_ok_def BROKER_CAP_MAX_def)
  have r: "field_ok BROKER_REASON_MAX ''libagentctl''"
    by (simp add: field_ok_def BROKER_REASON_MAX_def)
  have "fold_lines [''VERB '' @ ''request'', ''CAP '' @ (''mailbox.send:'' @ t), ''REASON '' @ ''libagentctl''] seen0 =
      Some (seen0\<lparr>s_verb := Some BROKER_VERB_REQUEST, s_cap := Some (''mailbox.send:'' @ t),
        s_reason := Some ''libagentctl''\<rparr>)"
    using c r by (simp add: seen0_def del: append_Cons)
  then show ?thesis
    unfolding request_header using t
    by (subst broker_parse_header) (auto simp: seen0_def opt_str_def)
qed

lemma issued_fits: "field_ok BROKER_CAP_MAX c \<Longrightarrow> field_ok (BROKER_TOKEN_LEN + 1) t \<Longrightarrow>
    \<exists>s. broker_format_issued BROKER_MSG_MAX c t = Inr s"
  by (simp add: broker_format_issued_def Let_def BROKER_MSG_MAX_def field_ok_def BROKER_CAP_MAX_def BROKER_TOKEN_LEN_def)

lemma denied_fits: "field_ok BROKER_CAP_MAX c \<Longrightarrow> field_ok BROKER_REASON_MAX r \<Longrightarrow>
    \<exists>s. broker_format_denied BROKER_MSG_MAX c r = Inr s"
  by (simp add: broker_format_denied_def Let_def BROKER_MSG_MAX_def field_ok_def BROKER_CAP_MAX_def BROKER_REASON_MAX_def)

definition issued_wire :: "string \<times> string \<Rightarrow> string" where
  "issued_wire ct = projr (broker_format_issued BROKER_MSG_MAX (fst ct) (snd ct))"

definition issued_read :: "string \<Rightarrow> (string \<times> string) option" where
  "issued_read s = (case broker_parse s of
     Some m \<Rightarrow> if bverb m = BROKER_VERB_ISSUED then Some (cap m, token m) else None | None \<Rightarrow> None)"

interpretation issued: codec issued_wire issued_read
  "\<lambda>ct. field_ok BROKER_CAP_MAX (fst ct) \<and> field_ok (BROKER_TOKEN_LEN + 1) (snd ct)"
proof
  fix x :: "string \<times> string"
  assume x: "field_ok BROKER_CAP_MAX (fst x) \<and> field_ok (BROKER_TOKEN_LEN + 1) (snd x)"
  then obtain s where s: "broker_format_issued BROKER_MSG_MAX (fst x) (snd x) = Inr s" using issued_fits by blast
  with x parse_issued [of "fst x" "snd x"] issued_header [OF s] show "issued_read (issued_wire x) = Some x"
    by (simp add: issued_wire_def issued_read_def)
qed

text \<open>Field bounds.\<close>

definition seen_ok :: "broker_seen \<Rightarrow> bool" where
  "seen_ok s \<longleftrightarrow> length (opt_str (s_cap s)) < BROKER_CAP_MAX \<and> length (opt_str (s_task s)) < MAX_TASK_ID \<and>
     length (opt_str (s_reason s)) < BROKER_REASON_MAX \<and> length (opt_str (s_token s)) \<le> BROKER_TOKEN_LEN"

lemma copy_field_bound: "copy_field n v = Some x \<Longrightarrow> length x < n \<and> NUL \<notin> set x"
  using length_cstr_le [of v] by (auto simp: copy_field_def split: if_splits)

lemma broker_line_cases:
  assumes "broker_line l s = Some s'"
  obtains "s' = s" | v where "s' = s\<lparr>s_verb := Some v\<rparr>"
    | v where "s' = s\<lparr>s_cap := Some v\<rparr>" "length v < BROKER_CAP_MAX"
    | v where "s' = s\<lparr>s_task := Some v\<rparr>" "length v < MAX_TASK_ID"
    | v where "s' = s\<lparr>s_reason := Some v\<rparr>" "length v < BROKER_REASON_MAX"
    | v where "s' = s\<lparr>s_token := Some v\<rparr>" "length v < Suc BROKER_TOKEN_LEN"
proof -
  consider "starts_with ''VERB '' l" | "\<not> starts_with ''VERB '' l" "starts_with ''CAP '' l"
    | "\<not> starts_with ''VERB '' l" "\<not> starts_with ''CAP '' l" "starts_with ''TASK-ID '' l"
    | "\<not> starts_with ''VERB '' l" "\<not> starts_with ''CAP '' l" "\<not> starts_with ''TASK-ID '' l" "starts_with ''REASON '' l"
    | "\<not> starts_with ''VERB '' l" "\<not> starts_with ''CAP '' l" "\<not> starts_with ''TASK-ID '' l" "\<not> starts_with ''REASON '' l"
    by blast
  then show thesis
    by cases (use assms that copy_field_bound in
        \<open>auto simp: broker_line_def split: if_splits option.splits\<close>)
qed

lemma broker_line_ok: "seen_ok s \<Longrightarrow> broker_line l s = Some s' \<Longrightarrow> seen_ok s'"
  by (erule broker_line_cases) (simp_all add: seen_ok_def opt_str_def)

lemma fold_lines_ok: "seen_ok s \<Longrightarrow> fold_lines ls s = Some s' \<Longrightarrow> seen_ok s'"
  by (induction ls arbitrary: s) (auto split: option.splits dest: broker_line_ok)

text \<open>
  C12. A message the broker accepts is well formed: its bytes begin with a header of non-empty
  lines closed by a blank line, in which exactly one line carries the verb, exactly one the
  capability, none of the known tags is repeated, an issued message has its token, and every
  field fits its buffer. Repeated fields are therefore never silently merged or overridden.
\<close>

theorem broker_parse_exact:
  assumes "broker_parse buf = Some m"
  shows "\<exists>ls r. buf = header_text ls @ r \<and> (\<forall>l \<in> set ls. l \<noteq> [] \<and> NL \<notin> set l) \<and>
    tagged ''VERB '' ls = 1 \<and> tagged ''CAP '' ls = 1 \<and> tagged ''TASK-ID '' ls \<le> 1 \<and>
    tagged ''REASON '' ls \<le> 1 \<and> tagged ''TOKEN '' ls \<le> 1 \<and>
    (bverb m = BROKER_VERB_ISSUED \<longrightarrow> tagged ''TOKEN '' ls = 1) \<and>
    length (cap m) < BROKER_CAP_MAX \<and> length (btask_id m) < MAX_TASK_ID \<and>
    length (reason m) < BROKER_REASON_MAX \<and> length (token m) \<le> BROKER_TOKEN_LEN"
proof -
  obtain s where s: "broker_scan buf seen0 = Some s"
    using assms by (auto simp: broker_parse_def split: option.splits)
  then obtain ls r where ls: "buf = header_text ls @ r" "\<forall>l \<in> set ls. l \<noteq> [] \<and> NL \<notin> set l"
    "fold_lines ls seen0 = Some s" using broker_scanD by blast
  have "seen_ok seen0" by (simp add: seen_ok_def seen0_def opt_str_def BROKER_CAP_MAX_def MAX_TASK_ID_def BROKER_REASON_MAX_def)
  then have ok: "seen_ok s" using fold_lines_ok ls(3) by blast
  have le: "count_opt (s_task s) \<le> 1" "count_opt (s_reason s) \<le> 1" "count_opt (s_token s) \<le> 1"
    by (simp_all add: count_opt_def split: option.split)
  from assms s obtain v c where m: "s_verb s = Some v" "s_cap s = Some c"
    "v = BROKER_VERB_ISSUED \<longrightarrow> s_token s \<noteq> None"
    "m = \<lparr>bverb = v, cap = c, btask_id = opt_str (s_task s), reason = opt_str (s_reason s), token = opt_str (s_token s)\<rparr>"
    by (auto simp: broker_parse_def split: option.splits if_splits)
  have t: "s_token s \<noteq> None \<Longrightarrow> count_opt (s_token s) = 1" by (auto simp: count_opt_def)
  have n: "tagged ''VERB '' ls = 1" "tagged ''CAP '' ls = 1" "tagged ''TASK-ID '' ls = count_opt (s_task s)"
    "tagged ''REASON '' ls = count_opt (s_reason s)" "tagged ''TOKEN '' ls = count_opt (s_token s)"
    using fold_lines_counts [OF ls(3)] m(1,2) by (simp_all add: seen0_def count_opt_def)
  show ?thesis
    using ls(1,2) n le m(3) ok t
    by (intro exI [of _ ls] exI [of _ r]) (simp add: m(4) seen_ok_def, simp add: m(2) opt_str_def)
qed

theorem broker_parse_exact_witness:
  "\<exists>m ls r. broker_parse (''VERB issued'' @ [NL] @ ''CAP c'' @ [NL] @ ''TOKEN 0a'' @ [NL, NL]) = Some m \<and>
     ''VERB issued'' @ [NL] @ ''CAP c'' @ [NL] @ ''TOKEN 0a'' @ [NL, NL] = header_text ls @ r \<and> tagged ''CAP '' ls = 1"
proof -
  have "broker_parse (''VERB issued'' @ [NL] @ ''CAP c'' @ [NL] @ ''TOKEN 0a'' @ [NL, NL]) =
      Some \<lparr>bverb = BROKER_VERB_ISSUED, cap = ''c'', btask_id = [], reason = [], token = ''0a''\<rparr>" by code_simp
  with broker_parse_exact [OF this] show ?thesis by blast
qed

text \<open>
  C13. Broker messages survive the wire: a request for any valid agent name, every issued
  response and every denial whose fields are within their bounds are formatted within the
  message limit and parsed back to exactly the fields they were built from.
\<close>

theorem broker_messages_roundtrip:
  assumes "validate_name t" "field_ok BROKER_CAP_MAX c" "field_ok (BROKER_TOKEN_LEN + 1) tok"
    and "field_ok BROKER_REASON_MAX rsn"
  shows "broker_parse (broker_request t) = Some \<lparr>bverb = BROKER_VERB_REQUEST,
      cap = ''mailbox.send:'' @ t, btask_id = [], reason = ''libagentctl'', token = []\<rparr> \<and>
    (\<exists>s. broker_format_issued BROKER_MSG_MAX c tok = Inr s \<and> broker_parse s =
      Some \<lparr>bverb = BROKER_VERB_ISSUED, cap = c, btask_id = [], reason = [], token = tok\<rparr>) \<and>
    (\<exists>s. broker_format_denied BROKER_MSG_MAX c rsn = Inr s \<and> broker_parse s =
      Some \<lparr>bverb = BROKER_VERB_DENIED, cap = c, btask_id = [], reason = rsn, token = []\<rparr>)"
  using parse_request [OF assms(1)] parse_issued [OF assms(2,3)] parse_denied [OF assms(2,4)]
    issued_fits [OF assms(2,3)] denied_fits [OF assms(2,4)] issued_header denied_header by metis

theorem broker_messages_roundtrip_witness:
  "broker_parse (broker_request ''b'') = Some \<lparr>bverb = BROKER_VERB_REQUEST,
      cap = ''mailbox.send:b'', btask_id = [], reason = ''libagentctl'', token = []\<rparr>"
  using broker_messages_roundtrip [of "''b''" "''mailbox.send:b''" "''00ff00ff''" "''not-in-caps''"]
  by (simp add: validate_name_def MAX_NAME_def name_char_def c_isalnum_def c_isalpha_def field_ok_def
      BROKER_CAP_MAX_def BROKER_TOKEN_LEN_def BROKER_REASON_MAX_def)

text \<open>
  C14. The policy denies by default: a capability is permitted exactly when some allow pattern
  equals it, or ends in \<open>*\<close> and is otherwise a prefix of it; the empty pattern and the empty
  policy permit nothing.
\<close>

theorem broker_policy_check_iff:
  "broker_policy_check c allow \<longleftrightarrow>
     (\<exists>p \<in> set allow. p = c \<and> p \<noteq> [] \<and> last p \<noteq> CHR ''*'' \<or> (\<exists>q r. p = q @ ''*'' \<and> c = q @ r))"
proof -
  have "pattern_match p c \<longleftrightarrow> p = c \<and> p \<noteq> [] \<and> last p \<noteq> CHR ''*'' \<or> (\<exists>q r. p = q @ ''*'' \<and> c = q @ r)" for p
    by (cases p rule: rev_cases) (auto simp: pattern_match_def starts_with_iff)
  then show ?thesis by (auto simp: broker_policy_check_def list_ex_iff)
qed

end
