(* ===== verification/Ambient.thy ===== *)
theory Ambient
  imports Spawn Broker
begin

text \<open>
  What the file layer leaves alone besides descriptors: processes, signals, sockets, the
  clock and the identity of the process (the \<open>ambient\<close> part of the world). One rule per
  operation, as for the descriptor table.
\<close>

named_theorems amb_intros \<open>operations that keep the ambient part of the world\<close>

definition ambient :: "world \<Rightarrow> _" where
  "ambient w = (outside w, now w, aroot w, euid w, self_pid w)"

definition amb :: "_ \<Rightarrow> 'a \<times> world \<Rightarrow> bool" where
  "amb a x \<longleftrightarrow> ambient (snd x) = a"

lemma ambient_update [simp]:
  "ambient (w\<lparr>sched := s\<rparr>) = ambient w" "ambient (w\<lparr>fs := t\<rparr>) = ambient w"
  "ambient (w\<lparr>fds := d\<rparr>) = ambient w" "ambient (w\<lparr>tmps := u\<rparr>) = ambient w"
  "ambient (w\<lparr>rnd := r\<rparr>) = ambient w" "ambient (put_inode p i w) = ambient w"
  by (simp_all add: ambient_def put_inode_def)

lemma ambient_fields:
  assumes "ambient w' = ambient w"
  shows "procs w' = procs w" "signals w' = signals w" "sent w' = sent w" "rxq w' = rxq w" "now w' = now w"
    "aroot w' = aroot w" "euid w' = euid w" "next_ep w' = next_ep w" "env w' = env w" "next_pid w' = next_pid w"
    "self_pid w' = self_pid w"
  using assms by (simp_all add: ambient_def outside_def)

lemma amb_pair [amb_intros]: "ambient w = a \<Longrightarrow> amb a (r, w)"
  by (simp add: amb_def)

lemma amb_case [amb_intros]:
  assumes "amb a m" and "\<And>e w'. m = (Inl e, w') \<Longrightarrow> ambient w' = a \<Longrightarrow> amb a (f e w')"
    and "\<And>x w'. m = (Inr x, w') \<Longrightarrow> ambient w' = a \<Longrightarrow> amb a (g x w')"
  shows "amb a (case m of (r, w') \<Rightarrow> (case r of Inl e \<Rightarrow> f e w' | Inr x \<Rightarrow> g x w'))"
  using assms by (cases m; cases "fst m") (auto simp: amb_def)

lemma amb_prod [amb_intros]:
  assumes "amb a m" and "\<And>x w'. m = (x, w') \<Longrightarrow> ambient w' = a \<Longrightarrow> amb a (g x w')"
  shows "amb a (case m of (x, w') \<Rightarrow> g x w')"
  using assms by (cases m) (simp add: amb_def)

lemma amb_if [amb_intros]: "(c \<Longrightarrow> amb a x) \<Longrightarrow> (\<not> c \<Longrightarrow> amb a y) \<Longrightarrow> amb a (if c then x else y)"
  by simp

lemma amb_sum [amb_intros]: "(\<And>e. x = Inl e \<Longrightarrow> amb a (f e)) \<Longrightarrow> (\<And>v. x = Inr v \<Longrightarrow> amb a (g v)) \<Longrightarrow>
    amb a (case x of Inl e \<Rightarrow> f e | Inr v \<Rightarrow> g v)"
  by (cases x) auto

lemma amb_option [amb_intros]: "(x = None \<Longrightarrow> amb a y) \<Longrightarrow> (\<And>v. x = Some v \<Longrightarrow> amb a (g v)) \<Longrightarrow>
    amb a (case x of None \<Rightarrow> y | Some v \<Rightarrow> g v)"
  by (cases x) auto

lemma ambD: "amb a x \<Longrightarrow> ambient (snd x) = a"
  by (simp add: amb_def)

lemma amb_frame: "ambient w = a \<Longrightarrow> frame A w d (snd x) \<Longrightarrow> amb a x"
  by (auto simp: amb_def ambient_def frame_def)

section \<open>System calls\<close>

lemma amb_call: "ambient w = a \<Longrightarrow> (\<And>v. ambient (snd (m v)) = ambient v) \<Longrightarrow> amb a (call m w)"
  by (auto simp: amb_def call_def split: list.splits fault.splits)

lemma amb_stat [amb_intros]: "ambient w = a \<Longrightarrow> amb a (sys_stat p w)"
  unfolding sys_stat_def by (erule amb_call) (auto split: sum.splits option.splits)

lemma amb_lstat [amb_intros]: "ambient w = a \<Longrightarrow> amb a (sys_lstat p w)"
  unfolding sys_lstat_def by (erule amb_call) (auto split: option.splits)

lemma amb_access [amb_intros]: "ambient w = a \<Longrightarrow> amb a (sys_access p m w)"
  unfolding sys_access_def by (erule amb_call) (auto split: sum.splits option.splits)

lemma amb_unlink [amb_intros]: "ambient w = a \<Longrightarrow> amb a (sys_unlink p w)"
  unfolding sys_unlink_def by (erule amb_call) (auto split: option.splits)

lemma amb_opendir [amb_intros]: "ambient w = a \<Longrightarrow> amb a (sys_opendir p w)"
  unfolding sys_opendir_def by (erule amb_call) (auto split: sum.splits)

lemma amb_mkdir [amb_intros]: "ambient w = a \<Longrightarrow> amb a (sys_mkdir p m w)"
  unfolding sys_mkdir_def by (erule amb_call) auto

lemma amb_fcntl [amb_intros]: "ambient w = a \<Longrightarrow> amb a (sys_fcntl_fd n w)"
  unfolding sys_fcntl_fd_def by (erule amb_call) auto

lemma amb_open [amb_intros]: "ambient w = a \<Longrightarrow> amb a (sys_open p fl m w)"
  unfolding sys_open_def
  by (erule amb_call) (auto simp: new_fd_def Let_def split: sum.splits option.splits node.splits)

lemma amb_close [amb_intros]: "ambient w = a \<Longrightarrow> amb a (sys_close n w)"
  by (auto simp: sys_close_def intro!: amb_call)

lemma amb_read [amb_intros]: "ambient w = a \<Longrightarrow> amb a (sys_read n k w)"
  unfolding sys_read_def by (erule amb_call) (auto simp: Let_def split: option.splits desc.splits node.splits)

lemma amb_write [amb_intros]: "ambient w = a \<Longrightarrow> amb a (sys_write n b w)"
  unfolding sys_write_def by (erule amb_call) (auto simp: Let_def split: option.splits desc.splits node.splits)

lemma ambient_close [simp]: "ambient (snd (sys_close n w)) = ambient w"
  by (rule ambD [OF amb_close [OF refl]])

lemma ambient_write [simp]: "ambient (snd (sys_write n b w)) = ambient w"
  by (rule ambD [OF amb_write [OF refl]])

lemma ambient_unlink [simp]: "ambient (snd (sys_unlink p w)) = ambient w"
  by (rule ambD [OF amb_unlink [OF refl]])

lemma amb_write_all [amb_intros]: "ambient w = a \<Longrightarrow> amb a (write_all fd b w)"
proof (induction fd b w rule: write_all.induct)
  case (1 fd b w)
  show ?case
    by (subst write_all.simps) (use 1 in \<open>auto intro!: amb_intros\<close>)
qed

section \<open>The file layer\<close>

lemma amb_ensure_dir [amb_intros]: "ambient w = a \<Longrightarrow> amb a (ensure_dir p m w)"
  unfolding ensure_dir_def by (auto intro!: amb_intros)

lemma amb_agent_path [amb_intros]: "ambient w = a \<Longrightarrow> amb a (agent_path n g l w)"
  by (erule amb_frame) (rule agent_path_frame)

lemma amb_ensure_layout [amb_intros]: "ambient w = a \<Longrightarrow> amb a (agent_ensure_layout g w)"
  by (erule amb_frame) (rule frame_agent_ensure_layout [OF frame_refl])

lemma amb_with_path [amb_intros]:
  "ambient w = a \<Longrightarrow> (\<And>p w. ambient w = a \<Longrightarrow> amb a (f p w)) \<Longrightarrow> amb a (with_path g l f w)"
  unfolding with_path_def by (auto intro!: amb_intros)

lemma amb_read_small_file [amb_intros]: "ambient w = a \<Longrightarrow> amb a (read_small_file p n w)"
  by (erule amb_frame) (rule frame_read_small_file [OF frame_refl])

lemma amb_atomic_write [amb_intros]: "ambient w = a \<Longrightarrow> amb a (atomic_write_file p b m w)"
proof -
  assume a: "ambient w = a"
  obtain r w' where r: "atomic_write_file p b m w = (r, w')" by fastforce
  from atomic_write_spec [OF r] have "same_ident w w'"
    by (auto simp: write_failed_def write_done_def split: sum.splits)
  then show ?thesis using r a by (auto simp: amb_def ambient_def same_ident_def)
qed

lemma amb_append_file [amb_intros]: "ambient w = a \<Longrightarrow> amb a (append_file p b m w)"
  unfolding append_file_def by (auto intro!: amb_intros)

lemma amb_write_agent_setting [amb_intros]: "ambient w = a \<Longrightarrow> amb a (write_agent_setting g l v w)"
  unfolding write_agent_setting_def by (auto intro!: amb_intros)

lemma amb_read_agent_setting [amb_intros]: "ambient w = a \<Longrightarrow> amb a (read_agent_setting g l n w)"
  unfolding read_agent_setting_def by (auto intro!: amb_intros)

lemma amb_write_status [amb_intros]: "ambient w = a \<Longrightarrow> amb a (write_status g s w)"
  unfolding write_status_def by (auto intro!: amb_intros)

lemma amb_audit_log [amb_intros]: "ambient w = a \<Longrightarrow> amb a (audit_log g s w)"
  unfolding audit_log_def by (auto intro!: amb_intros)

lemma amb_read_pid_file [amb_intros]: "ambient w = a \<Longrightarrow> amb a (read_pid_file g w)"
  unfolding read_pid_file_def by (auto intro!: amb_intros)

lemma amb_read_state [amb_intros]: "ambient w = a \<Longrightarrow> amb a (enforcement_read_state g w)"
  unfolding enforcement_read_state_def by (auto intro!: amb_intros)

lemma amb_cgroup_kill [amb_intros]: "ambient w = a \<Longrightarrow> amb a (lifecycle_cgroup_kill p w)"
  unfolding lifecycle_cgroup_kill_def by (auto intro!: amb_intros)

lemma amb_make_token [amb_intros]: "ambient w = a \<Longrightarrow> amb a (broker_make_token w)"
  by (erule amb_frame) (rule frame_make_token [OF frame_refl])

lemma ambient_snd [simp]:
  "ambient (snd (write_agent_setting g l v w)) = ambient w" "ambient (snd (read_agent_setting g l n w)) = ambient w"
  "ambient (snd (write_status g s w)) = ambient w" "ambient (snd (audit_log g s w)) = ambient w"
  "ambient (snd (read_pid_file g w)) = ambient w" "ambient (snd (atomic_write_file p b m w)) = ambient w"
  "ambient (snd (enforcement_read_state g w)) = ambient w" "ambient (snd (lifecycle_cgroup_kill p w)) = ambient w"
  "ambient (snd (read_small_file p n w)) = ambient w" "ambient (snd (agent_path n g l w)) = ambient w"
  "ambient (snd (agent_ensure_layout g w)) = ambient w" "ambient (snd (broker_make_token w)) = ambient w"
  "ambient (snd (sys_open p fl k w)) = ambient w" "ambient (snd (sys_opendir p w)) = ambient w"
  "ambient (snd (sys_stat p w)) = ambient w" "ambient (snd (sys_fcntl_fd k w)) = ambient w"
  by (intro ambD amb_intros refl)+

end
