(* ===== verification/Supervisor.thy ===== *)
theory Supervisor
  imports Ambient
begin

text \<open>
  The supervisor \<open>agentd\<close> (\<open>src/agentd.c\<close>, lines 49 to 538): the table of managed agents,
  starting, stopping and reaping their runtimes, the restart policy and the reconciliation
  of the desired state on disk with the live processes.

  The daemon's state is its \<open>world\<close> and its globals; a pointer into \<open>g_agents\<close> is an index
  of the table. A descriptor field that the source sets to \<open>-1\<close> is \<open>None\<close>. Where the source
  prints \<open>strerror (errno)\<close> the error is that of the call it reports.
\<close>

section \<open>Definitions\<close>

definition MAX_MANAGED :: nat where "MAX_MANAGED = 32"
definition RECONCILE_INTERVAL_SEC :: int where "RECONCILE_INTERVAL_SEC = 5"
definition INOTIFY_SAFETY_SEC :: int where "INOTIFY_SAFETY_SEC = 60"
definition RESTART_STABLE_SEC :: int where "RESTART_STABLE_SEC = 30"
definition RESTART_BACKOFF_MAX_SEC :: int where "RESTART_BACKOFF_MAX_SEC = 30"
definition RESTART_BURST_LIMIT :: int where "RESTART_BURST_LIMIT = 5"

datatype restart_policy = POLICY_NEVER | POLICY_ON_FAILURE | POLICY_ALWAYS

record managed =
  used :: bool
  mname :: string
  mpid :: int
  pidfd :: "nat option"
  broker_fd :: "nat option"
  inbox_fd :: "nat option"
  restart_count :: int
  consecutive_failures :: int
  last_started_at :: int
  next_restart_at :: int
  external :: bool

record daemon =
  os :: world
  slots :: "managed list"
  shutdown :: bool
  sigchld :: bool
  inotify_fd :: "nat option"
  root_wd :: int
  watches :: "(int \<times> string) list"

definition free_slot :: managed where
  "free_slot = \<lparr>used = False, mname = [], mpid = 0, pidfd = None, broker_fd = None, inbox_fd = None, restart_count = 0,
     consecutive_failures = 0, last_started_at = 0, next_restart_at = 0, external = False\<rparr>"

text \<open>A call on the daemon's world, with and without its result; an update of one slot.\<close>

definition run :: "(world \<Rightarrow> 'a \<times> world) \<Rightarrow> daemon \<Rightarrow> 'a \<times> daemon" where
  "run f d = (let (r, w) = f (os d) in (r, d\<lparr>os := w\<rparr>))"

definition act :: "(world \<Rightarrow> 'a \<times> world) \<Rightarrow> daemon \<Rightarrow> daemon" where
  "act f d = snd (run f d)"

definition slot :: "nat \<Rightarrow> daemon \<Rightarrow> managed" where
  "slot i d = slots d ! i"

definition upd :: "nat \<Rightarrow> (managed \<Rightarrow> managed) \<Rightarrow> daemon \<Rightarrow> daemon" where
  "upd i f d = d\<lparr>slots := (slots d)[i := f (slots d ! i)]\<rparr>"

definition daemon_log_line :: "string \<Rightarrow> world \<Rightarrow> string" where
  "daemon_log_line msg w = log_line 512 (stamp_iso (gmtime_r (now w)) @ '' pid='' @ dec_nat (self_pid w) @ '' '' @ msg)"

definition daemon_log :: "string \<Rightarrow> unit io" where
  "daemon_log msg w = (case sys_open (agentd_log_path w) [O_WRONLY, O_CREAT, O_APPEND, O_CLOEXEC] 384 w of
       (Inl e, w) \<Rightarrow> (Inl e, w)
     | (Inr fd, w) \<Rightarrow> (Inr (), snd (sys_close fd (snd (sys_write fd (daemon_log_line msg w) w)))))"

definition find_slot :: "(managed \<Rightarrow> bool) \<Rightarrow> managed list \<Rightarrow> nat option" where
  "find_slot P ms = find (\<lambda>i. P (ms ! i)) [0..<length ms]"

definition find_by_name :: "string \<Rightarrow> daemon \<Rightarrow> nat option" where
  "find_by_name name d = find_slot (\<lambda>m. used m \<and> mname m = name) (slots d)"

definition find_by_pid :: "int \<Rightarrow> daemon \<Rightarrow> nat option" where
  "find_by_pid pid d = (if pid \<le> 0 then None else find_slot (\<lambda>m. used m \<and> mpid m = pid) (slots d))"

definition alloc_slot :: "string \<Rightarrow> daemon \<Rightarrow> nat option \<times> daemon" where
  "alloc_slot name d = (case find_by_name name d of
       Some i \<Rightarrow> (Some i, d)
     | None \<Rightarrow> (case find_slot (\<lambda>m. \<not> used m) (slots d) of
           None \<Rightarrow> (None, d)
         | Some i \<Rightarrow> (Some i, upd i (\<lambda>_. free_slot\<lparr>used := True, mname := snprintf_trunc MAX_NAME name\<rparr>) d)))"

definition close_fds :: "managed \<Rightarrow> world \<Rightarrow> world" where
  "close_fds m w = close_opt (inbox_fd m) (close_opt (broker_fd m) (close_opt (pidfd m) w))"

definition clear_runtime_state :: "nat \<Rightarrow> daemon \<Rightarrow> daemon" where
  "clear_runtime_state i d = upd i (\<lambda>m. m\<lparr>pidfd := None, broker_fd := None, inbox_fd := None, mpid := 0\<rparr>)
     (d\<lparr>os := close_fds (slot i d) (os d)\<rparr>)"

definition release_slot :: "nat \<Rightarrow> daemon \<Rightarrow> daemon" where
  "release_slot i d = upd i (\<lambda>_. free_slot) (d\<lparr>os := close_fds (slot i d) (os d)\<rparr>)"

text \<open>Settings.\<close>

definition load_enabled :: "string \<Rightarrow> world \<Rightarrow> bool \<times> world" where
  "load_enabled name w = (case read_agent_setting name ''enabled'' 16 w of
       (Inl _, w) \<Rightarrow> (True, w) | (Inr v, w) \<Rightarrow> (v = ''yes'', w))"

definition load_desired_running :: "string \<Rightarrow> world \<Rightarrow> bool \<times> world" where
  "load_desired_running name w = (case read_agent_setting name ''desired_state'' 16 w of
       (Inl _, w) \<Rightarrow> (False, w) | (Inr v, w) \<Rightarrow> (v = ''running'', w))"

definition load_policy :: "string \<Rightarrow> world \<Rightarrow> restart_policy \<times> world" where
  "load_policy name w = (case read_agent_setting name ''restart_policy'' 32 w of
       (Inl _, w) \<Rightarrow> (POLICY_ON_FAILURE, w)
     | (Inr v, w) \<Rightarrow> (if v = ''never'' then POLICY_NEVER else if v = ''always'' then POLICY_ALWAYS
                      else POLICY_ON_FAILURE, w))"

definition load_runtime_path :: "string \<Rightarrow> nat \<Rightarrow> string io" where
  "load_runtime_path name n w = (case read_agent_setting name ''exec'' n w of
       (Inr v, w) \<Rightarrow> (Inr v, w) | (Inl _, w) \<Rightarrow> read_agent_setting name ''runtime'' n w)"

definition persist_restart_count :: "nat \<Rightarrow> daemon \<Rightarrow> daemon" where
  "persist_restart_count i d = act (write_agent_setting (mname (slot i d)) ''restart_count''
     (snprintf_trunc 16 (dec_int (restart_count (slot i d))))) d"

text \<open>Starting.\<close>

definition fd_text :: "nat option \<Rightarrow> string" where
  "fd_text n = (case n of None \<Rightarrow> ''-1'' | Some n \<Rightarrow> dec_nat n)"

definition adopt_spawned :: "nat \<Rightarrow> int \<Rightarrow> daemon \<Rightarrow> daemon" where
  "adopt_spawned i pid d = upd i (\<lambda>m. m\<lparr>mpid := pid, external := False, last_started_at := now (os d),
     next_restart_at := 0\<rparr>) d"

definition open_pidfd :: "host \<Rightarrow> string \<Rightarrow> int \<Rightarrow> world \<Rightarrow> nat option \<times> world" where
  "open_pidfd h name pid w = (case lifecycle_pidfd_open pid w of
       (Inr n, w) \<Rightarrow> (Some n, w)
     | (Inl e, w) \<Rightarrow> (None, if e = ENOSYS then w
           else snd (daemon_log (''pidfd_open('' @ dec_int pid @ '') for '' @ name @ '': '' @ h_strerror h e) w)))"

definition spawn_agent :: "host \<Rightarrow> nat \<Rightarrow> daemon \<Rightarrow> (errno + unit) \<times> daemon" where
  "spawn_agent h i d =
     (let name = mname (slot i d) in
      case run (load_runtime_path name MAX_PATHBUF) d of
        (Inl e, d) \<Rightarrow> (Inl e, act (audit_log name ''agentd: cannot start (no runtime file)'')
           (act (daemon_log (''start '' @ name @ '': no runtime file'')) d))
      | (Inr path, d) \<Rightarrow>
          (case run (spawn_agent_runtime h name path (Some ''agentd'') (-1, -1, -1) True True) d of
             ((Inl e, _), d) \<Rightarrow> (Inl e, act (audit_log name (''agentd: spawn failed: '' @ h_strerror h e))
                (act (daemon_log (''start '' @ name @ '': spawn failed: '' @ h_strerror h e)) d))
           | ((Inr _, sp), d) \<Rightarrow>
               (let pid = the (sp_pid sp);
                    d = adopt_spawned i pid d;
                    (pfd, d) = run (open_pidfd h name pid) d;
                    d = upd i (\<lambda>m. m\<lparr>pidfd := pfd, broker_fd := sp_broker sp, inbox_fd := sp_inbox sp\<rparr>) d
                in (Inr (), act (daemon_log (''started '' @ name @ '' pid='' @ dec_int pid @ '' pidfd='' @ fd_text pfd @
                     '' broker_fd='' @ fd_text (sp_broker sp) @ '' inbox_fd='' @ fd_text (sp_inbox sp))) d))))"

definition agent_alive :: "managed \<Rightarrow> world \<Rightarrow> bool \<times> world" where
  "agent_alive m w = (if mpid m \<le> 0 then (False, w)
     else if pidfd m \<noteq> None then
       (case lifecycle_pidfd_alive (pidfd m) w of
          (Some b, w) \<Rightarrow> (b, w) | (None, w) \<Rightarrow> run_alive (mpid m) w)
     else run_alive (mpid m) w)"

text \<open>One exit of a runtime that was waited for, and the restart decision.\<close>

fun exit_code :: "wstatus \<Rightarrow> nat" where
  "exit_code (Exited c) = c" | "exit_code (Signaled s) = 0"

fun exit_signal :: "wstatus \<Rightarrow> nat" where
  "exit_signal (Exited c) = 0" | "exit_signal (Signaled s) = s"

definition exit_text :: "wstatus \<Rightarrow> string" where
  "exit_text st = (if exit_signal st \<noteq> 0 then ''crashed signal='' @ dec_nat (exit_signal st)
     else ''exited status='' @ dec_nat (exit_code st))"

definition exit_status_word :: "wstatus \<Rightarrow> string" where
  "exit_status_word st = (if exit_signal st \<noteq> 0 then ''crashed'' else if exit_code st = 0 then ''stopped'' else ''failed'')"

definition should_restart :: "restart_policy \<Rightarrow> wstatus \<Rightarrow> bool" where
  "should_restart p st \<longleftrightarrow> p = POLICY_ALWAYS \<or> p = POLICY_ON_FAILURE \<and> (exit_signal st \<noteq> 0 \<or> exit_code st \<noteq> 0)"

definition restart_delay :: "int \<Rightarrow> int" where
  "restart_delay failures = (let shift = failures - 1;
       delay = (if shift \<ge> 5 then RESTART_BACKOFF_MAX_SEC else 2 ^ nat shift)
     in if delay > RESTART_BACKOFF_MAX_SEC then RESTART_BACKOFF_MAX_SEC else delay)"

definition count_failure :: "int \<Rightarrow> managed \<Rightarrow> managed" where
  "count_failure uptime m = m\<lparr>consecutive_failures :=
       (if uptime \<ge> RESTART_STABLE_SEC then 0 else consecutive_failures m) + 1, restart_count := restart_count m + 1\<rparr>"

definition suppress_restart :: "nat \<Rightarrow> daemon \<Rightarrow> daemon" where
  "suppress_restart i d = (let m = slot i d; n = mname m; f = dec_int (consecutive_failures m);
       d = act (audit_log n (''restart suppressed crash-loop failures='' @ f @ '' window='' @ dec_int RESTART_STABLE_SEC @ ''s'')) d;
       d = act (daemon_log (n @ '' restart suppressed after '' @ f @ '' short runs'')) d;
       d = act (write_status n ''crash-loop'') d;
       d = act (write_agent_setting n ''desired_state'' ''stopped'') d
     in upd i (\<lambda>m. m\<lparr>next_restart_at := 0\<rparr>) d)"

definition schedule_restart :: "nat \<Rightarrow> restart_policy \<Rightarrow> int \<Rightarrow> daemon \<Rightarrow> daemon" where
  "schedule_restart i p t d = (let m = slot i d; delay = restart_delay (consecutive_failures m);
       d = upd i (\<lambda>m. m\<lparr>next_restart_at := t + delay\<rparr>) d
     in act (audit_log (mname m) (''restart scheduled policy='' @ (if p = POLICY_ALWAYS then ''always'' else ''on-failure'') @
          '' delay='' @ dec_int delay @ ''s failure='' @ dec_int (consecutive_failures m))) d)"

definition no_restart :: "nat \<Rightarrow> restart_policy \<Rightarrow> daemon \<Rightarrow> daemon" where
  "no_restart i p d = (let n = mname (slot i d);
       d = act (audit_log n (''no restart (policy='' @ (if p = POLICY_NEVER then ''never'' else ''on-failure'') @ '')'')) d
     in act (write_agent_setting n ''desired_state'' ''stopped'') d)"

definition restart_decision :: "nat \<Rightarrow> wstatus \<Rightarrow> int \<Rightarrow> int \<Rightarrow> daemon \<Rightarrow> daemon" where
  "restart_decision i st t uptime d =
     (let n = mname (slot i d); (p, d) = run (load_policy n) d in
      if \<not> should_restart p st then no_restart i p d
      else (let d = persist_restart_count i (upd i (count_failure uptime) d) in
        if consecutive_failures (slot i d) \<ge> RESTART_BURST_LIMIT then suppress_restart i d
        else schedule_restart i p t d))"

definition wanted :: "string \<Rightarrow> world \<Rightarrow> bool \<times> world" where
  "wanted name w = (let (en, w) = load_enabled name w in
     if \<not> en then (False, w) else load_desired_running name w)"

definition reap_exit :: "nat \<Rightarrow> wstatus \<Rightarrow> daemon \<Rightarrow> daemon" where
  "reap_exit i st d =
     (let m = slot i d; n = mname m; t = now (os d);
          uptime = (if last_started_at m > 0 then t - last_started_at m else 0);
          d = clear_runtime_state i d;
          d = act (audit_log n (''runtime '' @ exit_text st)) d;
          d = act (daemon_log (n @ '' '' @ exit_text st)) d;
          d = act (write_status n (exit_status_word st)) d;
          (want, d) = run (wanted n) d
      in if \<not> want then act (daemon_log (n @ '' not restarted (disabled or stopped)'')) d
         else restart_decision i st t uptime d)"

section \<open>What reaping leaves alone\<close>

lemma act_fields [simp]: "slots (act f d) = slots d" "os (act f d) = snd (f (os d))" "shutdown (act f d) = shutdown d"
  "sigchld (act f d) = sigchld d" "watches (act f d) = watches d" "root_wd (act f d) = root_wd d"
  "inotify_fd (act f d) = inotify_fd d"
  by (simp_all add: act_def run_def case_prod_beta Let_def)

lemma upd_fields [simp]: "os (upd i f d) = os d" "shutdown (upd i f d) = shutdown d" "sigchld (upd i f d) = sigchld d"
  "watches (upd i f d) = watches d" "root_wd (upd i f d) = root_wd d" "inotify_fd (upd i f d) = inotify_fd d"
  "slots (upd i f d) = (slots d)[i := f (slots d ! i)]"
  by (simp_all add: upd_def)

lemma run_eq: "run f d = (fst (f (os d)), act f d)"
  by (simp add: run_def act_def case_prod_beta Let_def)

lemma slot_act [simp]: "slot i (act f d) = slot i d"
  by (simp add: slot_def)

lemma ambient_close_opt [simp]: "ambient (close_opt n w) = ambient w"
  by (simp add: close_opt_def split: option.splits)

lemma ambient_close_fds [simp]: "ambient (close_fds m w) = ambient w"
  by (simp add: close_fds_def)

lemma amb_daemon_log [amb_intros]: "ambient w = a \<Longrightarrow> amb a (daemon_log m w)"
  unfolding daemon_log_def by (auto intro!: amb_intros)

lemma amb_load_enabled [amb_intros]: "ambient w = a \<Longrightarrow> amb a (load_enabled n w)"
  unfolding load_enabled_def by (auto intro!: amb_intros)

lemma amb_load_desired [amb_intros]: "ambient w = a \<Longrightarrow> amb a (load_desired_running n w)"
  unfolding load_desired_running_def by (auto intro!: amb_intros)

lemma amb_load_policy [amb_intros]: "ambient w = a \<Longrightarrow> amb a (load_policy n w)"
  unfolding load_policy_def by (auto intro!: amb_intros)

lemma amb_wanted [amb_intros]: "ambient w = a \<Longrightarrow> amb a (wanted n w)"
  unfolding wanted_def Let_def by (auto intro!: amb_intros)

lemma ambient_settings [simp]:
  "ambient (snd (daemon_log m w)) = ambient w" "ambient (snd (load_enabled n w)) = ambient w"
  "ambient (snd (load_desired_running n w)) = ambient w" "ambient (snd (load_policy n w)) = ambient w"
  "ambient (snd (wanted n w)) = ambient w"
  by (intro ambD amb_intros refl)+

lemma ambient_clear [simp]: "ambient (os (clear_runtime_state i d)) = ambient (os d)"
  "ambient (os (release_slot i d)) = ambient (os d)"
  by (simp_all add: clear_runtime_state_def release_slot_def)

lemma ambient_decision [simp]:
  "ambient (os (suppress_restart i d)) = ambient (os d)" "ambient (os (schedule_restart i p t d)) = ambient (os d)"
  "ambient (os (no_restart i p d)) = ambient (os d)" "ambient (os (persist_restart_count i d)) = ambient (os d)"
  by (simp_all add: suppress_restart_def schedule_restart_def no_restart_def persist_restart_count_def Let_def)

lemma ambient_restart_decision [simp]: "ambient (os (restart_decision i st t u d)) = ambient (os d)"
  by (simp add: restart_decision_def run_eq Let_def)

lemma ambient_reap_exit [simp]: "ambient (os (reap_exit i st d)) = ambient (os d)"
  by (simp add: reap_exit_def run_eq Let_def)

lemma procs_reap_exit [simp]: "procs (os (reap_exit i st d)) = procs (os d)"
  by (rule ambient_fields) simp

lemma waitpid_fewer:
  assumes "sys_waitpid w = (Inr (Some x), w')"
  shows "length (procs w') < length (procs w)"
  using assms unfolding sys_waitpid_def
proof (cases rule: call_cases)
  case (run s)
  then obtain pid p where v: "find zombie_child (procs w) = Some (pid, p)" "procs w' = AList.delete pid (procs w)"
    by (auto split: option.splits if_splits)
  have "(pid, p) \<in> set (procs w)" using v(1) by (auto simp: find_Some_iff in_set_conv_nth)
  then show ?thesis using v(2) by (auto simp: AList.delete_eq intro!: length_filter_less)
qed simp

text \<open>The loop over the exited children: every round removes one from the process table.\<close>

function reap_zombies :: "daemon \<Rightarrow> daemon" where
  "reap_zombies d = (case sys_waitpid (os d) of
       (Inr (Some (pid, st)), w) \<Rightarrow>
         (let d = d\<lparr>os := w\<rparr> in
          reap_zombies (case find_by_pid pid d of None \<Rightarrow> d | Some i \<Rightarrow> reap_exit i st d))
     | (_, w) \<Rightarrow> d\<lparr>os := w\<rparr>)"
  by pat_completeness auto
termination
proof (relation "measure (\<lambda>d. length (procs (os d)))", goal_cases)
  case (2 d x w a b pid st da)
  then have "length (procs w) < length (procs (os d))" by (metis waitpid_fewer)
  with 2 show ?case by (auto split: option.splits)
qed simp

declare reap_zombies.simps [simp del]

section \<open>Stopping and reconciling\<close>

text \<open>Signals to the leader (through the pid descriptor when there is one) and to its group.\<close>

definition signal_leader :: "managed \<Rightarrow> nat \<Rightarrow> unit io" where
  "signal_leader m sig = (if pidfd m \<noteq> None then lifecycle_pidfd_signal (pidfd m) sig else sys_kill (mpid m) sig)"

definition report_signal :: "host \<Rightarrow> string \<Rightarrow> unit io \<Rightarrow> daemon \<Rightarrow> daemon" where
  "report_signal h what f d = (case run f d of
       (Inr _, d) \<Rightarrow> d
     | (Inl e, d) \<Rightarrow> if e = ESRCH then d else act (daemon_log (what @ h_strerror h e)) d)"

definition send_term :: "host \<Rightarrow> nat \<Rightarrow> daemon \<Rightarrow> daemon" where
  "send_term h i d = (let m = slot i d; n = mname m;
       d = report_signal h (''stop '' @ n @ (if pidfd m \<noteq> None then '': pidfd SIGTERM: '' else '': kill -TERM: ''))
             (signal_leader m SIGTERM) d;
       d = report_signal h (''stop '' @ n @ '': killpg -TERM: '') (lifecycle_signal_group (mpid m) SIGTERM) d
     in act (audit_log n ''agentd: SIGTERM sent'') d)"

text \<open>The wait: one round per 50 ms.\<close>

fun stop_wait :: "nat \<Rightarrow> nat \<Rightarrow> daemon \<Rightarrow> bool \<times> daemon" where
  "stop_wait 0 i d = (False, d)"
| "stop_wait (Suc k) i d =
     (let d = reap_zombies d; (alive, d) = run (agent_alive (slot i d)) d in
      if \<not> alive then (True, clear_runtime_state i d)
      else stop_wait k i (d\<lparr>os := sys_nanosleep (os d)\<rparr>))"

definition stop_rounds :: "nat \<Rightarrow> nat" where
  "stop_rounds timeout_ms = (timeout_ms + 49) div 50"

definition kill_cgroup :: "host \<Rightarrow> string \<Rightarrow> world \<Rightarrow> bool \<times> world" where
  "kill_cgroup h n w = (case enforcement_read_state n w of
       (Inl _, w) \<Rightarrow> (False, w)
     | (Inr es, w) \<Rightarrow>
         if cgroup_status es = ENF_STATUS_ACTIVE \<and> cgroup_path es \<noteq> [] then
           (case lifecycle_cgroup_kill (cgroup_path es) w of
              (Inr _, w) \<Rightarrow> (True, snd (audit_log n (''agentd: cgroup.kill atomic subtree SIGKILL path='' @ cgroup_path es) w))
            | (Inl e, w) \<Rightarrow> (False, snd (audit_log n (''agentd: cgroup.kill failed ('' @ h_strerror h e @
                 ''); falling back to pidfd+killpg'') w)))
         else (False, w))"

definition escalate :: "host \<Rightarrow> nat \<Rightarrow> nat \<Rightarrow> daemon \<Rightarrow> daemon" where
  "escalate h i timeout_ms d = (let m = slot i d; n = mname m;
       d = act (daemon_log (''stop '' @ n @ '': still alive after '' @ dec_nat timeout_ms @ ''ms; SIGKILL'')) d;
       (done_by_cgroup, d) = run (kill_cgroup h n) d;
       d = (if done_by_cgroup then d
            else act (lifecycle_signal_group (mpid m) SIGKILL) (act (signal_leader m SIGKILL) d))
     in act (audit_log n ''agentd: SIGKILL after stop timeout'') d)"

definition stop_agent :: "host \<Rightarrow> nat \<Rightarrow> nat \<Rightarrow> daemon \<Rightarrow> daemon" where
  "stop_agent h i timeout_ms d =
     (let (alive, d) = run (agent_alive (slot i d)) d in
      if \<not> alive then clear_runtime_state i d
      else (case stop_wait (stop_rounds timeout_ms) i (send_term h i d) of
          (True, d) \<Rightarrow> d
        | (False, d) \<Rightarrow> escalate h i timeout_ms d))"

text \<open>The agents on disk, in directory order.\<close>

definition scan_entry :: "(string \<Rightarrow> daemon \<Rightarrow> daemon) \<Rightarrow> string \<Rightarrow> daemon \<Rightarrow> daemon" where
  "scan_entry cb e d =
     (if starts_with ''.'' e \<or> \<not> validate_name e then d
      else (let path = join (agent_root (os d)) e in
        if length path \<ge> MAX_PATHBUF then d
        else (case run (sys_stat path) d of
            (Inl _, d) \<Rightarrow> d
          | (Inr i, d) \<Rightarrow> if kind i = Dir then cb e d else d)))"

definition scan_disk_agents :: "(string \<Rightarrow> daemon \<Rightarrow> daemon) \<Rightarrow> daemon \<Rightarrow> daemon" where
  "scan_disk_agents cb d = (case run (sys_opendir (agent_root (os d))) d of
       (Inl _, d) \<Rightarrow> d | (Inr es, d) \<Rightarrow> fold (scan_entry cb) es d)"

definition read_restart_count :: "nat \<Rightarrow> string \<Rightarrow> daemon \<Rightarrow> daemon" where
  "read_restart_count i name d = (case run (read_agent_setting name ''restart_count'' 16) d of
       (Inl _, d) \<Rightarrow> d | (Inr v, d) \<Rightarrow> upd i (\<lambda>m. m\<lparr>restart_count := atoi v\<rparr>) d)"

definition adopt_external :: "nat \<Rightarrow> string \<Rightarrow> int \<Rightarrow> daemon \<Rightarrow> daemon" where
  "adopt_external i name pid d = (let
       d = upd i (\<lambda>m. m\<lparr>mpid := pid, external := True\<rparr>) d;
       (r, d) = run (lifecycle_pidfd_open pid) d;
       pfd = (case r of Inl _ \<Rightarrow> None | Inr n \<Rightarrow> Some n);
       d = upd i (\<lambda>m. m\<lparr>pidfd := pfd\<rparr>) d;
       d = read_restart_count i name d;
       d = act (daemon_log (''recovered running agent '' @ name @ '' pid='' @ dec_int pid @ '' pidfd='' @ fd_text pfd @
             '' (external)'')) d
     in act (audit_log name (''agentd: recovered running pid='' @ dec_int pid)) d)"

definition drop_stale_pid :: "string \<Rightarrow> daemon \<Rightarrow> daemon" where
  "drop_stale_pid name d = (case run (agent_path MAX_PATHBUF name ''pid'') d of
       (Inl _, d) \<Rightarrow> d
     | (Inr p, d) \<Rightarrow> act (audit_log name ''agentd: stale pid file removed'')
         (act (daemon_log (''removed stale pid file for '' @ name)) (act (sys_unlink p) d)))"

definition start_recovered :: "host \<Rightarrow> string \<Rightarrow> daemon \<Rightarrow> daemon" where
  "start_recovered h name d =
     (let (want, d) = run (wanted name) d in
      if \<not> want then d
      else (case alloc_slot name d of
          (None, d) \<Rightarrow> d
        | (Some i, d) \<Rightarrow>
            (let d = act (daemon_log (''restarting '' @ name @ '' (recovery)'')) d;
                 d = act (audit_log name ''agentd: restarting (recovery)'') d
             in case spawn_agent h i d of (Inl _, d) \<Rightarrow> release_slot i d | (Inr _, d) \<Rightarrow> d)))"

definition recover_cb :: "host \<Rightarrow> string \<Rightarrow> daemon \<Rightarrow> daemon" where
  "recover_cb h name d = (case run (read_pid_file name) d of
       (Inl _, d) \<Rightarrow> start_recovered h name d
     | (Inr pid, d) \<Rightarrow>
         (let (alive, d) = run (run_alive pid) d in
          if alive then (case alloc_slot name d of (None, d) \<Rightarrow> d | (Some i, d) \<Rightarrow> adopt_external i name pid d)
          else start_recovered h name (drop_stale_pid name d)))"

text \<open>Reconciliation of one agent.\<close>

definition drop_gone_external :: "nat \<Rightarrow> string \<Rightarrow> daemon \<Rightarrow> daemon" where
  "drop_gone_external i name d =
     (let m = slot i d in
      if \<not> (external m \<and> mpid m > 0) then d
      else (let (alive, d) = run (agent_alive m) d in
        if alive then d
        else (let d = act (audit_log name (''agentd: external pid '' @ dec_int (mpid m) @ '' is gone'')) d;
                  d = act (write_status name ''stopped'') d
              in upd i (\<lambda>m. m\<lparr>external := False\<rparr>) (clear_runtime_state i d))))"

definition slot_alive :: "nat option \<Rightarrow> daemon \<Rightarrow> bool \<times> daemon" where
  "slot_alive mi d = (case mi of None \<Rightarrow> (False, d)
     | Some i \<Rightarrow> if mpid (slot i d) > 0 then run (agent_alive (slot i d)) d else (False, d))"

definition reconcile_start :: "host \<Rightarrow> nat \<Rightarrow> string \<Rightarrow> daemon \<Rightarrow> daemon" where
  "reconcile_start h i name d =
     (let t = now (os d) in
      if next_restart_at (slot i d) > t then d
      else (case spawn_agent h i (act (audit_log name ''agentd: reconcile -> start'') d) of
          (Inl _, d) \<Rightarrow> upd i (\<lambda>m. m\<lparr>next_restart_at := t + 1\<rparr>) (act (audit_log name ''agentd: restart spawn failed'') d)
        | (Inr _, d) \<Rightarrow> if restart_count (slot i d) > 0
            then act (audit_log name (''restarted pid='' @ dec_int (mpid (slot i d)) @ '' restart_count='' @
              dec_int (restart_count (slot i d)))) d
            else d))"

definition reconcile_cb :: "host \<Rightarrow> string \<Rightarrow> daemon \<Rightarrow> daemon" where
  "reconcile_cb h name d =
     (let (enabled, d) = run (load_enabled name) d;
          (desire, d) = run (load_desired_running name) d;
          mi = find_by_name name d;
          d = (case mi of None \<Rightarrow> d | Some i \<Rightarrow> drop_gone_external i name d);
          (alive, d) = slot_alive mi d
      in if enabled \<and> desire \<and> \<not> alive then
           (case (case mi of Some i \<Rightarrow> (Some i, d) | None \<Rightarrow> alloc_slot name d) of
              (None, d) \<Rightarrow> d | (Some i, d) \<Rightarrow> reconcile_start h i name d)
         else if alive \<and> (\<not> enabled \<or> \<not> desire) then
           (case mi of None \<Rightarrow> d
            | Some i \<Rightarrow> stop_agent h i 2000 (act (audit_log name ''agentd: reconcile -> stop'') d))
         else d)"

text \<open>The time until the next scheduled restart, in milliseconds.\<close>

definition restart_pending :: "managed \<Rightarrow> bool" where
  "restart_pending m \<longleftrightarrow> used m \<and> mpid m \<le> 0 \<and> next_restart_at m > 0"

definition scheduled_restart_timeout_ms :: "int \<Rightarrow> daemon \<Rightarrow> int" where
  "scheduled_restart_timeout_ms fallback d =
     fold (\<lambda>m best. if restart_pending m then min best (max 0 ((next_restart_at m - now (os d)) * 1000)) else best)
       (slots d) fallback"

definition scheduled_restart_due :: "daemon \<Rightarrow> bool" where
  "scheduled_restart_due d \<longleftrightarrow> list_ex (\<lambda>m. restart_pending m \<and> next_restart_at m \<le> now (os d)) (slots d)"

end
