(* ===== verification/BrokerService.thy ===== *)
theory BrokerService
  imports Supervisor
begin

text \<open>
  The capability broker inside the supervisor (\<open>src/agentd.c\<close>, lines 540 to 769): the allow
  patterns of an agent, the channel handed to a target's inbox, and the handling of one
  request on an agent's broker channel.
\<close>

section \<open>Definitions\<close>

definition allow_pattern :: "string \<Rightarrow> string option" where
  "allow_pattern l = (let line = dropWhile is_blank l in
     if starts_with ''allow '' line then
       (let p = rstrip is_blank (dropWhile is_blank (drop 6 line)) in if p = [] then None else Some p)
     else None)"

definition allow_patterns :: "nat \<Rightarrow> string \<Rightarrow> string list" where
  "allow_patterns lim text = take lim (List.map_filter allow_pattern (c_lines text))"

definition load_allow_patterns :: "string \<Rightarrow> nat \<Rightarrow> world \<Rightarrow> string list \<times> world" where
  "load_allow_patterns agent lim w = (case agent_path MAX_PATHBUF agent ''policy'' w of
       (Inl _, w) \<Rightarrow> ([], w)
     | (Inr p, w) \<Rightarrow> (case read_small_file p 8192 w of
           (Inl _, w) \<Rightarrow> ([], w) | (Inr t, w) \<Rightarrow> (allow_patterns lim (cstr t), w)))"

definition broker_reply :: "nat \<Rightarrow> string \<Rightarrow> nat option \<Rightarrow> nat io" where
  "broker_reply chan bs fd = send_retry chan bs (case fd of None \<Rightarrow> [] | Some n \<Rightarrow> [n])"

definition set_cloexec :: "nat \<Rightarrow> world \<Rightarrow> world" where
  "set_cloexec n w = (case sys_fcntl_fd n w of (Inl _, w) \<Rightarrow> w | (Inr _, w) \<Rightarrow> snd (sys_fcntl_fd n w))"

definition channel_meta :: "string \<Rightarrow> int \<Rightarrow> nat \<Rightarrow> string" where
  "channel_meta sender pid uid = ''SENDER '' @ sender @ [NL] @ ''PID '' @ dec_int pid @ [NL] @ ''UID '' @ dec_nat uid @ [NL, NL]"

datatype issue = NoListener | Refused errno | Issued nat

definition deliver_channel :: "nat \<Rightarrow> string \<Rightarrow> world \<Rightarrow> issue \<times> world" where
  "deliver_channel inbox meta w = (case sys_socketpair w of
       (Inl e, w) \<Rightarrow> (Refused e, w)
     | (Inr (a, b), w) \<Rightarrow>
         (let w = set_cloexec b (set_cloexec a w); (r, w) = send_retry inbox meta [b] w; w = snd (sys_close b w) in
          case r of Inl e \<Rightarrow> (Refused e, snd (sys_close a w)) | Inr _ \<Rightarrow> (Issued a, w)))"

definition issue_mailbox_channel :: "string \<Rightarrow> int \<Rightarrow> nat \<Rightarrow> string \<Rightarrow> daemon \<Rightarrow> issue \<times> daemon" where
  "issue_mailbox_channel sender pid uid target d = (case find_by_name target d of
       None \<Rightarrow> (NoListener, d)
     | Some i \<Rightarrow> (let m = slot i d in
         if mpid m \<le> 0 \<or> inbox_fd m = None then (NoListener, d)
         else (let (alive, d) = run (agent_alive m) d in
           if \<not> alive then (NoListener, d)
           else run (deliver_channel (the (inbox_fd m)) (channel_meta sender pid uid)) d)))"

definition drop_broker :: "nat \<Rightarrow> daemon \<Rightarrow> daemon" where
  "drop_broker i d = upd i (\<lambda>m. m\<lparr>broker_fd := None\<rparr>) (d\<lparr>os := close_opt (broker_fd (slot i d)) (os d)\<rparr>)"

definition close_all :: "nat list \<Rightarrow> world \<Rightarrow> world" where
  "close_all ns w = fold (\<lambda>n w. snd (sys_close n w)) ns w"

definition send_denied :: "nat \<Rightarrow> string \<Rightarrow> string \<Rightarrow> world \<Rightarrow> world" where
  "send_denied chan cp rsn w = (case broker_format_denied BROKER_MSG_MAX cp rsn of
       Inl _ \<Rightarrow> w | Inr s \<Rightarrow> snd (broker_reply chan s None w))"

definition broker_denied :: "nat \<Rightarrow> string \<Rightarrow> string \<Rightarrow> string \<Rightarrow> daemon \<Rightarrow> daemon" where
  "broker_denied chan name cp rsn d =
     (let d = d\<lparr>os := send_denied chan cp rsn (os d)\<rparr>;
          d = act (daemon_log (''broker denied cap='' @ cp @ '' to='' @ name @ '' reason='' @ rsn)) d
      in act (audit_log name (''broker denied cap='' @ cp @ '' reason='' @ rsn)) d)"

definition hand_out :: "host \<Rightarrow> nat \<Rightarrow> string \<Rightarrow> string \<Rightarrow> string \<Rightarrow> nat \<Rightarrow> daemon \<Rightarrow> daemon" where
  "hand_out h chan name cp target cap_fd d = (case run broker_make_token d of
       (Inl e, d) \<Rightarrow>
         (let d = act (sys_close cap_fd) d;
              d = d\<lparr>os := send_denied chan cp ''entropy-failure'' (os d)\<rparr>;
              d = act (daemon_log (''broker '' @ name @ '': audit token generation failed: '' @ h_strerror h e)) d
          in act (audit_log name (''broker denied cap='' @ cp @ '' reason=entropy-failure'')) d)
     | (Inr tok, d) \<Rightarrow> (case broker_format_issued BROKER_MSG_MAX cp tok of
           Inl _ \<Rightarrow> act (sys_close cap_fd) d
         | Inr s \<Rightarrow>
             (let (r, d) = run (broker_reply chan s (Some cap_fd)) d; d = act (sys_close cap_fd) d in
              case r of
                Inl e \<Rightarrow> act (daemon_log (''broker '' @ name @ '': response sendmsg failed: '' @ h_strerror h e)) d
              | Inr _ \<Rightarrow> act (audit_log name (''broker issued cap='' @ cp @ '' token='' @ tok @ '' target='' @ target))
                  (act (daemon_log (''broker issued cap='' @ cp @ '' to='' @ name @ '' token='' @ tok)) d))))"

definition broker_dispatch :: "host \<Rightarrow> nat \<Rightarrow> nat \<Rightarrow> string \<Rightarrow> daemon \<Rightarrow> daemon" where
  "broker_dispatch h i chan cp d =
     (let m = slot i d in
      if starts_with ''mailbox.send:'' cp then
        (let target = drop 13 cp in
         case issue_mailbox_channel (mname m) (mpid m) (euid (os d)) target d of
           (NoListener, d) \<Rightarrow> broker_denied chan (mname m) cp ''no-listener'' d
         | (Refused e, d) \<Rightarrow> broker_denied chan (mname m) cp (h_strerror h e) d
         | (Issued cap_fd, d) \<Rightarrow> hand_out h chan (mname m) cp target cap_fd d)
      else broker_denied chan (mname m) cp ''unknown-cap-kind'' d)"

definition broker_request_in :: "host \<Rightarrow> nat \<Rightarrow> nat \<Rightarrow> string \<Rightarrow> daemon \<Rightarrow> daemon" where
  "broker_request_in h i chan buf d =
     (let name = mname (slot i d) in
      case broker_parse buf of
        Some req \<Rightarrow>
          if bverb req = BROKER_VERB_REQUEST then
            (let (pats, d) = run (load_allow_patterns name 32) d in
             if broker_policy_check (cap req) pats then broker_dispatch h i chan (cap req) d
             else broker_denied chan name (cap req) ''not-in-caps'' d)
          else act (audit_log name ''broker malformed request from agent'')
            (act (daemon_log (''broker '' @ name @ '': malformed request''))
              (d\<lparr>os := send_denied chan ''?'' ''malformed-request'' (os d)\<rparr>))
      | None \<Rightarrow> act (audit_log name ''broker malformed request from agent'')
            (act (daemon_log (''broker '' @ name @ '': malformed request''))
              (d\<lparr>os := send_denied chan ''?'' ''malformed-request'' (os d)\<rparr>)))"

definition broker_handle_event :: "host \<Rightarrow> nat \<Rightarrow> daemon \<Rightarrow> daemon" where
  "broker_handle_event h i d = (case broker_fd (slot i d) of
       None \<Rightarrow> d
     | Some chan \<Rightarrow> (case run (recv_retry chan BROKER_MSG_MAX 4) d of
           (Inl _, d) \<Rightarrow> drop_broker i d
         | (Inr rx, d) \<Rightarrow>
             if rx_bytes rx = [] then drop_broker i d
             else if rx_trunc rx then
               drop_broker i (act (audit_log (mname (slot i d)) ''broker protocol violation (truncated); channel closed'')
                 (act (daemon_log (''broker '' @ mname (slot i d) @ '': oversized or cmsg-truncated; closing channel'')) d))
             else broker_request_in h i chan (rx_bytes rx) (d\<lparr>os := close_all (rx_fds rx) (os d)\<rparr>)))"

end
