(* ===== verification/Control.thy ===== *)
theory Control
  imports BrokerService
begin

text \<open>
  The rest of the supervisor (\<open>src/agentd.c\<close>, lines 771 to 1391): file notifications, the
  control socket with its commands and its token, start-up, and one round of the main loop.

  The kernel's answers that are not functions of the modelled state are parameters: the
  watch number of a path, the credentials of a peer, the events read from the notification
  descriptor, and what \<open>poll\<close> reports for the descriptors it was given.
\<close>

section \<open>Definitions\<close>

subsection \<open>Notifications\<close>

datatype imask = IN_CREATE | IN_MOVED_TO | IN_DELETE | IN_MOVED_FROM | IN_CLOSE_WRITE | IN_DELETE_SELF |
  IN_MOVE_SELF | IN_IGNORED | IN_Q_OVERFLOW

record ievent =
  i_wd :: int
  i_mask :: "imask list"
  i_name :: string

definition any_of :: "imask list \<Rightarrow> ievent \<Rightarrow> bool" where
  "any_of ms ev \<longleftrightarrow> list_ex (\<lambda>m. m \<in> set ms) (i_mask ev)"

definition set_first :: "('a \<Rightarrow> bool) \<Rightarrow> 'a \<Rightarrow> 'a list \<Rightarrow> 'a list" where
  "set_first P x xs = (case dropWhile (\<lambda>y. \<not> P y) xs of
       [] \<Rightarrow> xs | _ # r \<Rightarrow> takeWhile (\<lambda>y. \<not> P y) xs @ x # r)"

definition inotify_add_agent :: "host \<Rightarrow> (string \<Rightarrow> errno + int) \<Rightarrow> string \<Rightarrow> daemon \<Rightarrow> daemon" where
  "inotify_add_agent h add_watch name d =
     (if inotify_fd d = None then d
      else (case run (agent_ensure_layout name) d of
          (Inl _, d) \<Rightarrow> d
        | (Inr _, d) \<Rightarrow> (case agent_config_dir name (os d) of
            Inl _ \<Rightarrow> d
          | Inr path \<Rightarrow>
              if list_ex (\<lambda>(wd, n). wd \<noteq> 0 \<and> n = name) (watches d) then d
              else (case run (call (\<lambda>w. (add_watch path, w))) d of
                  (Inl e, d) \<Rightarrow> act (daemon_log (''inotify add '' @ path @ '': '' @ h_strerror h e)) d
                | (Inr wd, d) \<Rightarrow> d\<lparr>watches := set_first (\<lambda>(v, _). v = 0) (wd, snprintf_trunc MAX_NAME name) (watches d)\<rparr>))))"

definition inotify_lookup_wd :: "int \<Rightarrow> daemon \<Rightarrow> string option" where
  "inotify_lookup_wd wd d = map_option snd (find (\<lambda>(v, _). v = wd) (watches d))"

definition inotify_release_wd :: "int \<Rightarrow> daemon \<Rightarrow> daemon" where
  "inotify_release_wd wd d = d\<lparr>watches := set_first (\<lambda>(v, _). v = wd) (0, []) (watches d)\<rparr>"

definition sys_inotify_init :: "nat io" where
  "sys_inotify_init = call (\<lambda>w. let (n, w) = new_fd (DFile ''inotify'' 0 [O_RDONLY]) w in (Inr n, w))"

definition watch_entry :: "host \<Rightarrow> (string \<Rightarrow> errno + int) \<Rightarrow> string \<Rightarrow> daemon \<Rightarrow> daemon" where
  "watch_entry h aw e d = (if starts_with ''.'' e \<or> \<not> validate_name e then d else inotify_add_agent h aw e d)"

definition inotify_setup_linux :: "host \<Rightarrow> (string \<Rightarrow> errno + int) \<Rightarrow> daemon \<Rightarrow> bool \<times> daemon" where
  "inotify_setup_linux h aw d = (case run sys_inotify_init d of
       (Inl e, d) \<Rightarrow> (False, act (daemon_log (''inotify_init1: '' @ h_strerror h e @ '' (falling back to periodic scan)'')) d)
     | (Inr n, d) \<Rightarrow>
         (let root = agent_root (os d) in
          case run (call (\<lambda>w. (aw root, w))) d of
            (Inl e, d) \<Rightarrow> (False, act (sys_close n)
               (act (daemon_log (''inotify watch '' @ root @ '': '' @ h_strerror h e)) (d\<lparr>root_wd := -1\<rparr>)))
          | (Inr wd, d) \<Rightarrow>
              (let d = d\<lparr>inotify_fd := Some n, root_wd := wd\<rparr>;
                   d = (case run (sys_opendir root) d of (Inl _, d) \<Rightarrow> d | (Inr es, d) \<Rightarrow> fold (watch_entry h aw) es d)
               in (True, act (daemon_log (''inotify active (root_wd='' @ dec_int wd @ '')'')) d))))"

definition release_idle :: "string \<Rightarrow> daemon \<Rightarrow> daemon" where
  "release_idle name d = (case find_by_name name d of
       None \<Rightarrow> d | Some i \<Rightarrow> if mpid (slot i d) \<le> 0 then release_slot i d else d)"

definition inotify_event :: "host \<Rightarrow> (string \<Rightarrow> errno + int) \<Rightarrow> ievent \<Rightarrow> daemon \<Rightarrow> daemon" where
  "inotify_event h aw ev d =
     (if any_of [IN_Q_OVERFLOW] ev then
        scan_disk_agents (reconcile_cb h) (act (daemon_log ''inotify queue overflow; full rescan'') d)
      else if i_wd ev = root_wd d then
        (if i_name ev = [] \<or> \<not> validate_name (i_name ev) then d
         else if any_of [IN_CREATE, IN_MOVED_TO] ev then reconcile_cb h (i_name ev) (inotify_add_agent h aw (i_name ev) d)
         else if any_of [IN_DELETE, IN_MOVED_FROM] ev then release_idle (i_name ev) d
         else d)
      else (case inotify_lookup_wd (i_wd ev) d of
          None \<Rightarrow> d
        | Some name \<Rightarrow>
            if any_of [IN_IGNORED, IN_DELETE_SELF, IN_MOVE_SELF] ev then
              release_idle name (inotify_release_wd (i_wd ev) d)
            else if i_name ev \<in> {''desired_state'', ''enabled'', ''exec''} then reconcile_cb h name d
            else d))"

definition inotify_drain :: "host \<Rightarrow> (string \<Rightarrow> errno + int) \<Rightarrow> ievent list \<Rightarrow> daemon \<Rightarrow> daemon" where
  "inotify_drain h aw evs d = (if inotify_fd d = None then d else fold (inotify_event h aw) evs d)"

subsection \<open>Commands\<close>

definition handle_cmd_start :: "host \<Rightarrow> string \<Rightarrow> daemon \<Rightarrow> string \<times> daemon" where
  "handle_cmd_start h name d =
     (if \<not> validate_name name then (''ERROR invalid name'', d)
      else (case agent_dir name (os d) of
        Inl _ \<Rightarrow> (''ERROR invalid name'', d)
      | Inr dir \<Rightarrow> (case run (sys_stat dir) d of
        (Inl _, d) \<Rightarrow> (''ERROR no such agent'', d)
      | (Inr _, d) \<Rightarrow>
          (let d = act (write_agent_setting name ''desired_state'' ''running'') d;
               (en, d) = run (load_enabled name) d;
               d = (if en then d else act (write_agent_setting name ''enabled'' ''yes'') d)
           in case alloc_slot name d of
                (None, d) \<Rightarrow> (''ERROR slots full'', d)
              | (Some i, d) \<Rightarrow>
                  (let (alive, d) = (if mpid (slot i d) > 0 then run (agent_alive (slot i d)) d else (False, d)) in
                   if alive then (''OK already running pid='' @ dec_int (mpid (slot i d)), d)
                   else (case spawn_agent h i (upd i (\<lambda>m. m\<lparr>consecutive_failures := 0, next_restart_at := 0\<rparr>) d) of
                       (Inl e, d) \<Rightarrow> (''ERROR spawn failed: '' @ h_strerror h e, d)
                     | (Inr _, d) \<Rightarrow> (''OK started pid='' @ dec_int (mpid (slot i d)), d)))))))"

definition handle_cmd_stop :: "host \<Rightarrow> string \<Rightarrow> daemon \<Rightarrow> bool \<times> string \<times> daemon" where
  "handle_cmd_stop h name d =
     (if \<not> validate_name name then (False, ''ERROR invalid name'', d)
      else (case agent_dir name (os d) of
        Inl _ \<Rightarrow> (False, ''ERROR no such agent'', d)
      | Inr dir \<Rightarrow> (case run (sys_access dir []) d of
        (Inl _, d) \<Rightarrow> (False, ''ERROR no such agent'', d)
      | (Inr _, d) \<Rightarrow>
          (let d = act (write_agent_setting name ''desired_state'' ''stopped'') d in
           case find_by_name name d of
             None \<Rightarrow> (True, ''OK no live process'', d)
           | Some i \<Rightarrow> (True, ''OK stopped'', release_slot i (stop_agent h i 2000 d))))))"

definition handle_cmd_restart :: "host \<Rightarrow> string \<Rightarrow> daemon \<Rightarrow> string \<times> daemon" where
  "handle_cmd_restart h name d = (case handle_cmd_stop h name d of
       (False, msg, d) \<Rightarrow> (msg, d) | (True, _, d) \<Rightarrow> handle_cmd_start h name d)"

definition handle_cmd_reload :: "host \<Rightarrow> string \<Rightarrow> daemon \<Rightarrow> string \<times> daemon" where
  "handle_cmd_reload h name d =
     (if \<not> validate_name name then (''ERROR invalid name'', d)
      else (case find_by_name name d of
        None \<Rightarrow> (''ERROR not running'', d)
      | Some i \<Rightarrow> (let m = slot i d in
          if mpid m \<le> 0 then (''ERROR not running'', d)
          else (case run (signal_leader m SIGHUP) d of
              (Inl e, d) \<Rightarrow> (''ERROR signal: '' @ h_strerror h e, d)
            | (Inr _, d) \<Rightarrow> (''OK reloaded'', act (audit_log name ''agentd: SIGHUP sent (reload)'') d)))))"

definition disk_pid :: "string \<Rightarrow> world \<Rightarrow> int \<times> world" where
  "disk_pid name w = (case read_pid_file name w of
       (Inl _, w) \<Rightarrow> (0, w)
     | (Inr pid, w) \<Rightarrow> (let (alive, w) = run_alive pid w in (if alive then pid else 0, w)))"

definition handle_cmd_status :: "string \<Rightarrow> daemon \<Rightarrow> string \<times> daemon" where
  "handle_cmd_status name d =
     (if \<not> validate_name name then (''ERROR invalid name'', d)
      else (let mi = find_by_name name d;
                (pid, d) = run (disk_pid name) d;
                (r, d) = run (read_agent_setting name ''desired_state'' 16) d;
                desired = (case r of Inl _ \<Rightarrow> ''stopped'' | Inr v \<Rightarrow> v);
                restarts = (case mi of None \<Rightarrow> 0 | Some i \<Rightarrow> restart_count (slot i d))
            in (''OK desired='' @ desired @ '' actual='' @ (if pid \<noteq> 0 then ''running'' else ''stopped'') @
                '' pid='' @ dec_int pid @ '' restarts='' @ dec_int restarts, d)))"

definition split_verb :: "string \<Rightarrow> string \<times> string" where
  "split_verb line = (let l = dropWhile is_blank line; v = takeWhile (\<lambda>c. \<not> is_blank c) (take 31 l)
     in (v, dropWhile is_blank (drop (length v) l)))"

definition handle_command :: "host \<Rightarrow> string \<Rightarrow> daemon \<Rightarrow> string \<times> daemon" where
  "handle_command h line d = (case split_verb line of (verb, arg) \<Rightarrow>
     if verb = ''start'' then handle_cmd_start h arg d
     else if verb = ''stop'' then snd (handle_cmd_stop h arg d)
     else if verb = ''restart'' then handle_cmd_restart h arg d
     else if verb = ''reload'' then handle_cmd_reload h arg d
     else if verb = ''status'' then handle_cmd_status arg d
     else if verb = ''shutdown'' then (''OK shutting down'', d\<lparr>shutdown := True\<rparr>)
     else if verb = ''kick'' then
       (''OK kicked'', if arg \<noteq> [] then (if validate_name arg then reconcile_cb h arg d else d)
                      else scan_disk_agents (reconcile_cb h) d)
     else (''ERROR unknown verb '' @ [CHR 0x27] @ verb @ [CHR 0x27], d))"

subsection \<open>One connection\<close>

lemma sock_read_intr: "(Inl EINTR, w') = sys_sock_read fd n w \<Longrightarrow> length (sched w') < length (sched w)"
  unfolding sys_sock_read_def by (erule call_intr) (auto split: option.splits desc.splits list.splits)

lemma sock_read_sched: "(Inr bs, w') = sys_sock_read fd n w \<Longrightarrow> length (sched w') \<le> length (sched w)"
  unfolding sys_sock_read_def
  by (drule sym, erule call_cases) (auto split: option.splits desc.splits list.splits if_splits)

text \<open>The bytes up to the first newline, the end, an error, or a full buffer.\<close>

function read_command :: "nat \<Rightarrow> string \<Rightarrow> world \<Rightarrow> string \<times> world" where
  "read_command fd line w =
     (if length line + 1 \<ge> 1024 then (line, w)
      else (case sys_sock_read fd (1023 - length line) w of
          (Inl e, w') \<Rightarrow> if e = EINTR then read_command fd line w' else (line, w')
        | (Inr bs, w') \<Rightarrow>
            if bs = [] then (line, w')
            else if NL \<in> set (line @ bs) then (line @ bs, w')
            else read_command fd (line @ bs) w'))"
  by pat_completeness auto
termination
proof (relation "measure (\<lambda>(fd, line, w). (1024 - length line) + length (sched w))", goal_cases)
  case (2 fd line w x w' e)
  then show ?case using sock_read_intr [of w' fd "1023 - length line" w] by auto
next
  case (3 fd line w x w' bs)
  then have "length (sched w') \<le> length (sched w)" "0 < length bs"
    using sock_read_sched [of bs w' fd "1023 - length line" w] by auto
  then show ?case using 3(1) by (cases bs) auto
qed simp

declare read_command.simps [simp del]

definition command_line :: "string \<Rightarrow> string" where
  "command_line b = takeWhile (\<lambda>c. c \<noteq> NL) (cstr b)"

definition token_value :: "string \<Rightarrow> string" where
  "token_value b = takeWhile (\<lambda>c. c \<noteq> CR \<and> c \<noteq> NL) (cstr b)"

text \<open>The command of an authenticated line.\<close>

definition authenticate :: "string \<Rightarrow> string \<Rightarrow> string option" where
  "authenticate expected line = (if \<not> starts_with ''AUTH '' line then None
     else (case split_at SP (drop 5 line) of
         (_, None) \<Rightarrow> None
       | (presented, Some rest) \<Rightarrow> if presented = expected then Some rest else None))"

definition reply_line :: "string \<Rightarrow> string" where
  "reply_line resp = (let r = snprintf_trunc 512 resp in if length r < 511 then r @ [NL] else r)"

definition answer :: "nat \<Rightarrow> string \<Rightarrow> daemon \<Rightarrow> daemon" where
  "answer fd resp d = act (sys_close fd) (act (send_retry fd (reply_line resp) []) d)"

definition serve_command :: "host \<Rightarrow> peer_id \<Rightarrow> nat \<Rightarrow> string \<Rightarrow> daemon \<Rightarrow> daemon" where
  "serve_command h peer fd command d =
     (if starts_with ''issue '' command then
        (let target = drop 6 command in
         if \<not> validate_name target then answer fd ''ERROR no-listener'' d
         else (case issue_mailbox_channel ''operator'' (peer_pid peer) (peer_uid peer) target d of
             (Issued capfd, d) \<Rightarrow> act (sys_close fd) (act (sys_close capfd)
               (act (broker_reply fd (''OK issued'' @ [NL]) (Some capfd)) d))
           | (_, d) \<Rightarrow> answer fd ''ERROR no-listener'' d))
      else (let (resp, d) = handle_command h command d in answer fd resp d))"

definition serve_line :: "host \<Rightarrow> peer_id \<Rightarrow> nat \<Rightarrow> string \<Rightarrow> daemon \<Rightarrow> daemon" where
  "serve_line h peer fd line d = (case run (read_small_file (agentd_token_path (os d)) 129) d of
       (Inl _, d) \<Rightarrow> answer fd ''ERROR control authentication unavailable'' d
     | (Inr b, d) \<Rightarrow> (case authenticate (token_value b) line of
           None \<Rightarrow> answer fd ''ERROR unauthorized'' d
         | Some command \<Rightarrow> serve_command h peer fd command d))"

definition serve_one_connection :: "host \<Rightarrow> (nat \<Rightarrow> errno + int \<times> nat \<times> nat) \<Rightarrow> nat \<Rightarrow> daemon \<Rightarrow> daemon" where
  "serve_one_connection h cred srv d = (case run (sys_accept srv) d of
       (Inl _, d) \<Rightarrow> d
     | (Inr fd, d) \<Rightarrow>
         (let d = d\<lparr>os := set_cloexec fd (os d)\<rparr>;
              ((r, peer), d) = run (get_peer_creds cred fd) d
          in if r = Inr () \<and> peer_uid peer \<noteq> 0 \<and> peer_uid peer \<noteq> euid (os d) then
               act (sys_close fd) (act (sys_sendmsg fd (''ERROR forbidden uid'' @ [NL]) []) d)
             else (let (b, d) = run (read_command fd []) d in
               if b = [] then act (sys_close fd) d
               else serve_line h peer fd (command_line b) d)))"

subsection \<open>Start and main loop\<close>

datatype daemon_signal = SigChld | SigTerm

text \<open>The byte a handler writes to the self-pipe only wakes \<open>poll\<close>, whose answers are a parameter.\<close>

definition on_signal :: "daemon_signal \<Rightarrow> daemon \<Rightarrow> daemon" where
  "on_signal s d = (if s = SigChld then d\<lparr>sigchld := True\<rparr> else d\<lparr>shutdown := True\<rparr>)"

definition sys_pipe :: "(nat \<times> nat) io" where
  "sys_pipe = call (\<lambda>w. let (a, w) = new_fd (DFile ''pipe'' 0 [O_RDONLY]) w; (b, w) = new_fd (DFile ''pipe'' 0 [O_WRONLY]) w
     in (Inr (a, b), w))"

definition setup_signals :: "(nat \<times> nat) io" where
  "setup_signals w = (case sys_pipe w of
       (Inl e, w) \<Rightarrow> (Inl e, w) | (Inr (a, b), w) \<Rightarrow> (Inr (a, b), set_cloexec b w))"

definition SUN_PATH_MAX :: nat where "SUN_PATH_MAX = 108"

definition bind_fresh :: "nat \<Rightarrow> string \<Rightarrow> unit io" where
  "bind_fresh fd p w = (case sys_bind fd p w of
       (Inr _, w) \<Rightarrow> (Inr (), w)
     | (Inl e, w) \<Rightarrow> if e = EADDRINUSE then sys_bind fd p (snd (sys_unlink p w)) else (Inl e, w))"

definition bind_control_socket :: "nat io" where
  "bind_control_socket w = (case sys_socket w of
       (Inl e, w) \<Rightarrow> (Inl e, w)
     | (Inr fd, w) \<Rightarrow>
         (let w = set_cloexec fd w; p = agentd_sock_path w; fail = (\<lambda>e w. (Inl e, snd (sys_close fd w))) in
          if length p \<ge> SUN_PATH_MAX then fail ENAMETOOLONG w
          else (case bind_fresh fd p w of
              (Inl e, w) \<Rightarrow> fail e w
            | (Inr _, w) \<Rightarrow> (case sys_listen fd (snd (sys_chmod p 384 w)) of
                (Inl e, w) \<Rightarrow> fail e w
              | (Inr _, w) \<Rightarrow> (Inr fd, w)))))"

definition write_pid_file :: "unit io" where
  "write_pid_file w = atomic_write_file (agentd_pid_path w) (dec_nat (self_pid w) @ [NL]) 384 w"

definition new_token :: "string \<Rightarrow> unit io" where
  "new_token path w = (case sys_open ''/dev/urandom'' [O_RDONLY, O_CLOEXEC] 0 w of
       (Inl e, w) \<Rightarrow> (Inl e, w)
     | (Inr fd, w) \<Rightarrow>
         (let (r, w) = read_all fd 32 w; w = snd (sys_close fd w) in
          case r of
            Inl e \<Rightarrow> (Inl e, w)
          | Inr bs \<Rightarrow> if length bs \<noteq> 32 then (Inl EIO, w)
                     else atomic_write_file path (hex_bytes bs @ [NL]) 384 w))"

definition ensure_control_token :: "unit io" where
  "ensure_control_token w = (let path = agentd_token_path w in
     case sys_lstat path w of
       (Inr i, w) \<Rightarrow>
         if \<not> (case kind i of Reg _ \<Rightarrow> True | _ \<Rightarrow> False) \<or> iuid i \<noteq> euid w \<or> imode i mod 64 \<noteq> 0
         then (Inl EACCES, w) else (Inr (), w)
     | (Inl e, w) \<Rightarrow> if e \<noteq> ENOENT then (Inl e, w) else new_token path w)"

definition agentd_start :: "host \<Rightarrow> (string \<Rightarrow> errno + int) \<Rightarrow> daemon \<Rightarrow> (nat \<times> nat \<times> bool) option \<times> daemon" where
  "agentd_start h aw d =
     (if refuse_root (h_getenv h) (os d) then (None, d)
      else (case run agentctl_root_lock d of
        (Inl _, d) \<Rightarrow> (None, d)
      | (Inr _, d) \<Rightarrow> (case run ensure_control_token d of
        (Inl _, d) \<Rightarrow> (None, d)
      | (Inr _, d) \<Rightarrow> (case run setup_signals d of
        (Inl _, d) \<Rightarrow> (None, d)
      | (Inr (sp, _), d) \<Rightarrow> (case run bind_control_socket d of
        (Inl _, d) \<Rightarrow> (None, d)
      | (Inr srv, d) \<Rightarrow>
          (let d = act write_pid_file d;
               d = act (daemon_log (''agentd started pid='' @ dec_nat (self_pid (os d)))) d;
               d = act (ensure_dir (agent_root (os d)) 448) d;
               (ok, d) = inotify_setup_linux h aw d
           in (Some (srv, sp, ok), scan_disk_agents (recover_cb h) d)))))))"

text \<open>
  What \<open>poll\<close> answers for a timeout and a list of descriptors: an error, or whether it timed
  out and which descriptors are readable or hung up.
\<close>

record poll_answer =
  timed_out :: bool
  readable :: "nat list"
  hung_up :: "nat list"

record round =
  r_poll :: "int \<Rightarrow> nat list \<Rightarrow> errno + poll_answer"
  r_events :: "ievent list"
  r_cred :: "nat \<Rightarrow> errno + int \<times> nat \<times> nat"
  r_watch :: "string \<Rightarrow> errno + int"

definition some_fds :: "nat option list \<Rightarrow> nat list" where
  "some_fds xs = List.map_filter id xs"

definition polled :: "(managed \<Rightarrow> nat option) \<Rightarrow> daemon \<Rightarrow> nat option list" where
  "polled f d = map (\<lambda>m. if used m then f m else None) (slots d)"

definition pidfd_event :: "nat \<Rightarrow> daemon \<Rightarrow> daemon" where
  "pidfd_event i d = (let m = slot i d in
     if pidfd m = None \<or> \<not> external m then d
     else (let d = act (audit_log (mname m) (''agentd: external pid '' @ dec_int (mpid m) @ '' exited (pidfd)'')) d;
               d = act (daemon_log (''external '' @ mname m @ '' pid='' @ dec_int (mpid m) @ '' exited'')) d;
               d = act (write_status (mname m) ''stopped'') d
           in upd i (\<lambda>m. m\<lparr>external := False\<rparr>) (clear_runtime_state i d)))"

definition poll_timeout :: "bool \<Rightarrow> daemon \<Rightarrow> int" where
  "poll_timeout inotify_ok d = scheduled_restart_timeout_ms
     ((if inotify_ok then INOTIFY_SAFETY_SEC else RECONCILE_INTERVAL_SEC) * 1000) d"

definition each_ready :: "(nat \<Rightarrow> bool) \<Rightarrow> nat option list \<Rightarrow> (nat \<Rightarrow> daemon \<Rightarrow> daemon) \<Rightarrow> daemon \<Rightarrow> daemon" where
  "each_ready ready idx f d = fold (\<lambda>i. case idx ! i of None \<Rightarrow> id | Some n \<Rightarrow> if ready n then f i else id) [0..<length idx] d"

definition serve_ready :: "host \<Rightarrow> round \<Rightarrow> nat \<Rightarrow> bool \<Rightarrow> poll_answer \<Rightarrow> daemon \<Rightarrow> daemon" where
  "serve_ready h r srv inotify_ok a d =
     (let d = (if sigchld d then reap_zombies (d\<lparr>sigchld := False\<rparr>) else d);
          d = (if srv \<in> set (readable a) then serve_one_connection h (r_cred r) srv d else d)
      in if inotify_ok \<and> (case inotify_fd d of None \<Rightarrow> False | Some n \<Rightarrow> n \<in> set (readable a))
         then inotify_drain h (r_watch r) (r_events r) d else d)"

text \<open>One round, and whether the loop goes on after it: not when \<open>poll\<close> fails for good.\<close>

definition main_round :: "host \<Rightarrow> round \<Rightarrow> nat \<Rightarrow> nat \<Rightarrow> bool \<Rightarrow> daemon \<Rightarrow> bool \<times> daemon" where
  "main_round h r srv sp inotify_ok d =
     (let pidx = polled pidfd d; bidx = polled broker_fd d;
          fds = [srv, sp] @ (if inotify_ok then some_fds [inotify_fd d] else []) @ some_fds pidx @ some_fds bidx
      in case r_poll r (poll_timeout inotify_ok d) fds of
           Inl e \<Rightarrow> if e = EINTR then (True, d) else (False, act (daemon_log (''poll: '' @ h_strerror h e)) d)
         | Inr a \<Rightarrow>
             (let d = (if sp \<in> set (readable a) then act (sys_read sp 64) d else d);
                  d = serve_ready h r srv inotify_ok a d;
                  d = each_ready (\<lambda>n. n \<in> set (readable a)) pidx pidfd_event d;
                  d = each_ready (\<lambda>n. n \<in> set (readable a) \<or> n \<in> set (hung_up a)) bidx (broker_handle_event h) d
              in (True, if \<not> inotify_ok \<or> timed_out a \<or> scheduled_restart_due d
                        then scan_disk_agents (reconcile_cb h) d else d)))"

fun main_loop :: "host \<Rightarrow> round list \<Rightarrow> nat \<Rightarrow> nat \<Rightarrow> bool \<Rightarrow> daemon \<Rightarrow> daemon" where
  "main_loop h [] srv sp ok d = d"
| "main_loop h (r # rs) srv sp ok d = (if shutdown d then d
     else (case main_round h r srv sp ok d of (False, d) \<Rightarrow> d | (True, d) \<Rightarrow> main_loop h rs srv sp ok d))"

definition agentd_stop :: "nat \<Rightarrow> daemon \<Rightarrow> daemon" where
  "agentd_stop srv d =
     (let d = act (daemon_log ''agentd shutting down'') d;
          d = d\<lparr>os := close_opt (inotify_fd d) (os d)\<rparr>;
          d = act (sys_close srv) d;
          d = act (sys_unlink (agentd_sock_path (os d))) d
      in act (sys_unlink (agentd_pid_path (os d))) d)"

end
