(* ===== verification/Fleet.thy ===== *)
theory Fleet
  imports Control
begin

text \<open>
  The table of managed agents under every event the supervisor handles.
\<close>

named_theorems tab_intros \<open>operations that keep the slot table consistent\<close>

definition table_ok :: "managed list \<Rightarrow> bool" where
  "table_ok ms \<longleftrightarrow> length ms = MAX_MANAGED \<and>
     (\<forall>i j. i < length ms \<longrightarrow> j < length ms \<longrightarrow> i \<noteq> j \<longrightarrow> used (ms ! i) \<longrightarrow> used (ms ! j) \<longrightarrow>
        mname (ms ! i) = mname (ms ! j) \<longrightarrow> MAX_NAME - 1 \<le> length (mname (ms ! i)))"

definition tab :: "daemon \<Rightarrow> bool" where
  "tab d \<longleftrightarrow> table_ok (slots d)"

lemma tab_os [tab_intros]: "tab d \<Longrightarrow> tab (d\<lparr>os := w\<rparr>)"
  and tab_flags [tab_intros]: "tab d \<Longrightarrow> tab (d\<lparr>shutdown := b\<rparr>)" "tab d \<Longrightarrow> tab (d\<lparr>sigchld := b\<rparr>)"
    "tab d \<Longrightarrow> tab (d\<lparr>watches := ws\<rparr>)" "tab d \<Longrightarrow> tab (d\<lparr>root_wd := x\<rparr>)" "tab d \<Longrightarrow> tab (d\<lparr>inotify_fd := y\<rparr>)"
    "tab d \<Longrightarrow> tab (d\<lparr>inotify_fd := y, root_wd := x\<rparr>)"
  by (simp_all add: tab_def)

lemma tab_act [tab_intros]: "tab d \<Longrightarrow> tab (act f d)"
  by (simp add: tab_def)

lemma tab_run: "run f d = (r, d') \<Longrightarrow> tab d \<Longrightarrow> tab d'"
  by (auto simp: run_eq tab_act)

text \<open>An update that does not rename a slot and does not bring one into use.\<close>

definition keeps_name :: "(managed \<Rightarrow> managed) \<Rightarrow> bool" where
  "keeps_name f \<longleftrightarrow> (\<forall>m. used (f m) \<longrightarrow> used m \<and> mname (f m) = mname m)"

lemma tab_upd [tab_intros]: "keeps_name f \<Longrightarrow> tab d \<Longrightarrow> tab (upd i f d)"
proof -
  assume f: "keeps_name f" and d: "tab d"
  let ?ms = "(slots d)[i := f (slots d ! i)]"
  have old: "used (slots d ! k) \<and> mname (?ms ! k) = mname (slots d ! k)" if "k < length (slots d)" "used (?ms ! k)" for k
    using f that by (cases "k = i") (auto simp: keeps_name_def)
  show ?thesis
    unfolding tab_def table_ok_def upd_fields
  proof (intro conjI allI impI)
    fix k j
    assume "k < length ?ms" "j < length ?ms" "k \<noteq> j" "used (?ms ! k)" "used (?ms ! j)" "mname (?ms ! k) = mname (?ms ! j)"
    then show "MAX_NAME - 1 \<le> length (mname (?ms ! k))"
      using old [of k] old [of j] d unfolding tab_def table_ok_def by (metis length_list_update)
  qed (use d in \<open>simp add: tab_def table_ok_def\<close>)
qed

lemma find_slot_Some: "find_slot P ms = Some i \<Longrightarrow> i < length ms \<and> P (ms ! i)"
  by (auto simp: find_slot_def find_Some_iff)

lemma find_slot_None: "find_slot P ms = None \<Longrightarrow> i < length ms \<Longrightarrow> \<not> P (ms ! i)"
  by (auto simp: find_slot_def find_None_iff)

lemma tab_alloc [tab_intros]:
  assumes "tab d"
  shows "tab (snd (alloc_slot name d))"
proof (cases "find_by_name name d")
  case None
  show ?thesis
  proof (cases "find_slot (\<lambda>m. \<not> used m) (slots d)")
    case (Some k)
    let ?n = "snprintf_trunc MAX_NAME name"
    have k: "k < length (slots d)" "\<not> used (slots d ! k)" using find_slot_Some [OF Some] by auto
    have fresh: "mname (slots d ! j) \<noteq> name" if "j < length (slots d)" "used (slots d ! j)" for j
      using find_slot_None [OF None [unfolded find_by_name_def] that(1)] that(2) by blast
    have long: "MAX_NAME - 1 \<le> length ?n" if "j < length (slots d)" "used (slots d ! j)" "mname (slots d ! j) = ?n" for j
      using fresh [OF that(1,2)] that(3) by (auto simp: snprintf_trunc_def MAX_NAME_def split: if_splits)
    show ?thesis using assms None Some k long
      by (auto simp: alloc_slot_def tab_def table_ok_def nth_list_update)
  qed (use assms None in \<open>simp add: alloc_slot_def\<close>)
qed (use assms in \<open>simp add: alloc_slot_def\<close>)

lemma tab_clear [tab_intros]: "tab d \<Longrightarrow> tab (clear_runtime_state i d)"
  unfolding clear_runtime_state_def by (intro tab_intros) (simp_all add: keeps_name_def)

lemma tab_release [tab_intros]: "tab d \<Longrightarrow> tab (release_slot i d)"
  unfolding release_slot_def by (intro tab_intros) (simp_all add: keeps_name_def free_slot_def)

lemma tab_pair: "tab d \<Longrightarrow> tab (snd (r, d))"
  by simp

lemma tab_case: "tab (snd x) \<Longrightarrow> (\<And>r d. x = (r, d) \<Longrightarrow> tab d \<Longrightarrow> P (g r d)) \<Longrightarrow> P (case x of (r, d) \<Rightarrow> g r d)"
  by (cases x) simp

lemma tab_run_snd [tab_intros]: "tab d \<Longrightarrow> tab (snd (run f d))"
  by (simp add: run_eq tab_act)

lemma tab_if [tab_intros]: "(c \<Longrightarrow> tab x) \<Longrightarrow> (\<not> c \<Longrightarrow> tab y) \<Longrightarrow> tab (if c then x else y)"
  by simp

lemma tab_snd_if [tab_intros]: "(c \<Longrightarrow> tab (snd x)) \<Longrightarrow> (\<not> c \<Longrightarrow> tab (snd y)) \<Longrightarrow> tab (snd (if c then x else y))"
  by simp

lemma tab_fold [tab_intros]: "(\<And>x d. tab d \<Longrightarrow> tab (f x d)) \<Longrightarrow> tab d \<Longrightarrow> tab (fold f xs d)"
  by (induction xs arbitrary: d) auto

lemma keeps_name_simps [simp]:
  "keeps_name (\<lambda>m. m\<lparr>mpid := a, external := b, last_started_at := c, next_restart_at := e\<rparr>)"
  "keeps_name (\<lambda>m. m\<lparr>pidfd := p, broker_fd := q, inbox_fd := r\<rparr>)"
  "keeps_name (\<lambda>m. m\<lparr>next_restart_at := e\<rparr>)" "keeps_name (\<lambda>m. m\<lparr>external := b\<rparr>)" "keeps_name (\<lambda>m. m\<lparr>pidfd := p\<rparr>)"
  "keeps_name (\<lambda>m. m\<lparr>broker_fd := q\<rparr>)" "keeps_name (\<lambda>m. m\<lparr>mpid := a, external := b\<rparr>)"
  "keeps_name (\<lambda>m. m\<lparr>restart_count := k\<rparr>)" "keeps_name (\<lambda>m. m\<lparr>consecutive_failures := k, next_restart_at := e\<rparr>)"
  "keeps_name (count_failure u)"
  by (simp_all add: keeps_name_def count_failure_def)

section \<open>Starting, stopping, reaping\<close>

lemma tab_spawn_agent [tab_intros]: "tab d \<Longrightarrow> tab (snd (spawn_agent h i d))"
  unfolding spawn_agent_def adopt_spawned_def Let_def run_eq
  by (auto intro!: tab_intros split: sum.splits prod.splits)

lemma tab_restart_decision [tab_intros]: "tab d \<Longrightarrow> tab (restart_decision i st t u d)"
  unfolding restart_decision_def suppress_restart_def schedule_restart_def no_restart_def persist_restart_count_def Let_def run_eq
  by (auto intro!: tab_intros)

lemma tab_reap_exit [tab_intros]: "tab d \<Longrightarrow> tab (reap_exit i st d)"
  unfolding reap_exit_def Let_def run_eq by (auto intro!: tab_intros)

lemma tab_reap_zombies [tab_intros]: "tab d \<Longrightarrow> tab (reap_zombies d)"
proof (induction d rule: reap_zombies.induct)
  case (1 d)
  obtain r w where r: "sys_waitpid (os d) = (r, w)" by fastforce
  have w: "tab (d\<lparr>os := w\<rparr>)" by (rule tab_os [OF 1(2)])
  show ?case
  proof (cases "\<exists>pid st. r = Inr (Some (pid, st))")
    case True
    then obtain pid st where p: "r = Inr (Some (pid, st))" by blast
    let ?d = "case find_by_pid pid (d\<lparr>os := w\<rparr>) of None \<Rightarrow> d\<lparr>os := w\<rparr> | Some i \<Rightarrow> reap_exit i st (d\<lparr>os := w\<rparr>)"
    have "tab ?d" using tab_reap_exit [OF w] w by (auto split: option.splits)
    with 1(1) r p have "tab (reap_zombies ?d)" by auto
    then show ?thesis using r p by (subst reap_zombies.simps) (simp add: Let_def)
  next
    case False
    then show ?thesis using r w by (subst reap_zombies.simps) (auto split: sum.splits option.splits)
  qed
qed

lemma tab_stop_wait [tab_intros]: "tab d \<Longrightarrow> tab (snd (stop_wait k i d))"
proof (induction k arbitrary: d)
  case (Suc k)
  let ?d = "act (agent_alive (slot i (reap_zombies d))) (reap_zombies d)"
  have "tab ?d" using Suc.prems by (intro tab_intros)
  then show ?case
    using Suc.IH [OF tab_os] tab_clear by (simp add: Let_def run_eq)
qed simp

lemma tab_send_term [tab_intros]: "tab d \<Longrightarrow> tab (send_term h i d)"
  unfolding send_term_def report_signal_def Let_def run_eq by (auto intro!: tab_intros split: sum.splits)

lemma tab_escalate [tab_intros]: "tab d \<Longrightarrow> tab (escalate h i t d)"
  unfolding escalate_def Let_def run_eq by (auto intro!: tab_intros)

lemma tab_stop_agent [tab_intros]:
  assumes "tab d"
  shows "tab (stop_agent h i t d)"
proof -
  let ?d = "act (agent_alive (slot i d)) d"
  obtain b d1 where s: "stop_wait (stop_rounds t) i (send_term h i ?d) = (b, d1)" by fastforce
  have "tab d1" using tab_stop_wait [OF tab_send_term [OF tab_act [OF assms]], of "stop_rounds t" i h i] s by (metis snd_conv)
  then show ?thesis
    using assms s by (auto simp: stop_agent_def run_eq Let_def intro!: tab_intros split: bool.splits)
qed

lemma tab_scan [tab_intros]: "tab d \<Longrightarrow> (\<And>n d. tab d \<Longrightarrow> tab (cb n d)) \<Longrightarrow> tab (scan_disk_agents cb d)"
proof -
  assume d: "tab d" and cb: "\<And>n d. tab d \<Longrightarrow> tab (cb n d)"
  have "tab (scan_entry cb e d)" if "tab d" for e d
    using cb [OF tab_act [OF that]] that by (auto simp: scan_entry_def run_eq Let_def intro!: tab_intros split: sum.splits)
  then have "tab (fold (scan_entry cb) es d)" if "tab d" for es d
    using that by (intro tab_fold)
  then show ?thesis using d tab_act by (auto simp: scan_disk_agents_def run_eq split: sum.splits)
qed

lemma tab_alloc_cases:
  assumes "tab d" "\<And>d. tab d \<Longrightarrow> tab (f d)" "\<And>i d. tab d \<Longrightarrow> tab (g i d)"
  shows "tab (case alloc_slot n d of (None, d) \<Rightarrow> f d | (Some i, d) \<Rightarrow> g i d)"
  using tab_alloc [OF assms(1), of n] assms(2,3) by (auto split: prod.splits option.splits)

lemma tab_recover [tab_intros]: "tab d \<Longrightarrow> tab (recover_cb h n d)"
proof -
  assume d: "tab d"
  have a: "tab (adopt_external i n pid d)" if "tab d" for i pid d
    using that unfolding adopt_external_def read_restart_count_def Let_def run_eq
    by (auto intro!: tab_intros split: sum.splits)
  have s: "tab (case spawn_agent h i d of (Inl _, d) \<Rightarrow> release_slot i d | (Inr _, d) \<Rightarrow> d)" if "tab d" for i d
    using tab_spawn_agent [OF that, of h i] by (auto split: prod.splits sum.splits intro!: tab_intros)
  have r: "tab (start_recovered h n d)" if "tab d" for d
    using that unfolding start_recovered_def Let_def run_eq
    by (auto intro!: tab_intros tab_alloc_cases s)
  have p: "tab (drop_stale_pid n d)" if "tab d" for d
    using that unfolding drop_stale_pid_def run_eq by (auto intro!: tab_intros split: sum.splits)
  show ?thesis
    using d unfolding recover_cb_def Let_def run_eq
    by (auto intro!: tab_alloc_cases a r p tab_act split: sum.splits)
qed

lemma tab_drop_gone [tab_intros]: "tab d \<Longrightarrow> tab (drop_gone_external i n d)"
  unfolding drop_gone_external_def Let_def run_eq by (auto intro!: tab_intros)

lemma tab_slot_alive [tab_intros]: "tab d \<Longrightarrow> tab (snd (slot_alive mi d))"
  unfolding slot_alive_def run_eq by (auto intro!: tab_intros split: option.splits)

lemma tab_reconcile_start [tab_intros]: "tab d \<Longrightarrow> tab (reconcile_start h i n d)"
proof -
  assume "tab d"
  then have "tab (snd (spawn_agent h i (act (audit_log n ''agentd: reconcile -> start'') d)))" by (intro tab_intros)
  with \<open>tab d\<close> show ?thesis
    unfolding reconcile_start_def Let_def by (auto intro!: tab_intros split: prod.splits sum.splits)
qed

lemma tab_reconcile [tab_intros]:
  assumes "tab d"
  shows "tab (reconcile_cb h n d)"
proof -
  define d1 where "d1 = act (load_desired_running n) (act (load_enabled n) d)"
  define mi where "mi = find_by_name n d1"
  define d2 where "d2 = (case mi of None \<Rightarrow> d1 | Some i \<Rightarrow> drop_gone_external i n d1)"
  obtain al d3 where a: "slot_alive mi d2 = (al, d3)" by fastforce
  have "tab d2" using assms by (auto simp: d2_def d1_def intro!: tab_intros split: option.splits)
  then have d3: "tab d3" using tab_slot_alive [of d2 mi] a by simp
  have "tab (snd (alloc_slot n d3))" by (rule tab_alloc [OF d3])
  then show ?thesis
    using d3 a unfolding reconcile_cb_def run_eq Let_def prod.case d1_def [symmetric] mi_def [symmetric] d2_def [symmetric]
    by (auto intro!: tab_intros split: option.splits prod.splits)
qed

section \<open>Broker, notifications, control\<close>

lemma tab_broker_event [tab_intros]:
  assumes "tab d"
  shows "tab (broker_handle_event h i d)"
proof -
  have iss: "tab (snd (issue_mailbox_channel a b c t d))" if "tab d" for a b c t d
    using that unfolding issue_mailbox_channel_def Let_def run_eq by (auto intro!: tab_intros split: option.splits)
  have ho: "tab (hand_out h c n cp t f d)" if "tab d" for c n cp t f d
    using that unfolding hand_out_def Let_def run_eq by (auto intro!: tab_intros split: sum.splits)
  have de: "tab (broker_denied c n cp r d)" if "tab d" for c n cp r d
    using that unfolding broker_denied_def Let_def by (intro tab_intros)
  have di: "tab (broker_dispatch h i c cp d)" if "tab d" for i c cp d
    using iss [OF that] de that unfolding broker_dispatch_def Let_def
    by (auto intro!: ho de split: prod.splits issue.splits) (metis snd_conv)+
  have rq: "tab (broker_request_in h i c b d)" if "tab d" for c b d
    using that unfolding broker_request_in_def Let_def run_eq
    by (auto intro!: di de tab_intros split: option.splits)
  have db: "tab (drop_broker i d)" if "tab d" for d
    using that unfolding drop_broker_def by (auto intro!: tab_intros)
  show ?thesis
    using assms unfolding broker_handle_event_def run_eq
    by (auto intro!: db rq tab_intros split: option.splits sum.splits)
qed

lemma tab_add_agent [tab_intros]: "tab d \<Longrightarrow> tab (inotify_add_agent h aw n d)"
  unfolding inotify_add_agent_def run_eq by (auto intro!: tab_intros split: sum.splits)

lemma tab_release_idle [tab_intros]: "tab d \<Longrightarrow> tab (release_idle n d)"
  unfolding release_idle_def by (auto intro!: tab_intros split: option.splits)

lemma tab_inotify_event [tab_intros]: "tab d \<Longrightarrow> tab (inotify_event h aw ev d)"
  unfolding inotify_event_def inotify_release_wd_def by (auto intro!: tab_intros split: option.splits)

lemma tab_inotify_drain [tab_intros]: "tab d \<Longrightarrow> tab (inotify_drain h aw evs d)"
  unfolding inotify_drain_def by (auto intro!: tab_intros)

lemma tab_inotify_setup [tab_intros]: "tab d \<Longrightarrow> tab (snd (inotify_setup_linux h aw d))"
  unfolding inotify_setup_linux_def watch_entry_def Let_def run_eq
  by (auto intro!: tab_intros split: sum.splits)

lemma tab_cmd_start [tab_intros]:
  assumes "tab d"
  shows "tab (snd (handle_cmd_start h n d))"
proof -
  have sp: "tab (snd (case spawn_agent h i d of (Inl e, d) \<Rightarrow> (f e d, d) | (Inr _, d) \<Rightarrow> (g d, d)))" if "tab d" for i d f g
    using tab_spawn_agent [OF that, of h i] by (auto split: prod.splits sum.splits)
  have al: "tab (snd (case alloc_slot n d of (None, d) \<Rightarrow> (x, d) | (Some i, d) \<Rightarrow> k i d))"
    if "tab d" "\<And>i d. tab d \<Longrightarrow> tab (snd (k i d))" for d x k
    using tab_alloc [OF that(1), of n] that(2) by (auto split: prod.splits option.splits)
  show ?thesis
    using assms unfolding handle_cmd_start_def Let_def run_eq
    by (auto intro!: al sp tab_intros split: sum.splits)
qed

lemma tab_cmd_stop [tab_intros]: "tab d \<Longrightarrow> tab (snd (snd (handle_cmd_stop h n d)))"
  unfolding handle_cmd_stop_def Let_def run_eq by (auto intro!: tab_intros split: sum.splits option.splits)

lemma tab_cmd_restart [tab_intros]: "tab d \<Longrightarrow> tab (snd (handle_cmd_restart h n d))"
  using tab_cmd_stop [of d h n] unfolding handle_cmd_restart_def
  by (auto intro!: tab_intros split: prod.splits bool.splits)

lemma tab_cmd_reload [tab_intros]: "tab d \<Longrightarrow> tab (snd (handle_cmd_reload h n d))"
  unfolding handle_cmd_reload_def Let_def run_eq by (auto intro!: tab_intros split: sum.splits option.splits)

lemma tab_cmd_status [tab_intros]: "tab d \<Longrightarrow> tab (snd (handle_cmd_status n d))"
  unfolding handle_cmd_status_def Let_def run_eq by (auto intro!: tab_intros)

lemma tab_command [tab_intros]: "tab d \<Longrightarrow> tab (snd (handle_command h l d))"
  unfolding handle_command_def by (auto intro!: tab_intros split: prod.splits)

lemma tab_issue [tab_intros]: "tab d \<Longrightarrow> tab (snd (issue_mailbox_channel a b c t d))"
  unfolding issue_mailbox_channel_def Let_def run_eq by (auto intro!: tab_intros split: option.splits)

lemma tab_answer [tab_intros]: "tab d \<Longrightarrow> tab (answer fd r d)"
  unfolding answer_def by (intro tab_intros)

lemma tab_serve [tab_intros]:
  assumes "tab d"
  shows "tab (serve_one_connection h cred srv d)"
proof -
  have c: "tab (serve_command h p fd l d)" if "tab d" for p fd l d
    using tab_issue [OF that] tab_command [OF that] that unfolding serve_command_def Let_def
    by (auto intro!: tab_intros split: prod.splits issue.splits) (metis snd_conv)+
  have l: "tab (serve_line h p fd l d)" if "tab d" for p fd l d
    using that unfolding serve_line_def run_eq by (auto intro!: c tab_intros split: sum.splits option.splits)
  show ?thesis
    using assms unfolding serve_one_connection_def Let_def run_eq
    by (auto intro!: l tab_intros split: sum.splits prod.splits)
qed

lemma tab_each_ready [tab_intros]: "tab d \<Longrightarrow> (\<And>i d. tab d \<Longrightarrow> tab (f i d)) \<Longrightarrow> tab (each_ready rd idx f d)"
  unfolding each_ready_def by (rule tab_fold) (auto split: option.splits)

lemma tab_pidfd_event [tab_intros]: "tab d \<Longrightarrow> tab (pidfd_event i d)"
  unfolding pidfd_event_def Let_def by (auto intro!: tab_intros)

lemma tab_serve_ready [tab_intros]: "tab d \<Longrightarrow> tab (serve_ready h r srv ok a d)"
  unfolding serve_ready_def Let_def by (auto intro!: tab_intros)

lemma tab_main_round: "tab d \<Longrightarrow> tab (snd (main_round h r srv sp ok d))"
  unfolding main_round_def Let_def by (auto intro!: tab_intros split: sum.splits if_splits)

section \<open>The daemon as a state machine\<close>

datatype daemon_event = Round round | Signal daemon_signal

fun daemon_step :: "host \<Rightarrow> nat \<times> nat \<times> bool \<Rightarrow> daemon_event \<Rightarrow> daemon \<Rightarrow> daemon" where
  "daemon_step h (srv, sp, ok) (Round r) d = (if shutdown d then d else snd (main_round h r srv sp ok d))"
| "daemon_step h k (Signal s) d = on_signal s d"

definition daemon0 :: "world \<Rightarrow> daemon" where
  "daemon0 w = \<lparr>os = w, slots = replicate MAX_MANAGED free_slot, shutdown = False, sigchld = False, inotify_fd = None,
     root_wd = -1, watches = replicate MAX_MANAGED (0, [])\<rparr>"

definition started :: "host \<Rightarrow> daemon \<Rightarrow> bool" where
  "started h d \<longleftrightarrow> (\<exists>w aw. d = snd (agentd_start h aw (daemon0 w)))"

lemma tab_start: "tab (snd (agentd_start h aw (daemon0 w)))"
proof -
  have "tab (daemon0 w)" by (simp add: tab_def table_ok_def daemon0_def free_slot_def)
  then show ?thesis
    using tab_inotify_setup unfolding agentd_start_def Let_def run_eq
    by (auto intro!: tab_intros split: sum.splits prod.splits) (metis snd_conv tab_act)+
qed

interpretation fleet: state_machine "started h" "daemon_step h k" tab
proof
  show "tab d" if "started h d" for d using that tab_start by (auto simp: started_def)
  show "tab (daemon_step h k e d)" if "tab d" for e d
    using that tab_main_round by (cases "(h, k, e, d)" rule: daemon_step.cases)
      (auto simp: on_signal_def intro!: tab_intros split: option.splits)
qed

lemma distinct_map_filter:
  "(\<And>i j. i < length xs \<Longrightarrow> j < length xs \<Longrightarrow> i \<noteq> j \<Longrightarrow> P (xs ! i) \<Longrightarrow> P (xs ! j) \<Longrightarrow> f (xs ! i) \<noteq> f (xs ! j)) \<Longrightarrow>
    distinct (map f (filter P xs))"
proof (induction xs)
  case (Cons x xs)
  have "distinct (map f (filter P xs))"
    by (rule Cons.IH) (use Cons.prems [of "Suc _" "Suc _"] in simp)
  moreover have "f x \<noteq> f y" if "P x" "P y" "y \<in> set xs" for y
    using that Cons.prems [of 0 "Suc _"] by (force simp: in_set_conv_nth)
  ultimately show ?case by auto
qed simp


end
