(* ===== verification/Supervision.thy ===== *)
theory Supervision
  imports Fleet
begin

text \<open>
  What the supervisor promises about one agent: the restart decision after an exit, stopping,
  and what becomes of a runtime whose start fails half-way.
\<close>

section \<open>Restarts\<close>

lemma restart_delay_short: "1 \<le> f \<Longrightarrow> f < RESTART_BURST_LIMIT \<Longrightarrow> restart_delay f = 2 ^ nat (f - 1) \<and> restart_delay f \<le> 8"
proof -
  assume f: "1 \<le> f" "f < RESTART_BURST_LIMIT"
  then consider "f = 1" | "f = 2" | "f = 3" | "f = 4" by (fastforce simp: RESTART_BURST_LIMIT_def)
  then show ?thesis by cases (simp_all add: restart_delay_def RESTART_BACKOFF_MAX_SEC_def)
qed

definition failures_now :: "int \<Rightarrow> managed \<Rightarrow> int" where
  "failures_now uptime m = (if uptime \<ge> RESTART_STABLE_SEC then 1 else consecutive_failures m + 1)"

text \<open>
  C22. The restart decision. An exit that the policy of the agent does not answer with a restart
  leaves its entry alone. Otherwise the restart count grows by one, the count of
  consecutive failures grows by one or, after a run of at least 30 seconds, starts again at
  one, and the next start is due 1, 2, 4 or 8 seconds later, or never once the count has
  reached five. No other entry changes.\<close>

theorem restart_decision_spec:
  assumes "i < length (slots d)" "0 \<le> consecutive_failures (slot i d)"
  shows "let m = slot i d; p = fst (load_policy (mname m) (os d)); f = failures_now uptime m in
    slots (restart_decision i st t uptime d) = (slots d)[i :=
      (if \<not> should_restart p st then m
       else m\<lparr>consecutive_failures := f, restart_count := restart_count m + 1,
              next_restart_at := (if f \<ge> 5 then 0 else t + 2 ^ nat (f - 1))\<rparr>)] \<and>
    (f < 5 \<longrightarrow> (2 :: int) ^ nat (f - 1) \<in> {1, 2, 4, 8})"
proof -
  let ?f = "failures_now uptime (slot i d)"
  have f: "1 \<le> ?f" using assms(2) by (simp add: failures_now_def)
  then have "?f < 5 \<Longrightarrow> ?f = 1 \<or> ?f = 2 \<or> ?f = 3 \<or> ?f = 4" by fastforce
  then have "?f < 5 \<longrightarrow> (2 :: int) ^ nat (?f - 1) \<in> {1, 2, 4, 8}" by fastforce
  moreover have "restart_delay ?f = 2 ^ nat (?f - 1)" if "\<not> 5 \<le> ?f"
    using restart_delay_short [OF f] that by (simp add: RESTART_BURST_LIMIT_def)
  ultimately show ?thesis
    using assms(1) unfolding restart_decision_def Let_def run_eq prod.case
    by (auto simp: no_restart_def suppress_restart_def schedule_restart_def persist_restart_count_def Let_def
        slot_def count_failure_def failures_now_def RESTART_BURST_LIMIT_def)
qed

definition one_agent :: daemon where
  "one_agent = (daemon0 world0)\<lparr>slots := [free_slot\<lparr>used := True, mname := ''a''\<rparr>]\<rparr>"

theorem restart_decision_spec_witness:
  "next_restart_at (slot 0 (restart_decision 0 (Signaled 11) 100 3 one_agent)) = 101"
proof -
  have p: "fst (load_policy ''a'' world0) = POLICY_ON_FAILURE" by code_simp
  have "slots one_agent = [free_slot\<lparr>used := True, mname := ''a''\<rparr>]" "os one_agent = world0"
    by (simp_all add: one_agent_def daemon0_def)
  then show ?thesis
    using restart_decision_spec [of 0 one_agent 3 "Signaled 11" 100] p
    by (simp add: Let_def slot_def free_slot_def should_restart_def failures_now_def RESTART_STABLE_SEC_def)
qed

end
