(* ===== verification/Tasks.thy ===== *)
theory Tasks
  imports Broker Profiles Progress "HOL-Library.Char_ord" "HOL-Library.List_Lexorder"
begin

text \<open>
  Tasks (\<open>src/tasks.c\<close>): the directory \<open>data/tasks/<id>\<close> of every task an agent was given.
  State names, allocation of identifiers, creation with its metadata files, state changes,
  the event log, iteration in the order of identifiers, the counts, recovery after a
  restart, artifacts, the table of pending delegations and numbered checkpoints.

  The table \<open>g_seq\<close> of the process is an argument and a result of the allocation. Allocation
  of memory is taken to succeed.
\<close>

section \<open>Definitions\<close>

datatype task_state = TASK_QUEUED | TASK_RUNNING | TASK_DELEGATED | TASK_COMPLETED | TASK_FAILED | TASK_CANCELLED

fun task_state_name :: "task_state \<Rightarrow> string" where
  "task_state_name TASK_QUEUED = ''queued''"
| "task_state_name TASK_RUNNING = ''running''"
| "task_state_name TASK_DELEGATED = ''delegated''"
| "task_state_name TASK_COMPLETED = ''completed''"
| "task_state_name TASK_FAILED = ''failed''"
| "task_state_name TASK_CANCELLED = ''cancelled''"

definition parse_state :: "string \<Rightarrow> task_state option" where
  "parse_state s = (if s = ''queued'' then Some TASK_QUEUED
     else if s = ''running'' then Some TASK_RUNNING
     else if s = ''delegated'' then Some TASK_DELEGATED
     else if s = ''completed'' then Some TASK_COMPLETED
     else if s = ''failed'' then Some TASK_FAILED
     else if s = ''cancelled'' then Some TASK_CANCELLED else None)"

definition task_validate_id :: "string \<Rightarrow> bool" where
  "task_validate_id task_id = validate_path_component (MAX_TASK_ID - 1) task_id"

definition task_validate_artifact_name :: "string \<Rightarrow> bool" where
  "task_validate_artifact_name filename = validate_path_component 127 filename"

definition task_rel :: "string \<Rightarrow> string \<Rightarrow> string" where
  "task_rel task_id leaf = ''tasks/'' @ task_id @ (if leaf \<noteq> [] then ''/'' else []) @ leaf"

definition task_leaf_path :: "string \<Rightarrow> string \<Rightarrow> string \<Rightarrow> string io" where
  "task_leaf_path agent task_id leaf w =
     (if \<not> task_validate_id task_id then (Inl EINVAL, w)
      else (case fit 256 (task_rel task_id leaf) of
          Inl e \<Rightarrow> (Inl e, w)
        | Inr rel \<Rightarrow> agent_path MAX_PATHBUF agent rel w))"

definition tasks_root :: "string \<Rightarrow> string io" where
  "tasks_root agent = agent_path MAX_PATHBUF agent ''tasks''"

text \<open>
  Identifiers. A sequence number is a \<open>long\<close>; the sum past its maximum, undefined in C, is
  taken to wrap.
\<close>

type_synonym seq_table = "(string \<times> int) list"

definition MAX_SEQ_AGENTS :: nat where "MAX_SEQ_AGENTS = 4"

definition wrap_long :: "int \<Rightarrow> int" where
  "wrap_long v = (v + 2 ^ 63) mod 2 ^ 64 - 2 ^ 63"

definition entry_seq :: "string \<Rightarrow> int option" where
  "entry_seq e = (if starts_with ''.'' e then None
     else (case split_last (CHR ''-'') e of None \<Rightarrow> None | Some (_, s) \<Rightarrow> Some (fst (strtol s))))"

definition max_seq :: "string list \<Rightarrow> int" where
  "max_seq es = fold (\<lambda>e m. case entry_seq e of Some v \<Rightarrow> if v > m then v else m | None \<Rightarrow> m) es 0"

definition load_max_seq :: "string \<Rightarrow> world \<Rightarrow> int \<times> world" where
  "load_max_seq agent w = (case tasks_root agent w of
       (Inl _, w) \<Rightarrow> (0, w)
     | (Inr root, w) \<Rightarrow> (case sys_opendir root w of
           (Inl _, w) \<Rightarrow> (0, w)
         | (Inr es, w) \<Rightarrow> (max_seq es, w)))"

fun bump_seq :: "string \<Rightarrow> seq_table \<Rightarrow> (int \<times> seq_table) option" where
  "bump_seq agent [] = None"
| "bump_seq agent ((a, n) # g) =
     (if a = agent then Some (wrap_long (n + 1), (a, wrap_long (n + 1)) # g)
      else map_option (\<lambda>(v, g). (v, (a, n) # g)) (bump_seq agent g))"

definition get_next_seq :: "string \<Rightarrow> seq_table \<Rightarrow> world \<Rightarrow> int \<times> seq_table \<times> world" where
  "get_next_seq agent g w = (case bump_seq agent g of
       Some (v, g) \<Rightarrow> (v, g, w)
     | None \<Rightarrow> (let (m, w) = load_max_seq agent w; v = wrap_long (m + 1) in
         if length g < MAX_SEQ_AGENTS then (v, g @ [(snprintf_trunc MAX_NAME agent, v)], w)
         else (v, g, w)))"

definition task_id_text :: "int \<Rightarrow> int \<Rightarrow> string" where
  "task_id_text t seq = stamp_basic (gmtime_r t) @ ''-'' @ pad0 4 (dec_int seq)"

definition task_alloc_id :: "string \<Rightarrow> nat \<Rightarrow> seq_table \<Rightarrow> world \<Rightarrow> (errno + string) \<times> seq_table \<times> world" where
  "task_alloc_id agent n g w =
     (if \<not> validate_name agent then (Inl EINVAL, g, w)
      else (let (seq, g, w) = get_next_seq agent g w in (fit n (task_id_text (now w) seq), g, w)))"

text \<open>Creation, state and events.\<close>

definition task_dir :: "string \<Rightarrow> string \<Rightarrow> string io" where
  "task_dir agent task_id = task_leaf_path agent task_id []"

definition write_iso_now :: "world \<Rightarrow> string" where
  "write_iso_now w = stamp_iso (gmtime_r (now w)) @ [NL]"

definition with_leaf :: "string \<Rightarrow> string \<Rightarrow> string \<Rightarrow> (string \<Rightarrow> 'a io) \<Rightarrow> 'a io" where
  "with_leaf agent task_id leaf f w = (case task_leaf_path agent task_id leaf w of
       (Inl e, w) \<Rightarrow> (Inl e, w) | (Inr p, w) \<Rightarrow> f p w)"

definition write_text_line :: "string \<Rightarrow> string \<Rightarrow> string \<Rightarrow> string \<Rightarrow> unit io" where
  "write_text_line agent task_id leaf v = with_leaf agent task_id leaf (\<lambda>p w.
     if length v + 2 > 1024 then (Inl E2BIG, w) else atomic_write_file p (v @ [NL]) 384 w)"

definition task_set_state :: "string \<Rightarrow> string \<Rightarrow> task_state \<Rightarrow> unit io" where
  "task_set_state agent task_id s w =
     (case write_text_line agent task_id ''state'' (task_state_name s) w of
        (Inl e, w) \<Rightarrow> (Inl e, w)
      | (Inr _, w) \<Rightarrow> (Inr (), snd (with_leaf agent task_id ''updated_at''
            (\<lambda>p w. atomic_write_file p (write_iso_now w) 384 w) w)))"

definition task_set_status :: "string \<Rightarrow> string \<Rightarrow> string \<Rightarrow> unit io" where
  "task_set_status agent task_id status = write_text_line agent task_id ''status'' status"

definition task_append_event :: "string \<Rightarrow> string \<Rightarrow> string \<Rightarrow> unit io" where
  "task_append_event agent task_id msg = with_leaf agent task_id ''events.log'' (\<lambda>p w.
     append_file p (log_line 512 (stamp_iso (gmtime_r (now w)) @ '' '' @ msg)) 384 w)"

record task_meta =
  verb :: "string option"
  sender :: "string option"
  sender_pid :: int
  sender_uid :: int
  reply_to :: string
  incoming_task_id :: string
  payload :: string

definition or_else :: "string \<Rightarrow> string option \<Rightarrow> string" where
  "or_else d x = (case x of Some s \<Rightarrow> s | None \<Rightarrow> d)"

text \<open>The metadata lines whose outcome \<open>task_create\<close> does not look at.\<close>

definition meta_lines :: "task_meta \<Rightarrow> (string \<times> string) list" where
  "meta_lines m =
     [(''verb'', or_else [] (verb m)), (''sender'', or_else ''-'' (sender m)),
      (''sender_pid'', dec_int (sender_pid m)), (''sender_uid'', dec_int (sender_uid m))] @
     (if reply_to m \<noteq> [] then [(''reply_to'', reply_to m)] else []) @
     (if incoming_task_id m \<noteq> [] then [(''incoming_task_id'', incoming_task_id m)] else [])"

fun write_meta :: "string \<Rightarrow> string \<Rightarrow> (string \<times> string) list \<Rightarrow> world \<Rightarrow> world" where
  "write_meta agent task_id [] w = w"
| "write_meta agent task_id ((l, v) # ms) w =
     write_meta agent task_id ms (snd (write_text_line agent task_id l v w))"

definition make_task_dirs :: "string \<Rightarrow> string \<Rightarrow> unit io" where
  "make_task_dirs agent task_id w =
     (case tasks_root agent w of
        (Inl e, w) \<Rightarrow> (Inl e, w)
      | (Inr root, w) \<Rightarrow> (case ensure_dir root 448 w of
        (Inl e, w) \<Rightarrow> (Inl e, w)
      | (Inr _, w) \<Rightarrow> (case task_dir agent task_id w of
        (Inl e, w) \<Rightarrow> (Inl e, w)
      | (Inr dir, w) \<Rightarrow> (case sys_mkdir dir 448 w of
        (Inl e, w) \<Rightarrow> (Inl e, w)
      | (Inr _, w) \<Rightarrow> (case task_leaf_path agent task_id ''artifacts'' w of
        (Inl e, w) \<Rightarrow> (Inl e, w)
      | (Inr sub, w) \<Rightarrow> (let w = snd (sys_mkdir sub 448 w) in
        (case task_leaf_path agent task_id ''checkpoints'' w of
        (Inl e, w) \<Rightarrow> (Inl e, w)
      | (Inr sub, w) \<Rightarrow> (Inr (), snd (sys_mkdir sub 448 w)))))))))"

definition write_payload :: "string \<Rightarrow> string \<Rightarrow> string \<Rightarrow> unit io" where
  "write_payload agent task_id body w = (if body = [] then (Inr (), w)
     else with_leaf agent task_id ''payload'' (\<lambda>p. atomic_write_file p body 384) w)"

definition task_create :: "string \<Rightarrow> string \<Rightarrow> task_meta \<Rightarrow> unit io" where
  "task_create agent task_id m w =
     (if \<not> task_validate_id task_id then (Inl EINVAL, w)
      else (case make_task_dirs agent task_id w of
        (Inl e, w) \<Rightarrow> (Inl e, w)
      | (Inr _, w) \<Rightarrow> (let ts = write_iso_now w in
        (case with_leaf agent task_id ''created_at'' (\<lambda>p. atomic_write_file p ts 384) w of
        (Inl e, w) \<Rightarrow> (Inl e, w)
      | (Inr _, w) \<Rightarrow> (case with_leaf agent task_id ''updated_at'' (\<lambda>p. atomic_write_file p ts 384) w of
        (Inl e, w) \<Rightarrow> (Inl e, w)
      | (Inr _, w) \<Rightarrow> (case write_payload agent task_id (payload m) (write_meta agent task_id (meta_lines m) w) of
        (Inl e, w) \<Rightarrow> (Inl e, w)
      | (Inr _, w) \<Rightarrow> (case task_set_state agent task_id TASK_QUEUED w of
        (Inl e, w) \<Rightarrow> (Inl e, w)
      | (Inr _, w) \<Rightarrow> (case task_set_status agent task_id ''queued'' w of
        (Inl e, w) \<Rightarrow> (Inl e, w)
      | (Inr _, w) \<Rightarrow> (Inr (), snd (task_append_event agent task_id
            (''created verb='' @ or_else ''?'' (verb m) @ '' sender='' @ or_else ''-'' (sender m)) w))))))))))"

definition task_read_string :: "string \<Rightarrow> string \<Rightarrow> string \<Rightarrow> nat \<Rightarrow> string io" where
  "task_read_string agent task_id leaf n = with_leaf agent task_id leaf (\<lambda>p. read_small_file p n)"

definition task_read_state :: "string \<Rightarrow> string \<Rightarrow> task_state io" where
  "task_read_state agent task_id w = (case task_read_string agent task_id ''state'' 64 w of
       (Inl e, w) \<Rightarrow> (Inl e, w)
     | (Inr b, w) \<Rightarrow> (case parse_state (rstrip (\<lambda>c. c = NL \<or> c = SP) (cstr b)) of
           None \<Rightarrow> (Inl E0, w) | Some s \<Rightarrow> (Inr s, w)))"

text \<open>Iteration: at most 256 identifiers are collected, then sorted as \<open>strcmp\<close> orders them.\<close>

definition task_ids :: "string list \<Rightarrow> string list" where
  "task_ids es = sort (take 256 (filter task_validate_id es))"

definition task_iterate :: "string \<Rightarrow> (string \<Rightarrow> 's \<times> world \<Rightarrow> 's \<times> world) \<Rightarrow> 's \<times> world \<Rightarrow> 's \<times> world" where
  "task_iterate agent cb st = (case st of (s, w) \<Rightarrow> (case tasks_root agent w of
       (Inl _, w) \<Rightarrow> (s, w)
     | (Inr root, w) \<Rightarrow> (case sys_opendir root w of
           (Inl _, w) \<Rightarrow> (s, w)
         | (Inr es, w) \<Rightarrow> fold cb (task_ids es) (s, w))))"

definition task_count_total :: "string \<Rightarrow> world \<Rightarrow> nat \<times> world" where
  "task_count_total agent w = task_iterate agent (\<lambda>_ (n, w). (n + 1, w)) (0, w)"

definition active :: "task_state \<Rightarrow> bool" where
  "active s \<longleftrightarrow> s = TASK_QUEUED \<or> s = TASK_RUNNING \<or> s = TASK_DELEGATED"

definition inc_active :: "string \<Rightarrow> string \<Rightarrow> nat \<times> world \<Rightarrow> nat \<times> world" where
  "inc_active agent task_id st = (case st of (n, w) \<Rightarrow> (case task_read_state agent task_id w of
       (Inl _, w) \<Rightarrow> (n, w)
     | (Inr s, w) \<Rightarrow> (if active s then n + 1 else n, w)))"

definition task_count_active :: "string \<Rightarrow> world \<Rightarrow> nat \<times> world" where
  "task_count_active agent w = task_iterate agent (inc_active agent) (0, w)"

definition recover_one :: "string \<Rightarrow> string \<Rightarrow> nat \<times> world \<Rightarrow> nat \<times> world" where
  "recover_one agent task_id st = (case st of (n, w) \<Rightarrow> (case task_read_state agent task_id w of
       (Inl _, w) \<Rightarrow> (n, w)
     | (Inr s, w) \<Rightarrow>
         if active s then
           (let w = snd (task_set_state agent task_id TASK_FAILED w);
                w = snd (task_set_status agent task_id ''failed: interrupted by restart'' w)
            in (n + 1, snd (task_append_event agent task_id ''recovery: interrupted'' w)))
         else (n, w)))"

definition task_recover_interrupted :: "string \<Rightarrow> world \<Rightarrow> nat \<times> world" where
  "task_recover_interrupted agent w = task_iterate agent (recover_one agent) (0, w)"

text \<open>Artifacts of a task.\<close>

definition task_stem_ext :: "string \<Rightarrow> (string \<times> string) option" where
  "task_stem_ext base = (case split_last (CHR ''.'') base of
       Some (stem, e) \<Rightarrow>
         if stem \<noteq> [] then
           (if length stem \<ge> 128 \<or> length (CHR ''.'' # e) \<ge> 32 then None else Some (stem, CHR ''.'' # e))
         else Some (snprintf_trunc 128 base, [])
     | None \<Rightarrow> Some (snprintf_trunc 128 base, []))"

definition task_write_artifact :: "string \<Rightarrow> string \<Rightarrow> string \<Rightarrow> string \<Rightarrow> artifact_policy \<Rightarrow> unit io" where
  "task_write_artifact agent task_id base buf policy w =
     (if \<not> task_validate_id task_id \<or> \<not> task_validate_artifact_name base then (Inl EINVAL, w)
      else (case policy of
          ARTIFACT_OVERWRITE \<Rightarrow> (case artifact_rel base of
              Inl e \<Rightarrow> (Inl e, w)
            | Inr rel \<Rightarrow> with_leaf agent task_id rel (\<lambda>p. atomic_write_file p buf 384) w)
        | ARTIFACT_VERSIONED \<Rightarrow> (case task_stem_ext base of
              None \<Rightarrow> (Inl ENAMETOOLONG, w)
            | Some (stem, ext) \<Rightarrow> (case artifact_rel (stem @ ''-'' @ timestamp_utc w @ ext) of
                  Inl e \<Rightarrow> (Inl e, w)
                | Inr rel \<Rightarrow> with_leaf agent task_id rel (\<lambda>p. atomic_write_file p buf 384) w))
        | ARTIFACT_APPEND_ONLY \<Rightarrow> (case artifact_rel base of
              Inl e \<Rightarrow> (Inl e, w)
            | Inr rel \<Rightarrow> with_leaf agent task_id rel (\<lambda>p. append_artifact p buf) w)))"

text \<open>Pending delegations: one file \<open><task id>.<downstream agent>\<close> each.\<close>

definition pending_root :: "string \<Rightarrow> string io" where
  "pending_root agent = agent_path MAX_PATHBUF agent ''pending''"

definition pending_leaf :: "string \<Rightarrow> string \<Rightarrow> string" where
  "pending_leaf task_id downstream = task_id @ ''.'' @ downstream"

definition pending_path :: "string \<Rightarrow> string \<Rightarrow> string \<Rightarrow> string io" where
  "pending_path agent task_id downstream w =
     (if \<not> task_validate_id task_id \<or> \<not> validate_name downstream then (Inl EINVAL, w)
      else (case pending_root agent w of
          (Inl e, w) \<Rightarrow> (Inl e, w)
        | (Inr root, w) \<Rightarrow> (fit MAX_PATHBUF (join root (pending_leaf task_id downstream)), w)))"

definition pending_add :: "string \<Rightarrow> string \<Rightarrow> string \<Rightarrow> unit io" where
  "pending_add agent task_id downstream w = (case pending_root agent w of
       (Inl e, w) \<Rightarrow> (Inl e, w)
     | (Inr root, w) \<Rightarrow> (case ensure_dir root 448 w of
       (Inl e, w) \<Rightarrow> (Inl e, w)
     | (Inr _, w) \<Rightarrow> (case pending_path agent task_id downstream w of
       (Inl e, w) \<Rightarrow> (Inl e, w)
     | (Inr path, w) \<Rightarrow> (case sys_open path [O_WRONLY, O_CREAT, O_TRUNC, O_CLOEXEC] 384 w of
       (Inl e, w) \<Rightarrow> (Inl e, w)
     | (Inr fd, w) \<Rightarrow> (let w = snd (write_all fd (write_iso_now w) w) in (Inr (), snd (sys_close fd w)))))))"

definition pending_remove :: "string \<Rightarrow> string \<Rightarrow> string \<Rightarrow> unit io" where
  "pending_remove agent task_id downstream w = (case pending_path agent task_id downstream w of
       (Inl e, w) \<Rightarrow> (Inl e, w)
     | (Inr path, w) \<Rightarrow> (case sys_unlink path w of
           (Inr _, w) \<Rightarrow> (Inr (), w)
         | (Inl e, w) \<Rightarrow> if e = ENOENT then (Inr (), w) else (Inl e, w)))"

definition pending_of :: "string \<Rightarrow> string \<Rightarrow> bool" where
  "pending_of task_id e \<longleftrightarrow> \<not> starts_with ''.'' e \<and> starts_with (task_id @ ''.'') e"

definition pending_count_for_task :: "string \<Rightarrow> string \<Rightarrow> nat io" where
  "pending_count_for_task agent task_id w =
     (if \<not> task_validate_id task_id then (Inl EINVAL, w)
      else (case pending_root agent w of
          (Inl e, w) \<Rightarrow> (Inl e, w)
        | (Inr root, w) \<Rightarrow> (case sys_opendir root w of
              (Inl _, w) \<Rightarrow> (Inr 0, w)
            | (Inr es, w) \<Rightarrow> (Inr (length (filter (pending_of task_id) es)), w))))"

text \<open>Checkpoints.\<close>

definition max_checkpoint :: "string list \<Rightarrow> int" where
  "max_checkpoint es = fold (\<lambda>e m. if starts_with ''checkpoint-'' e \<and> atoi (drop 11 e) > m
     then atoi (drop 11 e) else m) es 0"

definition task_write_checkpoint :: "string \<Rightarrow> string \<Rightarrow> string \<Rightarrow> unit io" where
  "task_write_checkpoint agent task_id content w =
     (case task_leaf_path agent task_id ''checkpoints'' w of
        (Inl e, w) \<Rightarrow> (Inl e, w)
      | (Inr dir, w) \<Rightarrow> (case ensure_dir dir 448 w of
        (Inl e, w) \<Rightarrow> (Inl e, w)
      | (Inr _, w) \<Rightarrow>
          (let (m, w) = (case sys_opendir dir w of (Inl _, w) \<Rightarrow> (0, w) | (Inr es, w) \<Rightarrow> (max_checkpoint es, w))
           in case fit MAX_PATHBUF (join dir (''checkpoint-'' @ pad0 4 (dec_int (wrap_int (m + 1))))) of
                Inl e \<Rightarrow> (Inl e, w)
              | Inr path \<Rightarrow> atomic_write_file path content 384 w)))"

section \<open>Names and identifiers\<close>

interpretation task_state_codec: codec task_state_name parse_state "\<lambda>_. True"
proof
  fix x show "parse_state (task_state_name x) = Some x" by (cases x) (simp_all add: parse_state_def)
qed

interpretation task_id: path_component task_validate_id
  by unfold_locales (auto simp: task_validate_id_def validate_path_component_def list_all_iff)

lemma task_validate_id_length: "task_validate_id i \<Longrightarrow> length i \<le> 31"
  by (simp add: task_validate_id_def validate_path_component_def MAX_TASK_ID_def)

section \<open>Paths of tasks\<close>

definition tasks_at :: "string \<Rightarrow> world \<Rightarrow> string" where
  "tasks_at agent w = join (join (agent_base agent w) ''data'') ''tasks''"

definition task_path :: "string \<Rightarrow> string \<Rightarrow> string \<Rightarrow> world \<Rightarrow> string" where
  "task_path agent task_id leaf w = join (join (tasks_at agent w) task_id) leaf"

text \<open>The files of a task whose rewriting the theorems below speak of.\<close>

definition task_files :: "string list" where
  "task_files = [''state'', ''status'', ''updated_at'', ''events.log'']"

definition task_ready :: "string \<Rightarrow> string \<Rightarrow> world \<Rightarrow> bool" where
  "task_ready agent task_id w \<longleftrightarrow> has_layout agent w \<and> task_validate_id task_id \<and>
     length (agent_base agent w) + 80 < MAX_PATHBUF \<and> dir_at w (join (tasks_at agent w) task_id) \<and>
     list_all (\<lambda>l. plain w (task_path agent task_id l w)) task_files"

lemma task_path_inj:
  assumes "validate_name a" "validate_name a'" "task_validate_id i" "task_validate_id i'"
  shows "task_path a i l w = task_path a' i' l' w \<longleftrightarrow> a = a' \<and> i = i' \<and> l = l'"
  using split_first_slash [of a a'] split_first_slash [of i i'] agent_name.valid_no_slash [OF assms(1)]
    agent_name.valid_no_slash [OF assms(2)] task_id.valid_no_slash [OF assms(3)] task_id.valid_no_slash [OF assms(4)]
  by (auto simp: task_path_def tasks_at_def join_join)

lemma tmp_of_task_path: "tmp_of (task_path a i l w) q \<Longrightarrow> \<exists>s. q = task_path a i (l @ ''.tmp.'' @ s) w"
  by (auto simp: tmp_of_def task_path_def join_def)

lemma agent_base_cong: "aroot w' = aroot w \<Longrightarrow> agent_base a w' = agent_base a w"
  by (simp add: agent_root_def)

lemma task_path_cong: "aroot w' = aroot w \<Longrightarrow> task_path a i l w' = task_path a i l w"
  by (simp add: task_path_def tasks_at_def agent_root_def)

lemma task_readyD:
  assumes "task_ready a i w"
  shows "has_layout a w" "validate_name a" "task_validate_id i" "sched w = []"
    "dir_at w (join (tasks_at a w) i)" "\<And>l. l \<in> set task_files \<Longrightarrow> plain w (task_path a i l w)"
  using assms by (auto simp: task_ready_def has_layout_def list_all_iff)

lemma task_leaf_path_ready:
  assumes "task_ready a i w" "l \<noteq> []" "length l \<le> 16"
  shows "task_leaf_path a i l w = (Inr (task_path a i l w), w)"
proof -
  have rel: "task_rel i l = join (join ''tasks'' i) l" using assms(2) by (simp add: task_rel_def join_def)
  have i: "task_validate_id i" "length i \<le> 31" using task_readyD(3) [OF assms(1)] task_validate_id_length by auto
  have p: "join (join (agent_base a w) ''data'') (task_rel i l) = task_path a i l w"
    unfolding rel task_path_def tasks_at_def by (simp add: join_join)
  have s: "CHR ''/'' \<in> set (task_rel i l)" unfolding rel by simp
  have len: "length (task_path a i l w) < MAX_PATHBUF"
    using assms(1,3) i(2) by (simp add: task_ready_def task_path_def tasks_at_def)
  have "agent_path MAX_PATHBUF a (task_rel i l) w = (Inr (task_path a i l w), w)"
    using agent_path_slash [OF task_readyD(1) [OF assms(1)] s, of MAX_PATHBUF] len p leaf_class_slash [OF s] by simp
  moreover have "length (task_rel i l) < 256" unfolding rel using i(2) assms(3) by simp
  ultimately show ?thesis using i(1) by (simp add: task_leaf_path_def fit_ok)
qed

lemma task_files_leaf: "l \<in> set task_files \<Longrightarrow>
    l \<noteq> [] \<and> length l \<le> 16 \<and> CHR ''/'' \<notin> set l \<and> CHR ''m'' \<notin> set l"
  by (auto simp: task_files_def)

lemma with_leaf_ready: "task_ready a i w \<Longrightarrow> l \<in> set task_files \<Longrightarrow>
    with_leaf a i l f w = f (task_path a i l w) w"
  using task_leaf_path_ready [of a i w l] task_files_leaf by (simp add: with_leaf_def)

section \<open>Writing to the files of a task\<close>

text \<open>
  \<open>task_touch a i l w w'\<close>: of the tasks in the file tree only the file \<open>l\<close> of task \<open>i\<close>
  (or a temporary beside it) may differ, and every ready task is still ready.
\<close>

definition task_touch :: "string \<Rightarrow> string \<Rightarrow> string \<Rightarrow> world \<Rightarrow> world \<Rightarrow> bool" where
  "task_touch a i l w w' \<longleftrightarrow> aroot w' = aroot w \<and> sched w' = [] \<and>
     (\<forall>a' i'. task_ready a' i' w \<longrightarrow> task_ready a' i' w' \<and>
        (\<forall>l' \<in> set task_files. (a', i', l') = (a, i, l) \<or>
           map_of (fs w') (task_path a' i' l' w) = map_of (fs w) (task_path a' i' l' w)))"

lemma task_touch_frame:
  assumes r: "task_ready a i w" and l: "l \<in> set task_files"
    and f: "frame (\<lambda>q. q = task_path a i l w \<or> map_of (fs w) q = None \<and> tmp_of (task_path a i l w) q) w (fds w) w'"
    and p: "plain w' (task_path a i l w)" and d: "\<And>q. dir_at w q \<Longrightarrow> dir_at w' q"
  shows "task_touch a i l w w'"
proof -
  have ar: "aroot w' = aroot w" using frame_fields [OF f] by blast
  have q: "sched w' = []" using frame_quiet [OF f] task_readyD(4) [OF r] by blast
  have same: "map_of (fs w') (task_path a' i' l' w) = map_of (fs w) (task_path a' i' l' w)"
    if "task_ready a' i' w" "l' \<in> set task_files" "(a', i', l') \<noteq> (a, i, l)" for a' i' l'
  proof (rule frame_lookup [OF f])
    note inj = task_path_inj [OF task_readyD(2) [OF that(1)] task_readyD(2) [OF r]
        task_readyD(3) [OF that(1)] task_readyD(3) [OF r]]
    have "l' \<noteq> l @ ''.tmp.'' @ s" for s using task_files_leaf [OF that(2)] by auto
    then show "\<not> (task_path a' i' l' w = task_path a i l w \<or>
        map_of (fs w) (task_path a' i' l' w) = None \<and> tmp_of (task_path a i l w) (task_path a' i' l' w))"
      using inj that(3) tmp_of_task_path by blast
  qed
  have "task_ready a' i' w'" if t: "task_ready a' i' w" for a' i'
  proof -
    have "has_layout a' w'"
      using task_readyD(1) [OF t] d q by (auto simp: has_layout_def agent_base_cong [OF ar])
    moreover have "plain w' (task_path a' i' l' w)" if "l' \<in> set task_files" for l'
      using p same [OF t that] task_readyD(6) [OF t that] by (cases "(a', i', l') = (a, i, l)") (auto intro: plain_cong)
    ultimately show ?thesis
      using t d by (auto simp: task_ready_def list_all_iff agent_base_cong [OF ar] tasks_at_def task_path_cong [OF ar])
  qed
  then show ?thesis using ar q same unfolding task_touch_def by blast
qed

lemma task_write:
  assumes "task_ready a i w" "l \<in> set task_files" "atomic_write_file (task_path a i l w) buf m w = (r, w')"
  shows "task_touch a i l w w' \<and> (\<forall>u. r = Inr u \<longrightarrow> contents w' (task_path a i l w) = Some buf)"
proof -
  note p = task_readyD(6) [OF assms(1,2)]
  note aw = atomic_write_plain [OF p assms(3)]
  have "task_touch a i l w w'" by (rule task_touch_frame [OF assms(1,2) aw(1,3,4)])
  with aw(2) show ?thesis by blast
qed

lemma task_append:
  assumes "task_ready a i w" "l \<in> set task_files" "append_file (task_path a i l w) buf m w = (r, w')"
  shows "task_touch a i l w w'"
proof -
  note p = task_readyD(6) [OF assms(1,2)]
  note ap = append_plain [OF p assms(3)]
  then have f: "frame (\<lambda>q. q = task_path a i l w \<or> map_of (fs w) q = None \<and> tmp_of (task_path a i l w) q) w (fds w) w'"
    by (blast intro: frame_mono)
  have "dir_at w' q" if "dir_at w q" for q
  proof -
    have "q \<noteq> task_path a i l w" using that plain_not_dir [OF p] by auto
    then show ?thesis using frame_lookup [OF conjunct1 [OF ap], of q] that by (simp add: dir_at_def)
  qed
  with ap show ?thesis by (intro task_touch_frame [OF assms(1,2) f]) auto
qed

section \<open>The state of a task\<close>

definition state_of_text :: "string \<Rightarrow> task_state option" where
  "state_of_text b = parse_state (rstrip (\<lambda>c. c = NL \<or> c = SP) (cstr b))"

definition task_view :: "string \<Rightarrow> string \<Rightarrow> world \<Rightarrow> task_state option" where
  "task_view a i w = (case contents w (task_path a i ''state'' w) of
       None \<Rightarrow> None | Some c \<Rightarrow> state_of_text (take 63 c))"

lemma state_of_text_line: "state_of_text (take 63 (task_state_name s @ [NL])) = Some s"
  by (cases s) (simp_all add: state_of_text_def rstrip_def cstr_def parse_state_def)

lemma task_touch_view:
  assumes "task_touch a i l w w'" "task_ready a' i' w" "l \<noteq> ''state'' \<or> (a', i') \<noteq> (a, i)"
  shows "task_view a' i' w' = task_view a' i' w"
proof -
  have "''state'' \<in> set task_files" by (simp add: task_files_def)
  then have "(a', i', ''state'') = (a, i, l) \<or>
      map_of (fs w') (task_path a' i' ''state'' w) = map_of (fs w) (task_path a' i' ''state'' w)"
    using assms(1,2) unfolding task_touch_def by blast
  then have "map_of (fs w') (task_path a' i' ''state'' w) = map_of (fs w) (task_path a' i' ''state'' w)"
    using assms(3) by blast
  moreover have "task_path a' i' ''state'' w' = task_path a' i' ''state'' w"
    using assms(1) by (intro task_path_cong) (simp add: task_touch_def)
  ultimately show ?thesis by (simp add: task_view_def contents_def)
qed

lemma task_touch_ready: "task_touch a i l w w' \<Longrightarrow> task_ready a' i' w \<Longrightarrow> task_ready a' i' w'"
  by (simp add: task_touch_def)

lemma task_read_state_view:
  assumes "task_ready a i w" "task_read_state a i w = (r, w')"
  shows "w' = w \<and> (r = Inr s \<longleftrightarrow> task_view a i w = Some s)"
proof -
  have l: "''state'' \<in> set task_files" by (simp add: task_files_def)
  have "task_read_string a i ''state'' 64 w =
    (case contents w (task_path a i ''state'' w) of
       Some c \<Rightarrow> (Inr (take 63 c), w) | None \<Rightarrow> (Inl (miss_err (fs w) (task_path a i ''state'' w)), w))"
    using read_plain [OF task_readyD(4) [OF assms(1)] task_readyD(6) [OF assms(1) l], of 64]
    by (simp add: task_read_string_def with_leaf_ready [OF assms(1) l] split: option.splits)
  with assms(2) show ?thesis
    by (auto simp: task_read_state_def task_view_def state_of_text_def split: option.splits)
qed

lemma write_text_line_ready:
  assumes "task_ready a i w" "l \<in> set task_files" "write_text_line a i l v w = (r, w')"
  shows "task_touch a i l w w' \<and> (\<forall>u. r = Inr u \<longrightarrow> contents w' (task_path a i l w) = Some (v @ [NL]))"
proof (cases "length v + 2 > 1024")
  case True
  then have "w' = w" "\<exists>e. r = Inl e"
    using assms by (auto simp: write_text_line_def with_leaf_ready [OF assms(1,2)])
  then show ?thesis using task_readyD(4) [OF assms(1)] by (auto simp: task_touch_def)
next
  case False
  then show ?thesis using assms(3) task_write [OF assms(1,2)]
    by (simp add: write_text_line_def with_leaf_ready [OF assms(1,2)])
qed

lemma task_files_mem [simp]:
  "''state'' \<in> set task_files" "''status'' \<in> set task_files"
  "''updated_at'' \<in> set task_files" "''events.log'' \<in> set task_files"
  by (simp_all add: task_files_def)

lemma task_set_state_done:
  assumes "task_ready a i w" "task_set_state a i s w = (Inr u, w')"
  shows "task_view a i w' = Some s"
    and "\<And>a' i'. task_ready a' i' w \<Longrightarrow> task_ready a' i' w' \<and>
           ((a', i') \<noteq> (a, i) \<longrightarrow> task_view a' i' w' = task_view a' i' w)"
proof -
  obtain x w1 where x: "write_text_line a i ''state'' (task_state_name s) w = (Inr x, w1)"
    and u: "w' = snd (with_leaf a i ''updated_at'' (\<lambda>p w. atomic_write_file p (write_iso_now w) 384 w) w1)"
    using assms(2) by (auto simp: task_set_state_def split: prod.splits sum.splits)
  note wt = write_text_line_ready [OF assms(1) task_files_mem(1) x]
  have t1: "task_touch a i ''state'' w w1" using wt by blast
  have c: "contents w1 (task_path a i ''state'' w) = Some (task_state_name s @ [NL])" using wt by blast
  note r1 = task_touch_ready [OF t1]
  have v1: "task_view a i w1 = Some s"
    using c state_of_text_line task_path_cong [of w1 w a i "''state''"] t1
    by (simp add: task_view_def task_touch_def)
  obtain y where "atomic_write_file (task_path a i ''updated_at'' w1) (write_iso_now w1) 384 w1 = (y, w')"
    using u by (simp add: with_leaf_ready [OF r1 [OF assms(1)] task_files_mem(3)] prod_eq_iff)
  then have t2: "task_touch a i ''updated_at'' w1 w'"
    using task_write [OF r1 [OF assms(1)] task_files_mem(3)] by blast
  show "task_view a i w' = Some s" using task_touch_view [OF t2 r1 [OF assms(1)]] v1 by simp
  show "task_ready a' i' w' \<and> ((a', i') \<noteq> (a, i) \<longrightarrow> task_view a' i' w' = task_view a' i' w)"
    if "task_ready a' i' w" for a' i'
    using that t1 t2 r1 task_touch_ready task_touch_view [OF t1 that] task_touch_view [OF t2 r1 [OF that]] by auto
qed

definition put_task :: "string \<times> string \<Rightarrow> task_state \<Rightarrow> unit io" where
  "put_task k s = task_set_state (fst k) (snd k) s"

definition get_task :: "string \<times> string \<Rightarrow> world \<Rightarrow> task_state option \<times> world" where
  "get_task k w = (case task_read_state (fst k) (snd k) w of (Inl _, w) \<Rightarrow> (None, w) | (Inr s, w) \<Rightarrow> (Some s, w))"

lemma get_task_view:
  assumes "task_ready a i w"
  shows "get_task (a, i) w = (task_view a i w, w)"
proof -
  obtain r w' where r: "task_read_state a i w = (r, w')" by fastforce
  show ?thesis
  proof (cases r)
    case (Inl e)
    then have "task_view a i w \<noteq> Some s" for s using task_read_state_view [OF assms r, of s] by simp
    then have "task_view a i w = None" by (cases "task_view a i w") auto
    then show ?thesis using r Inl task_read_state_view [OF assms r] by (simp add: get_task_def)
  next
    case (Inr s)
    then show ?thesis using r task_read_state_view [OF assms r, of s] by (simp add: get_task_def)
  qed
qed

interpretation task_states: value_store put_task get_task "\<lambda>k. task_ready (fst k) (snd k)" "\<lambda>_. True"
proof
  fix k k' s s' v and u :: unit
  assume k: "task_ready (fst k) (snd k) s"
  note st = task_set_state_done [OF k]
  show "fst (get_task k s') = Some v" if "put_task k v s = (Inr u, s')"
    using st [of v u s'] that k get_task_view [of "fst k" "snd k" s'] by (simp add: put_task_def)
  assume k': "task_ready (fst k') (snd k') s"
  show "task_ready (fst k') (snd k') s'" if "put_task k v s = (Inr u, s')"
    using st(2) [OF _ k'] that by (simp add: put_task_def)
  show "fst (get_task k' s') = fst (get_task k' s)" if "k \<noteq> k'" "put_task k v s = (Inr u, s')"
    using st(2) [of v u s' "fst k'" "snd k'"] that k' get_task_view [of "fst k'" "snd k'"]
    by (auto simp: put_task_def prod_eq_iff)
  show "fst (get_task k' (snd (get_task k s))) = fst (get_task k' s)"
    and "task_ready (fst k') (snd k') (snd (get_task k s))"
    using k k' get_task_view [of "fst k" "snd k" s] by simp_all
qed

section \<open>Recovery\<close>

lemma task_file_steady:
  assumes "task_ready a i w" "steady (Suc k) w" "l \<in> set task_files"
  obtains w' where "atomic_write_file (task_path a i l w) buf m w = (Inr (), w')"
    and "steady k w'" and "task_touch a i l w w'"
proof -
  note l = task_files_leaf [OF assms(3)]
  have i: "length i \<le> 31" using task_validate_id_length task_readyD(3) [OF assms(1)] by blast
  have "length (task_path a i l w) + 11 < MAX_PATHBUF"
    using assms(1) l i by (simp add: task_ready_def task_path_def tasks_at_def)
  moreover have "is_dir (fs w) (dirname (task_path a i l w))"
    using dir_at_is_dir [OF task_readyD(5) [OF assms(1)]] l by (simp add: task_path_def dirname_join)
  moreover have "\<not> dir_at w (task_path a i l w)" by (rule plain_not_dir [OF task_readyD(6) [OF assms(1,3)]])
  moreover have "tmp_free w (task_path a i l w)"
    using assms(2) l unfolding task_path_def by (intro tmp_free_leaf) (auto simp: steady_def)
  ultimately obtain w' where "atomic_write_file (task_path a i l w) buf m w = (Inr (), w')" "steady k w'"
    using atomic_write_steady [OF assms(2)] by blast
  with task_write [OF assms(1,3)] that show ?thesis by blast
qed

lemma write_text_line_steady:
  assumes "task_ready a i w" "steady (Suc k) w" "l \<in> set task_files" "length v + 2 \<le> 1024"
  obtains w' where "write_text_line a i l v w = (Inr (), w')" and "steady k w'" and "task_touch a i l w w'"
proof -
  have "write_text_line a i l v w = atomic_write_file (task_path a i l w) (v @ [NL]) 384 w"
    using assms(4) by (simp add: write_text_line_def with_leaf_ready [OF assms(1,3)])
  with task_file_steady [OF assms(1-3)] that show ?thesis by metis
qed

lemma task_append_event_steady:
  assumes "task_ready a i w" "steady k w"
  obtains w' where "snd (task_append_event a i msg w) = w'" and "steady k w'" and "task_touch a i ''events.log'' w w'"
proof -
  let ?p = "task_path a i ''events.log'' w"
  let ?b = "log_line 512 (stamp_iso (gmtime_r (now w)) @ '' '' @ msg)"
  obtain r w' where r: "append_file ?p ?b 384 w = (r, w')" by fastforce
  then have e: "snd (task_append_event a i msg w) = w'"
    by (simp add: task_append_event_def with_leaf_ready [OF assms(1)])
  have f: "frame (\<lambda>q. q = ?p) w (fds w) w'"
    using append_plain [OF task_readyD(6) [OF assms(1)] r] by simp
  have "tmps w' = tmps w" using append_file_tmps [of ?p ?b 384 w, unfolded r] by simp
  moreover have "tmp_free w ?p"
    using assms(2) unfolding task_path_def by (intro tmp_free_leaf) (auto simp: steady_def)
  ultimately have "steady k w'" by (intro steady_extends [OF assms(2) f]) auto
  with e task_append [OF assms(1) _ r] that show ?thesis by simp
qed

lemma task_set_state_steady:
  assumes "task_ready a i w" "steady (Suc (Suc k)) w"
  obtains w' where "task_set_state a i s w = (Inr (), w')" and "steady k w'"
proof -
  have len: "length (task_state_name s) + 2 \<le> 1024" by (cases s) simp_all
  obtain w1 where 1: "write_text_line a i ''state'' (task_state_name s) w = (Inr (), w1)" "steady (Suc k) w1"
    "task_touch a i ''state'' w w1"
    using write_text_line_steady [OF assms task_files_mem(1) len] by blast
  have r1: "task_ready a i w1" by (rule task_touch_ready [OF 1(3) assms(1)])
  obtain w2 where "atomic_write_file (task_path a i ''updated_at'' w1) (write_iso_now w1) 384 w1 = (Inr (), w2)"
    "steady k w2"
    using task_file_steady [OF r1 1(2) task_files_mem(3)] by blast
  with 1 that show ?thesis by (simp add: task_set_state_def with_leaf_ready [OF r1])
qed

definition interrupted :: "string \<Rightarrow> string \<Rightarrow> world \<Rightarrow> bool" where
  "interrupted a i w \<longleftrightarrow> (case task_view a i w of Some s \<Rightarrow> active s | None \<Rightarrow> False)"

lemma recover_one_spec:
  assumes "task_ready a i w" "steady (Suc (Suc (Suc k))) w" "recover_one a i (n, w) = (n', w')"
  shows "n' = (if interrupted a i w then n + 1 else n) \<and> steady k w' \<and>
    (\<forall>i'. task_ready a i' w \<longrightarrow> task_ready a i' w' \<and>
       task_view a i' w' = (if i' = i \<and> interrupted a i w then Some TASK_FAILED else task_view a i' w))"
proof (cases "interrupted a i w")
  case True
  then obtain s where s: "task_view a i w = Some s" "active s" by (auto simp: interrupted_def split: option.splits)
  obtain r v where r: "task_read_state a i w = (r, v)" by fastforce
  then have v: "v = w" "r = Inr s" using task_read_state_view [OF assms(1) r, of s] s by auto
  obtain w1 where 1: "task_set_state a i TASK_FAILED w = (Inr (), w1)" "steady (Suc k) w1"
    using task_set_state_steady [OF assms(1,2)] by blast
  note d1 = task_set_state_done [OF assms(1) 1(1)]
  have r1: "task_ready a i w1" using d1(2) [OF assms(1)] by blast
  obtain w2 where 2: "task_set_status a i ''failed: interrupted by restart'' w1 = (Inr (), w2)" "steady k w2"
    "task_touch a i ''status'' w1 w2"
    using write_text_line_steady [OF r1 1(2) task_files_mem(2), of "''failed: interrupted by restart''"]
    by (auto simp: task_set_status_def)
  have r2: "task_ready a i w2" by (rule task_touch_ready [OF 2(3) r1])
  obtain w3 where 3: "snd (task_append_event a i ''recovery: interrupted'' w2) = w3" "steady k w3"
    "task_touch a i ''events.log'' w2 w3"
    using task_append_event_steady [OF r2 2(2)] by blast
  have fin: "n' = n + 1" "w' = w3"
    using assms(3) r v s(2) 1(1) 2(1) 3(1) by (auto simp: recover_one_def Let_def)
  have "task_ready a i' w3 \<and> task_view a i' w3 = (if i' = i then Some TASK_FAILED else task_view a i' w)"
    if t: "task_ready a i' w" for i'
  proof -
    have t1: "task_ready a i' w1" using d1(2) [OF t] by blast
    have t2: "task_ready a i' w2" by (rule task_touch_ready [OF 2(3) t1])
    show ?thesis
      using d1(1) d1(2) [OF t] task_touch_view [OF 2(3) t1] task_touch_view [OF 3(3) t2]
        task_touch_ready [OF 3(3) t2] by auto
  qed
  then show ?thesis using True fin 3(2) by auto
next
  case False
  obtain r v where r: "task_read_state a i w = (r, v)" by fastforce
  have "v = w" using task_read_state_view [OF assms(1) r] by blast
  moreover have "\<not> active s" if "r = Inr s" for s
    using task_read_state_view [OF assms(1) r, of s] that False by (simp add: interrupted_def)
  ultimately have "n' = n" "w' = w" using assms(3) r by (auto simp: recover_one_def split: sum.splits if_splits)
  then show ?thesis using False steady_mono [OF assms(2), of k] by simp
qed

lemma recover_fold:
  assumes "\<forall>i \<in> set is. task_ready a i w" "steady (3 * length is) w" "fold (recover_one a) is (n, w) = (n', w')"
  shows "n' = n + card {i \<in> set is. interrupted a i w} \<and>
    (\<forall>i. task_ready a i w \<longrightarrow> task_ready a i w' \<and>
       task_view a i w' = (if i \<in> set is \<and> interrupted a i w then Some TASK_FAILED else task_view a i w))"
  using assms
proof (induction "is" arbitrary: n w)
  case (Cons i "is")
  obtain n1 w1 where 1: "recover_one a i (n, w) = (n1, w1)" by fastforce
  have r: "task_ready a i w" using Cons.prems(1) by simp
  have "steady (Suc (Suc (Suc (3 * length is)))) w" using Cons.prems(2) by (rule steady_mono) simp
  note s = recover_one_spec [OF r this 1]
  have v: "task_view a i' w1 = (if i' = i \<and> interrupted a i w then Some TASK_FAILED else task_view a i' w)"
    if "task_ready a i' w" for i' using s that by blast
  have int: "interrupted a i' w1 \<longleftrightarrow> interrupted a i' w \<and> i' \<noteq> i" if "task_ready a i' w" for i'
    using v [OF that] by (auto simp: interrupted_def active_def)
  have all: "\<forall>i \<in> set is. task_ready a i w1" using Cons.prems(1) s by simp
  have ih: "n' = n1 + card {i \<in> set is. interrupted a i w1} \<and>
      (\<forall>i. task_ready a i w1 \<longrightarrow> task_ready a i w' \<and>
       task_view a i w' = (if i \<in> set is \<and> interrupted a i w1 then Some TASK_FAILED else task_view a i w1))"
    by (rule Cons.IH [OF all]) (use s Cons.prems(3) 1 in simp_all)
  define S where "S = {j \<in> set (i # is). interrupted a j w}"
  have fin: "finite S" by (simp add: S_def)
  have "{j \<in> set is. interrupted a j w1} = S - {i}" using int Cons.prems(1) by (auto simp: S_def)
  moreover have "card (S - {i}) + (if i \<in> S then 1 else 0) = card S"
    using card.remove [OF fin, of i] by (cases "i \<in> S") simp_all
  moreover have "n1 = n + (if i \<in> S then 1 else 0)" using s by (simp add: S_def)
  ultimately have "n' = n + card {j \<in> set (i # is). interrupted a j w}" using ih unfolding S_def by simp
  moreover have "task_ready a j w' \<and> task_view a j w' =
      (if j \<in> set (i # is) \<and> interrupted a j w then Some TASK_FAILED else task_view a j w)"
    if "task_ready a j w" for j
    using ih s v [OF that] int [OF that] that by auto
  ultimately show ?case by blast
qed simp

lemma update_absent: "map_of al k = None \<Longrightarrow> AList.update k v al = al @ [(k, v)]"
  by (induction al) auto

lemma dir_entries_link:
  "CHR ''/'' \<notin> set l \<Longrightarrow> map_of t (join b l) = None \<Longrightarrow>
     dir_entries (AList.update (join b l) i t) (join (join b k) m) = dir_entries t (join (join b k) m)"
proof -
  assume l: "CHR ''/'' \<notin> set l" and n: "map_of t (join b l) = None"
  have "\<not> starts_with (join (join (join b k) m) []) (join b l)"
  proof
    assume "starts_with (join (join (join b k) m) []) (join b l)"
    then obtain r where "join b l = join (join (join b k) m) [] @ r" by (auto simp: starts_with_iff)
    then have "l = join k (join m r)" by (simp add: join_def)
    with l show False by simp
  qed
  then show ?thesis by (simp add: update_absent [OF n] dir_entries_def)
qed

lemma tasks_root_ready:
  assumes "has_layout a w" "length (agent_base a w) + 80 < MAX_PATHBUF"
  obtains w' where "tasks_root a w = (Inr (tasks_at a w), w')"
    and "extends (\<lambda>q. q = join (agent_base a w) ''tasks'') w w'" and "tmps w' = tmps w"
    and "dir_entries (fs w') (tasks_at a w) = dir_entries (fs w) (tasks_at a w)"
proof -
  let ?b = "agent_base a w"
  have k: "leaf_class ''tasks'' = ''data''" by code_simp
  have q: "sched w = []" using assms(1) by (simp add: has_layout_def)
  have l: "validate_name a" "length ?b < MAX_PATHBUF" "length (join ?b ''config'') < MAX_PATHBUF"
    "dir_at w (join ?b ''config'')" using assms by (auto simp: has_layout_def)
  obtain i where "sys_stat (join ?b ''config'') w = (Inr i, w)" using dir_at_stat [OF l(4) q] by blast
  then have m: "migrate_layout a (join ?b ''config'') w = (Inr (), w)" by (simp add: migrate_layout_def)
  have "agent_dir a w = Inr ?b" "agent_config_dir a w = Inr (join ?b ''config'')" using l by simp_all
  then have "tasks_root a w = (Inr (tasks_at a w), ensure_legacy_link ?b ''tasks'' ''data'' w)"
    using assms(2) m
    by (simp add: tasks_root_def agent_path_def k fit_ok Let_def tasks_at_def del: agent_dir_Inr agent_subdir_Inr)
  moreover have "dir_entries (fs (ensure_legacy_link ?b ''tasks'' ''data'' w)) (tasks_at a w) =
      dir_entries (fs w) (tasks_at a w)"
    using q dir_entries_link [of "''tasks''" "fs w" ?b]
    by (auto simp: ensure_legacy_link_def sys_lstat_def sys_symlink_def put_inode_def tasks_at_def split: option.splits)
  ultimately show ?thesis
    using that ensure_legacy_link_extends [OF q, of ?b "''tasks''" "''data''"] by simp
qed

lemma task_ready_link:
  assumes "extends (\<lambda>q. q = join (agent_base a w) ''tasks'') w w'" "task_ready a i w"
  shows "task_ready a i w' \<and> task_view a i w' = task_view a i w"
proof -
  have ar: "aroot w' = aroot w" using extends_fields [OF assms(1)] by blast
  have ne: "task_path a i l w \<noteq> join (agent_base a w) ''tasks''" for l
    by (auto simp: task_path_def tasks_at_def join_def)
  then have same: "map_of (fs w') (task_path a i l w) = map_of (fs w) (task_path a i l w)" for l
    by (rule extends_other [OF assms(1)])
  then have "task_view a i w' = task_view a i w"
    by (simp add: task_view_def task_path_cong [OF ar] contents_def)
  moreover have "task_ready a i w'"
    using assms(2) same extends_layout [OF assms(1)] extends_dir_at [OF assms(1)]
    by (auto simp: task_ready_def agent_base_cong [OF ar] tasks_at_def task_path_cong [OF ar] list_all_iff
        intro: plain_cong)
  ultimately show ?thesis by blast
qed

lemma steady_link:
  assumes "steady k w" "extends (\<lambda>q. q = join b ''tasks'') w w'" "tmps w' = tmps w"
  shows "steady k w'"
proof -
  have "tmp_free w (join b ''tasks'')"
    using assms(1) by (intro tmp_free_leaf) (auto simp: steady_def)
  moreover have f: "frame (\<lambda>q. q = join b ''tasks'') w (fds w) w'" using assms(2) by (simp add: extends_def)
  ultimately show ?thesis by (intro steady_extends [OF assms(1) f assms(3)]) auto
qed

text \<open>The identifiers an agent's tasks are visited by.\<close>

definition ids_of :: "string \<Rightarrow> world \<Rightarrow> string list" where
  "ids_of a w = task_ids (dir_entries (fs w) (tasks_at a w))"

lemma task_ids_dots: "task_ids (''.'' # ''..'' # es) = task_ids es"
proof -
  have "\<not> task_validate_id ''.''" "\<not> task_validate_id ''..''" by code_simp+
  then show ?thesis by (simp add: task_ids_def)
qed

lemma task_iterate_ready:
  assumes "has_layout a w" "length (agent_base a w) + 80 < MAX_PATHBUF" "dir_at w (tasks_at a w)"
  obtains w1 where "task_iterate a cb (s, w) = fold cb (ids_of a w) (s, w1)"
    and "extends (\<lambda>q. q = join (agent_base a w) ''tasks'') w w1" and "tmps w1 = tmps w"
proof -
  obtain w1 where w1: "tasks_root a w = (Inr (tasks_at a w), w1)"
    "extends (\<lambda>q. q = join (agent_base a w) ''tasks'') w w1" "tmps w1 = tmps w"
    "dir_entries (fs w1) (tasks_at a w) = dir_entries (fs w) (tasks_at a w)"
    using tasks_root_ready [OF assms(1,2)] by blast
  have q: "sched w1 = []" using extends_fields [OF w1(2)] assms(1) by (simp add: has_layout_def)
  have d: "dir_at w1 (tasks_at a w)" by (rule extends_dir_at [OF w1(2) assms(3)])
  then have "follow (fs w1) (tasks_at a w) = Inr (tasks_at a w)"
    by (auto simp: dir_at_iff intro: follow_nolink)
  then have "sys_opendir (tasks_at a w) w1 = (Inr (''.'' # ''..'' # dir_entries (fs w) (tasks_at a w)), w1)"
    using q dir_at_is_dir [OF d] w1(4) by (simp add: sys_opendir_def)
  with w1 that show ?thesis by (simp add: task_iterate_def ids_of_def task_ids_dots)
qed

section \<open>Allocation\<close>

lemma digits_val_zeros: "digits_val (replicate k (CHR ''0'') @ ds) = digits_val ds"
proof -
  have "foldl (\<lambda>a c. 10 * a + digit_val c) 0 (replicate k (CHR ''0'')) = 0"
    by (induction k) (simp_all add: digit_val_def)
  then show ?thesis by (simp add: digits_val_def)
qed

lemma strtol_pad0: "int n \<le> LONG_MAX \<Longrightarrow> fst (strtol (pad0 k (dec_nat n))) = int n"
proof -
  assume n: "int n \<le> LONG_MAX"
  have "c_isdigit c" if "c \<in> set (pad0 k (dec_nat n))" for c
    using that dec_nat_digits [of c n] by (auto simp: pad0_def c_isdigit_def)
  then have "strtol (pad0 k (dec_nat n) @ []) = (int (digits_val (pad0 k (dec_nat n))), [], False)"
    using n by (intro strtol_digits) (simp_all add: pad0_def digits_val_zeros no_digit_ahead_def)
  then show ?thesis by (simp add: pad0_def digits_val_zeros)
qed

lemma hd_pad0_dec: "hd (pad0 k (dec_int y)) \<noteq> CHR ''.''"
proof -
  have "hd (dec_int y) \<noteq> CHR ''.''"
    using hd_dec_nat_digit [of "nat y"] by (auto simp: dec_int_def c_isdigit_def)
  then show ?thesis by (cases "k - length (dec_int y)") (simp_all add: pad0_def)
qed

lemma entry_seq_text:
  assumes "0 \<le> v" "v \<le> LONG_MAX"
  shows "entry_seq (task_id_text t v) = Some v"
proof -
  have d: "dec_int v = dec_nat (nat v)" using assms(1) by (simp add: dec_int_def)
  have nd: "CHR ''-'' \<notin> set (pad0 4 (dec_nat (nat v)))"
    using set_pad0 [of 4 "dec_nat (nat v)"] dec_nat_digits [of "CHR ''-''" "nat v"] by (auto simp: c_isdigit_def)
  have "split_last (CHR ''-'') (task_id_text t v) = Some (stamp_basic (gmtime_r t), pad0 4 (dec_nat (nat v)))"
    using split_last_found [OF nd] by (simp add: task_id_text_def d)
  moreover have "pad0 4 (dec_int (tm_year (gmtime_r t))) \<noteq> []"
    using length_pad0 [of 4 "dec_int (tm_year (gmtime_r t))"] by auto
  then have "\<not> starts_with ''.'' (task_id_text t v)"
    using hd_pad0_dec [of 4 "tm_year (gmtime_r t)"]
    by (cases "pad0 4 (dec_int (tm_year (gmtime_r t)))")
      (auto simp: task_id_text_def stamp_basic_def starts_with_def)
  ultimately show ?thesis using strtol_pad0 [of "nat v" 4] assms by (simp add: entry_seq_def)
qed

lemma max_seq_fold:
  fixes f :: "string list \<Rightarrow> int \<Rightarrow> int"
  defines "f \<equiv> fold (\<lambda>e m. case entry_seq e of Some v \<Rightarrow> if v > m then v else m | None \<Rightarrow> m)"
  shows "m \<le> f es m \<and> (\<forall>e \<in> set es. \<forall>v. entry_seq e = Some v \<longrightarrow> v \<le> f es m) \<and>
    (f es m = m \<or> f es m \<le> LONG_MAX)"
  unfolding f_def
proof (induction es arbitrary: m)
  case (Cons e es)
  have "v \<le> LONG_MAX" if "entry_seq e = Some v" for v
    using that strtol_range by (auto simp: entry_seq_def split: if_splits option.splits)
      (metis prod.collapse strtol_range)
  then show ?case
    using Cons.IH [of m] Cons.IH [of "the (entry_seq e)"] by (cases "entry_seq e") force+
qed simp

lemma max_seq_bounds:
  "0 \<le> max_seq es \<and> max_seq es \<le> LONG_MAX \<and> (\<forall>e \<in> set es. \<forall>v. entry_seq e = Some v \<longrightarrow> v \<le> max_seq es)"
  using max_seq_fold [where m = 0 and es = es] by (auto simp: max_seq_def LONG_MAX_def)

lemma wrap_long_id: "LONG_MIN \<le> v \<Longrightarrow> v \<le> LONG_MAX \<Longrightarrow> wrap_long v = v"
  by (simp add: wrap_long_def LONG_MIN_def LONG_MAX_def)

lemma bump_seq_None: "bump_seq a g = None \<longleftrightarrow> map_of g a = None"
  by (induction a g rule: bump_seq.induct) auto

lemma bump_seq_Some: "bump_seq a g = Some (v, g') \<Longrightarrow>
    map_of g' a = Some v \<and> (\<exists>n. map_of g a = Some n \<and> v = wrap_long (n + 1))"
  by (induction a g arbitrary: g' v rule: bump_seq.induct) (auto split: if_splits)

text \<open>
  What the table knows of an agent is an upper bound of the sequence numbers on disk; the
  number handed out next is one more than \<open>seq_top\<close>.
\<close>

definition seq_bound :: "seq_table \<Rightarrow> string \<Rightarrow> string list \<Rightarrow> bool" where
  "seq_bound g agent es \<longleftrightarrow> (case map_of g agent of
       None \<Rightarrow> True | Some n \<Rightarrow> 0 \<le> n \<and> max_seq es \<le> n)"

definition seq_top :: "seq_table \<Rightarrow> string \<Rightarrow> string list \<Rightarrow> int" where
  "seq_top g agent es = (case map_of g agent of None \<Rightarrow> max_seq es | Some n \<Rightarrow> n)"

lemma max_seq_dots: "max_seq (''.'' # ''..'' # es) = max_seq es"
  by (simp add: max_seq_def entry_seq_def starts_with_def)

lemma max_seq_Cons: "0 \<le> v \<Longrightarrow> entry_seq e = Some v \<Longrightarrow> max_seq es \<le> v \<Longrightarrow> max_seq (e # es) \<le> v"
proof -
  assume v: "0 \<le> v" "entry_seq e = Some v" "max_seq es \<le> v"
  have le: "\<forall>e \<in> set es. \<forall>x. entry_seq e = Some x \<longrightarrow> x \<le> v"
    using max_seq_bounds [of es] v(3) by fastforce
  have "fold (\<lambda>e m. case entry_seq e of Some v \<Rightarrow> if v > m then v else m | None \<Rightarrow> m) es m \<le> v" if "m \<le> v" for m
    using le that by (induction es arbitrary: m) (auto split: option.splits)
  then show ?thesis using v by (simp add: max_seq_def)
qed

lemma load_max_seq_ready:
  assumes "has_layout a w" "length (agent_base a w) + 80 < MAX_PATHBUF" "dir_at w (tasks_at a w)"
  shows "\<exists>w1. load_max_seq a w = (max_seq (dir_entries (fs w) (tasks_at a w)), w1)"
proof -
  obtain w1 where w1: "tasks_root a w = (Inr (tasks_at a w), w1)"
    "extends (\<lambda>q. q = join (agent_base a w) ''tasks'') w w1"
    "dir_entries (fs w1) (tasks_at a w) = dir_entries (fs w) (tasks_at a w)"
    using tasks_root_ready [OF assms(1,2)] by blast
  have q: "sched w1 = []" using extends_fields [OF w1(2)] assms(1) by (simp add: has_layout_def)
  have d: "dir_at w1 (tasks_at a w)" by (rule extends_dir_at [OF w1(2) assms(3)])
  then have "follow (fs w1) (tasks_at a w) = Inr (tasks_at a w)"
    by (auto simp: dir_at_iff intro: follow_nolink)
  then show ?thesis
    using q dir_at_is_dir [OF d] w1 by (simp add: sys_opendir_def load_max_seq_def max_seq_dots)
qed

lemma get_next_seq_ready:
  assumes "has_layout a w" "length (agent_base a w) + 80 < MAX_PATHBUF" "dir_at w (tasks_at a w)"
    and "seq_bound g a (dir_entries (fs w) (tasks_at a w))"
    and "seq_top g a (dir_entries (fs w) (tasks_at a w)) < LONG_MAX"
    and "get_next_seq a g w = (v, g', w')"
  shows "v = seq_top g a (dir_entries (fs w) (tasks_at a w)) + 1 \<and> 0 < v \<and>
    max_seq (dir_entries (fs w) (tasks_at a w)) < v \<and> (map_of g' a = None \<or> map_of g' a = Some v)"
proof (cases "bump_seq a g")
  case (Some vg)
  obtain v1 g1 where vg: "vg = (v1, g1)" by fastforce
  obtain n where n: "map_of g' a = Some v" "map_of g a = Some n" "v = wrap_long (n + 1)"
    using bump_seq_Some [of a g v g'] Some vg assms(6) by (auto simp: get_next_seq_def)
  then show ?thesis
    using assms(4,5) by (auto simp: seq_bound_def seq_top_def wrap_long_id LONG_MIN_def)
next
  case None
  then have m: "map_of g a = None" by (simp add: bump_seq_None)
  let ?m = "max_seq (dir_entries (fs w) (tasks_at a w))"
  obtain w1 where l: "load_max_seq a w = (?m, w1)" using load_max_seq_ready [OF assms(1-3)] by blast
  have w: "wrap_long (?m + 1) = ?m + 1"
    using assms(5) m max_seq_bounds [of "dir_entries (fs w) (tasks_at a w)"]
    by (intro wrap_long_id) (auto simp: seq_top_def LONG_MIN_def)
  then show ?thesis
    using assms(6) None l m max_seq_bounds [of "dir_entries (fs w) (tasks_at a w)"]
    by (auto simp: get_next_seq_def seq_top_def Let_def map_add_def split: if_splits option.splits)
qed

section \<open>Properties\<close>

text \<open>The agent of the small file tree with two tasks, for the instances below.\<close>

definition demo_tasks :: world where
  "demo_tasks = demo_world\<lparr>fs := fs demo_world @
     (let d = \<lparr>kind = Dir, imode = 448, iuid = 1000\<rparr>; b = ''/r/agents/a/data/tasks'' in
      [(b, d), (b @ ''/t1'', d), (b @ ''/t2'', d),
       (b @ ''/t1/state'', \<lparr>kind = Reg (''running'' @ [NL]), imode = 384, iuid = 1000\<rparr>),
       (b @ ''/t2/state'', \<lparr>kind = Reg (''completed'' @ [NL]), imode = 384, iuid = 1000\<rparr>)]),
     tmps := [''aaaaaa'', ''bbbbbb'', ''cccccc'', ''dddddd'', ''eeeeee'', ''ffffff'']\<rparr>"

lemma demo_tasks_base: "agent_base ''a'' demo_tasks = ''/r/agents/a''"
  "tasks_at ''a'' demo_tasks = ''/r/agents/a/data/tasks''"
  by (simp_all add: tasks_at_def agent_root_def demo_tasks_def demo_world_def world0_def join_def)

lemma demo_tasks_layout: "has_layout ''a'' demo_tasks" "length (agent_base ''a'' demo_tasks) + 80 < MAX_PATHBUF"
  "dir_at demo_tasks (tasks_at ''a'' demo_tasks)"
proof -
  have v: "validate_name ''a''" by code_simp
  have d: "dir_at demo_tasks ''/r/agents/a''" "dir_at demo_tasks ''/r/agents/a/config''"
    "dir_at demo_tasks ''/r/agents/a/runtime''" "dir_at demo_tasks ''/r/agents/a/data''"
    "dir_at demo_tasks ''/r/agents/a/data/tasks''"
    by code_simp+
  have "sched demo_tasks = []" by (simp add: demo_tasks_def demo_world_def world0_def)
  with v d show "has_layout ''a'' demo_tasks" "dir_at demo_tasks (tasks_at ''a'' demo_tasks)"
    unfolding has_layout_def demo_tasks_base by (simp_all add: MAX_PATHBUF_def join_def)
  show "length (agent_base ''a'' demo_tasks) + 80 < MAX_PATHBUF"
    unfolding demo_tasks_base by (simp add: MAX_PATHBUF_def)
qed

lemma demo_tasks_ready: "task_ready ''a'' ''t1'' demo_tasks" "task_ready ''a'' ''t2'' demo_tasks"
proof -
  have "task_validate_id ''t1''" "task_validate_id ''t2''"
    "dir_at demo_tasks ''/r/agents/a/data/tasks/t1''" "dir_at demo_tasks ''/r/agents/a/data/tasks/t2''" by code_simp+
  moreover have "list_all (\<lambda>l. plain demo_tasks (task_path ''a'' ''t1'' l demo_tasks)) task_files"
    "list_all (\<lambda>l. plain demo_tasks (task_path ''a'' ''t2'' l demo_tasks)) task_files" by code_simp+
  ultimately show "task_ready ''a'' ''t1'' demo_tasks" "task_ready ''a'' ''t2'' demo_tasks"
    using demo_tasks_layout unfolding task_ready_def demo_tasks_base by (simp_all add: join_def)
qed



text \<open>
  C19. A fresh identifier. When the process's table bounds the sequence numbers on disk and
  the counter is not exhausted, the identifier handed out names no existing task, and the
  table bounds the numbers also once that task exists; so identifiers handed out one after
  the other never collide.
\<close>

theorem task_alloc_fresh:
  assumes "has_layout a w" "length (agent_base a w) + 80 < MAX_PATHBUF" "dir_at w (tasks_at a w)"
    and "seq_bound g a (dir_entries (fs w) (tasks_at a w))"
    and "seq_top g a (dir_entries (fs w) (tasks_at a w)) < LONG_MAX"
    and "task_alloc_id a n g w = (Inr i, g', w')"
  shows "i \<notin> set (dir_entries (fs w) (tasks_at a w)) \<and>
    seq_bound g' a (i # dir_entries (fs w) (tasks_at a w)) \<and> length i < n"
proof -
  let ?es = "dir_entries (fs w) (tasks_at a w)"
  obtain v where v: "get_next_seq a g w = (v, g', w')" "i = task_id_text (now w') v" "length i < n"
    using assms(6) by (auto simp: task_alloc_id_def split: if_splits prod.splits)
  note nx = get_next_seq_ready [OF assms(1-5) v(1)]
  have e: "entry_seq i = Some v"
    unfolding v(2) by (rule entry_seq_text) (use nx assms(5) in auto)
  have "i \<notin> set ?es"
  proof
    assume "i \<in> set ?es"
    then have "v \<le> max_seq ?es" using e max_seq_bounds [of ?es] by blast
    with nx show False by simp
  qed
  moreover have "max_seq (i # ?es) \<le> v" by (rule max_seq_Cons [OF _ e]) (use nx in auto)
  ultimately show ?thesis using nx v(3) by (auto simp: seq_bound_def split: option.splits)
qed

theorem task_alloc_fresh_witness:
  "\<exists>i g' w'. task_alloc_id ''a'' MAX_TASK_ID [(''a'', 4)] demo_tasks = (Inr i, g', w') \<and>
     i \<notin> set (dir_entries (fs demo_tasks) (tasks_at ''a'' demo_tasks))"
proof -
  have e: "gmtime_r 0 = \<lparr>tm_year = 1970, tm_mon = 1, tm_mday = 1, tm_hour = 0, tm_min = 0, tm_sec = 0\<rparr>"
    by code_simp
  have "length (task_id_text 0 5) < MAX_TASK_ID"
    by (simp add: task_id_text_def stamp_basic_def e length_pad0 dec_int_def dec_nat.simps MAX_TASK_ID_def)
  moreover have "now demo_tasks = 0" "validate_name ''a''" by code_simp+
  moreover have "wrap_long 5 = 5" by (simp add: wrap_long_def)
  ultimately have r: "task_alloc_id ''a'' MAX_TASK_ID [(''a'', 4)] demo_tasks =
      (Inr (task_id_text 0 5), [(''a'', 5)], demo_tasks)"
    by (simp add: task_alloc_id_def get_next_seq_def fit_ok)
  have l: "seq_bound [(''a'', 4)] ''a'' (dir_entries (fs demo_tasks) (tasks_at ''a'' demo_tasks))"
    by code_simp
  have "seq_top [(''a'', 4)] ''a'' (dir_entries (fs demo_tasks) (tasks_at ''a'' demo_tasks)) < LONG_MAX"
    by (simp add: seq_top_def LONG_MAX_def)
  from task_alloc_fresh [OF demo_tasks_layout l this r] r show ?thesis by blast
qed

text \<open>
  C20. Creating a task never touches an existing one. When a file or directory of the task's
  name exists already, \<open>task_create\<close> fails and leaves every path of the tree as it was, the
  compatibility link of the tasks directory apart.
\<close>

theorem task_create_never_overwrites:
  assumes "has_layout a w" "length (agent_base a w) + 80 < MAX_PATHBUF" "dir_at w (tasks_at a w)"
    and "map_of (fs w) (join (tasks_at a w) i) \<noteq> None" "task_create a i m w = (r, w')"
  shows "isl r \<and> (\<forall>q. q = join (agent_base a w) ''tasks'' \<or> map_of (fs w') q = map_of (fs w) q)"
proof (cases "task_validate_id i")
  case True
  obtain w1 where w1: "tasks_root a w = (Inr (tasks_at a w), w1)"
    and ext: "extends (\<lambda>q. q = join (agent_base a w) ''tasks'') w w1"
    by (rule tasks_root_ready [OF assms(1,2)])
  have q: "sched w1 = []" and ar: "aroot w1 = aroot w"
    using extends_fields [OF ext] assms(1) by (auto simp: has_layout_def)
  have l1: "has_layout a w1" by (rule extends_layout [OF ext assms(1)])
  have d: "dir_at w1 (tasks_at a w)" by (rule extends_dir_at [OF ext assms(3)])
  have 2: "ensure_dir (tasks_at a w) 448 w1 = (Inr (), w1)"
    using d q dir_at_stat [OF d q] by (auto simp: ensure_dir_def sys_mkdir_def dir_at_iff)
  have rel: "task_rel i [] = join ''tasks'' i" by (simp add: task_rel_def join_def)
  have p: "join (join (agent_base a w1) (leaf_class (task_rel i []))) (task_rel i []) = join (tasks_at a w) i"
    using leaf_class_slash [of "task_rel i []"]
    by (simp add: rel tasks_at_def join_join agent_base_cong [OF ar])
  have len: "length (join (tasks_at a w) i) < MAX_PATHBUF" "length (task_rel i []) < 256"
    using task_validate_id_length [OF True] assms(2) by (simp_all add: tasks_at_def rel)
  have "agent_path MAX_PATHBUF a (task_rel i []) w1 = (Inr (join (tasks_at a w) i), w1)"
    by (rule agent_path_slash [OF l1 _, where leaf = "task_rel i []" and n = MAX_PATHBUF, unfolded p, OF _ len(1)])
      (simp add: rel)
  then have 3: "task_dir a i w1 = (Inr (join (tasks_at a w) i), w1)"
    using len True by (simp add: task_dir_def task_leaf_path_def fit_ok)
  have "map_of (fs w1) (join (tasks_at a w) i) \<noteq> None" using assms(4) extends_keeps [OF ext] by auto
  then have "sys_mkdir (join (tasks_at a w) i) 448 w1 = (Inl EEXIST, w1)" using q by (simp add: sys_mkdir_def)
  then have "task_create a i m w = (Inl EEXIST, w1)"
    using True w1 2 3 by (simp add: task_create_def make_task_dirs_def)
  then show ?thesis using assms(5) extends_other [OF ext] by auto
qed (use assms(5) in \<open>auto simp: task_create_def\<close>)

theorem task_create_never_overwrites_witness:
  "\<exists>r w'. task_create ''a'' ''t2'' \<lparr>verb = None, sender = None, sender_pid = 1, sender_uid = 0, reply_to = [],
       incoming_task_id = [], payload = []\<rparr> demo_tasks = (r, w') \<and> isl r \<and>
     contents w' ''/r/agents/a/data/tasks/t2/state'' = Some (''completed'' @ [NL])"
proof -
  let ?m = "\<lparr>verb = None, sender = None, sender_pid = 1, sender_uid = 0, reply_to = [],
       incoming_task_id = [], payload = []\<rparr>"
  obtain r w' where r: "task_create ''a'' ''t2'' ?m demo_tasks = (r, w')" by fastforce
  have e: "map_of (fs demo_tasks) (join (tasks_at ''a'' demo_tasks) ''t2'') \<noteq> None" by code_simp
  note * = task_create_never_overwrites [OF demo_tasks_layout e r]
  have ne: "''/r/agents/a/data/tasks/t2/state'' \<noteq> join (agent_base ''a'' demo_tasks) ''tasks''" by code_simp
  have c: "contents demo_tasks ''/r/agents/a/data/tasks/t2/state'' = Some (''completed'' @ [NL])" by code_simp
  have "map_of (fs w') ''/r/agents/a/data/tasks/t2/state'' = map_of (fs demo_tasks) ''/r/agents/a/data/tasks/t2/state''"
    using * ne by blast
  with c * r show ?thesis by (auto simp: contents_def)
qed

text \<open>
  C21. Task states form a store: after any sequence of successful state changes of an
  agent's tasks, reading a task's state returns the last one written to it, and the states
  of all other tasks are what they were.
\<close>

theorem task_states_last_write:
  assumes "puts put_task kvs w = Some w'" "\<forall>(k, v) \<in> set kvs. task_ready (fst k) (snd k) w"
    and "task_ready (fst k) (snd k) w"
  shows "fst (get_task k w') = (case map_of (rev kvs) k of Some v \<Rightarrow> Some v | None \<Rightarrow> fst (get_task k w))"
  by (rule task_states.puts_last [OF assms(1) _ assms(3)]) (use assms(2) in auto)

theorem task_states_last_write_witness:
  "\<exists>w'. puts put_task [((''a'', ''t1''), TASK_CANCELLED)] demo_tasks = Some w' \<and>
     fst (get_task (''a'', ''t1'') w') = Some TASK_CANCELLED \<and>
     fst (get_task (''a'', ''t2'') w') = fst (get_task (''a'', ''t2'') demo_tasks)"
proof -
  let ?kvs = "[((''a'', ''t1''), TASK_CANCELLED)]"
  note rd = demo_tasks_ready
  have st: "steady (Suc (Suc 0)) demo_tasks" by (rule steady_check) code_simp
  obtain w' where "task_set_state ''a'' ''t1'' TASK_CANCELLED demo_tasks = (Inr (), w')"
    using task_set_state_steady [OF rd(1) st] by blast
  then have p: "puts put_task ?kvs demo_tasks = Some w'" by (simp add: put_task_def)
  show ?thesis
    using p task_states_last_write [OF p, of "(''a'', ''t1'')"] task_states_last_write [OF p, of "(''a'', ''t2'')"] rd
    by simp
qed

end
