(* ===== verification/Start.thy ===== *)
theory Start
  imports Fleet
begin

text \<open>
  What a start of a runtime by the supervisor leaves behind, under every schedule of failing
  system calls: which descriptors are open, which processes exist, and what the table of
  managed agents knows of them.
\<close>

section \<open>Processes and sockets while a runtime is prepared\<close>

lemma amb_locate_in [amb_intros]: "ambient w = a \<Longrightarrow> amb a (locate_in n g ds w)"
proof (induction ds arbitrary: w)
  case (Cons x xs)
  show ?case unfolding locate_in.simps Let_def
    by (intro amb_intros Cons.IH) (use Cons.prems in simp_all)
qed (simp add: amb_def)

lemma amb_profile_locate [amb_intros]: "ambient w = a \<Longrightarrow> amb a (profile_locate g x n w)"
  unfolding profile_locate_def by (intro amb_intros)

lemma amb_profile_read_raw [amb_intros]: "ambient w = a \<Longrightarrow> amb a (profile_read_raw g x n w)"
  unfolding profile_read_raw_def Let_def by (intro amb_intros) simp_all

lemma amb_profile_load [amb_intros]: "ambient w = a \<Longrightarrow> amb a (profile_load_for_agent g x out w)"
  unfolding profile_load_for_agent_def profile_load_by_name_def agent_profile_name_def Let_def
  by (auto intro!: amb_intros)

lemma amb_write_req [amb_intros]: "ambient w = a \<Longrightarrow> amb a (enforcement_write_req x s w)"
  unfolding enforcement_write_req_def by (auto intro!: amb_intros)

lemma amb_write_str [amb_intros]: "ambient w = a \<Longrightarrow> amb a (write_str p v w)"
  unfolding write_str_def by (intro amb_intros) (simp_all add: amb_def split: sum.splits)

lemma amb_cgroup_limit: "ambient w = a \<Longrightarrow> amb a (cgroup_limit f dir l v (st, w))"
  unfolding cgroup_limit_def by (auto intro!: amb_intros)

lemma amb_cgroup_step: "amb a x \<Longrightarrow> amb a (if c then cgroup_limit f dir l v x else x)"
  by (cases x) (auto simp: amb_def intro!: ambD [OF amb_cgroup_limit])

lemma amb_parent_setup [amb_intros]: "ambient w = a \<Longrightarrow> amb a (enforcement_parent_setup f x spec w)"
proof -
  have m: "amb a (mkdir_ok p m w)" if "ambient w = a" for p m w
    using that unfolding mkdir_ok_def by (auto intro!: amb_intros)
  have "amb a (cgroup_setup_linux f x spec st w)" if "ambient w = a" for st w
    using that unfolding cgroup_setup_linux_def Let_def
    by (intro amb_cgroup_step amb_if amb_pair amb_case m amb_prod) simp_all
  then show "ambient w = a \<Longrightarrow> ?thesis"
    unfolding enforcement_parent_setup_def write_state_file_def Let_def by (auto intro!: amb_intros)
qed

lemma amb_attach_pid [amb_intros]: "ambient w = a \<Longrightarrow> amb a (enforcement_parent_attach_pid st pid w)"
  unfolding enforcement_parent_attach_pid_def cgroup_attach_pid_linux_def by (auto intro!: amb_intros)

lemma ambient_audit_all [simp]: "ambient (audit_all x ls w) = ambient w"
  by (induction ls arbitrary: w) (simp_all add: audit_all_def)

lemma amb_spawn_checks [amb_intros]: "ambient w = a \<Longrightarrow> amb a (spawn_checks h n r w)"
  unfolding spawn_checks_def by (intro amb_intros)

lemma amb_open_audit [amb_intros]: "ambient w = a \<Longrightarrow> amb a (open_audit n w)"
  unfolding open_audit_def by (intro amb_intros)

lemma amb_spawn_enforcement [amb_intros]: "ambient w = a \<Longrightarrow> amb a (spawn_enforcement h n l ov w)"
proof -
  have e: "ambient (snd (enforcement_write_req x s w)) = ambient w" for x s w
    by (intro ambD amb_intros refl)
  have x: "amb a (export_profiles_dir_once h w)" if "ambient w = a" for w
    using that unfolding export_profiles_dir_once_def Let_def by (intro amb_intros)
  show "ambient w = a \<Longrightarrow> ?thesis"
    unfolding spawn_enforcement_def Let_def
    by (intro amb_intros x) (simp_all add: amb_def e enforcement_audit_def split: prod.splits)
qed

definition running_child :: proc where
  "running_child = \<lparr>pchild = True, pzombie = None\<rparr>"

lemma procs_snd [simp]: "procs (snd (sys_close n w)) = procs w" "procs (snd (sys_open p fl m w)) = procs w"
  "procs (snd (sys_unlink p w)) = procs w" "procs (snd (sys_fcntl_fd n w)) = procs w" "procs (close_opt k w) = procs w"
  by (rule ambient_fields, simp)+

lemma procs_close_channel [simp]: "procs (close_channel c w) = procs w"
  by (simp add: close_channel_def split: option.splits)

lemma procs_socketpair: "procs (snd (sys_socketpair w)) = procs w"
  by (auto simp: sys_socketpair_def call_def new_fd_def Let_def split: list.splits fault.splits)

lemma procs_open_broker: "procs (snd (open_broker rd w)) = procs w"
proof -
  obtain r w1 where 1: "sys_socketpair w = (r, w1)" by fastforce
  have p1: "procs w1 = procs w" using procs_socketpair [of w] 1 by simp
  obtain x w2 where 2: "sys_open (join rd ''broker.lock'') [O_RDWR, O_CREAT, O_CLOEXEC] 384 w1 = (x, w2)" by fastforce
  have "procs w2 = procs w1" using procs_snd(2) 2 by (metis snd_conv)
  with 1 2 p1 show ?thesis by (auto simp: open_broker_def Let_def split: sum.splits)
qed

lemma procs_open_inbox: "procs (snd (open_inbox w)) = procs w"
  using procs_socketpair [of w] by (auto simp: open_inbox_def split: prod.splits sum.splits)

lemma fork_procs: "sys_fork w = (r, w') \<Longrightarrow> procs w' = (case r of Inl _ \<Rightarrow> procs w | Inr pid \<Rightarrow> AList.update pid running_child (procs w))"
  by (auto simp: sys_fork_def call_def running_child_def split: list.splits fault.splits)

lemma spawn_channels_procs:
  assumes "spawn_channels au True True rd w = (r, w')"
  shows "case r of Inl _ \<Rightarrow> procs w' = procs w
    | Inr (b, l, i, pid) \<Rightarrow> procs w' = AList.update pid running_child (procs w) \<and> b \<noteq> None \<and> i \<noteq> None"
proof -
  obtain x w1 where x: "open_broker rd w = (x, w1)" by fastforce
  obtain y w2 where y: "open_inbox w1 = (y, w2)" by fastforce
  obtain z w3 where z: "sys_fork w2 = (z, w3)" by fastforce
  have "procs w1 = procs w" "procs w2 = procs w1"
    using procs_open_broker [of rd w] procs_open_inbox [of w1] x y by auto
  then show ?thesis
    using assms x y z fork_procs [OF z]
    by (auto simp: spawn_channels_def opt_broker_def opt_inbox_def Let_def split: sum.splits)
qed

lemma spawn_prepare_procs:
  assumes "spawn_prepare h n rp l ov True True w = (r, w')"
  shows "case r of Inl _ \<Rightarrow> procs w' = procs w
    | Inr p \<Rightarrow> procs w' = AList.update (p_pid p) running_child (procs w) \<and> p_broker p \<noteq> None \<and> p_inbox p \<noteq> None"
proof -
  obtain c w1 where c: "spawn_checks h n rp w = (c, w1)" by fastforce
  obtain a w2 where a: "open_audit n w1 = (a, w2)" by fastforce
  obtain sp en ge w3 where se: "spawn_enforcement h n l ov w2 = ((sp, en, ge), w3)" by (metis surj_pair)
  have 1: "procs w1 = procs w" using ambient_fields(1) [OF ambD [OF amb_spawn_checks [OF refl]]] c by (metis snd_conv)
  have 2: "procs w2 = procs w1" using ambient_fields(1) [OF ambD [OF amb_open_audit [OF refl]]] a by (metis snd_conv)
  have 3: "procs w3 = procs w2" using ambient_fields(1) [OF ambD [OF amb_spawn_enforcement [OF refl]]] se by (metis snd_conv)
  show ?thesis
  proof (cases "\<exists>ra rd au. c = Inr (ra, rd) \<and> a = Inr au")
    case True
    then obtain ra rd au where ca: "c = Inr (ra, rd)" "a = Inr au" by blast
    obtain x w4 where x: "spawn_channels au True True rd w3 = (x, w4)" by fastforce
    show ?thesis using assms c a se x ca 1 2 3 spawn_channels_procs [OF x]
      by (auto simp: spawn_prepare_def split: sum.splits)
  next
    case False
    then show ?thesis using assms c a 1 2 by (auto simp: spawn_prepare_def split: sum.splits)
  qed
qed

section \<open>The parent after \<open>fork\<close>\<close>

lemma fds_wait_started [simp]: "fds (wait_started k p pid w) = fds w"
proof (induction k arbitrary: w)
  case (Suc k)
  have r: "fds (snd (read_small_file p 64 w)) = fds w" for w by (rule kfdD [OF kfd_read_small_file]) simp
  have a: "fds (snd (run_alive pid w)) = fds w" for w
    using kfdD [OF kfd_kill [OF refl], of pid 0 w] by (auto simp: run_alive_def split: prod.splits sum.splits)
  have e: "fds (fold apply_event es w) = fds w" for es w
  proof (induction es arbitrary: w)
    case (Cons e es)
    then show ?case by (cases e) (auto simp: put_inode_def split: option.splits)
  qed simp
  have "fds (sys_nanosleep w) = fds w" for w by (simp add: sys_nanosleep_def e split: list.splits)
  then show ?case using r [of w] a Suc.IH by (auto simp: Let_def split: prod.splits bool.splits) (metis snd_conv)+
qed simp

lemma close_child_ends_held:
  assumes "held d (opt_fd (p_audit p) @ chan_fds (p_broker p) @ opt_fd (p_lock p) @ chan_fds (p_inbox p)) w"
    and "p_broker p = Some b" "p_inbox p = Some i"
  shows "held d [ch_parent b, ch_parent i] (close_child_ends p w)"
proof -
  have "held d ([] @ opt_fd (p_audit p) @ (chan_fds (p_broker p) @ opt_fd (p_lock p) @ chan_fds (p_inbox p))) w"
    using assms(1) by simp
  from held_close_opt [OF this]
  have "held d ([ch_parent b] @ opt_fd (Some (ch_child b)) @ (opt_fd (p_lock p) @ [ch_parent i, ch_child i])) (close_opt (p_audit p) w)"
    using assms(2,3) by (simp add: chan_fds_def opt_fd_def)
  from held_close_opt [OF this]
  have "held d ((ch_parent b # opt_fd (p_lock p) @ [ch_parent i]) @ opt_fd (Some (ch_child i)) @ [])
     (close_opt (Some (ch_child b)) (close_opt (p_audit p) w))" by (simp add: opt_fd_def)
  from held_close_opt [OF this]
  have "held d ([ch_parent b] @ opt_fd (p_lock p) @ [ch_parent i])
     (close_opt (Some (ch_child i)) (close_opt (Some (ch_child b)) (close_opt (p_audit p) w)))" by simp
  from held_close_opt [OF this] show ?thesis using assms(2,3) by (simp add: close_child_ends_def)
qed

text \<open>
  \<open>started_runtime\<close>: from \<open>w\<close> to \<open>w'\<close> a runtime \<open>pid\<close> was forked, and the supervisor's ends of its
  broker and inbox channels, \<open>b\<close> and \<open>c\<close>, were opened and nothing else.
\<close>

definition started_runtime :: "int \<Rightarrow> nat \<Rightarrow> nat \<Rightarrow> world \<Rightarrow> world \<Rightarrow> bool" where
  "started_runtime pid b c w w' \<longleftrightarrow> held (fds w) [b, c] w' \<and> procs w' = AList.update pid running_child (procs w)"

lemma spawn_runtime_account:
  assumes "spawn_agent_runtime h n rp l ov True True w = ((r, sp), w')"
  shows "case r of
      Inl _ \<Rightarrow> fds w' = fds w \<and> procs w' = procs w \<or> (\<exists>pid b c. started_runtime pid b c w w')
    | Inr _ \<Rightarrow> \<exists>pid b c. held (fds w) [b, c] w' \<and> sp = \<lparr>sp_pid = Some pid, sp_broker = Some b, sp_inbox = Some c\<rparr>"
proof -
  let ?l = "or_direct l"
  obtain x w1 where x: "spawn_prepare h n rp ?l ov True True w = (x, w1)" by fastforce
  note held = spawn_prepare_held [where h = h and name = n and runtime_path = rp and label = ?l and ov = ov and
    want_broker = True and want_inbox = True and w = w, unfolded x prod.case]
  show ?thesis
  proof (cases x)
    case (Inl e)
    then show ?thesis using assms x held spawn_prepare_procs [OF x] by (auto simp: spawn_agent_runtime_def Let_def)
  next
    case (Inr p)
    then obtain b c where bc: "p_broker p = Some b" "p_inbox p = Some c"
      and pr: "procs w1 = AList.update (p_pid p) running_child (procs w)"
      using spawn_prepare_procs [OF x] by auto
    let ?w2 = "close_child_ends p w1"
    have h2: "held (fds w) [ch_parent b, ch_parent c] ?w2"
      using held Inr close_child_ends_held [OF _ bc] by simp
    have p2: "procs ?w2 = procs w1" by (simp add: close_child_ends_def)
    let ?wr = "with_path n ''pid'' (\<lambda>path. atomic_write_file path (dec_int (p_pid p) @ [NL]) 384)"
    obtain y w3 where y: "?wr ?w2 = (y, w3)" by fastforce
    have "kfd (fds ?w2) (?wr ?w2)" "amb (ambient ?w2) (?wr ?w2)" 
      by (rule kfd_with_path [OF refl], erule kfd_atomic_write) (rule amb_with_path [OF refl], erule amb_atomic_write)
    then have "fds w3 = fds ?w2" and p3: "procs w3 = procs ?w2"
      unfolding y kfd_def amb_def by (simp, metis ambient_fields(1) snd_conv)
    then have h3: "held (fds w) [ch_parent b, ch_parent c] w3" using held_keep [OF h2] by simp
    have s: "fds (wait_status n (p_pid p) v) = fds v" for v
      using kfdD [OF kfd_agent_path [OF refl], of MAX_PATHBUF n "''status''" v]
      by (auto simp: wait_status_def split: prod.splits sum.splits)
    show ?thesis
    proof (cases y)
      case (Inl e)
      then show ?thesis using assms x \<open>x = Inr p\<close> y bc h3 p3 p2 pr
        by (auto simp: spawn_agent_runtime_def spawn_finish_def started_runtime_def Let_def)
    next
      case (Inr u)
      then show ?thesis using assms x \<open>x = Inr p\<close> y bc held_keep [OF h3]
        by (auto simp: spawn_agent_runtime_def spawn_finish_def Let_def s)
    qed
  qed
qed

lemma fds_daemon_log [simp]: "fds (snd (daemon_log m w)) = fds w"
proof -
  have "kfd (fds w) (daemon_log m w)"
    unfolding daemon_log_def
    by (rule kfd_opened) (auto intro: kfd_close_ret fd_intros write_holding)
  then show ?thesis by (rule kfdD)
qed

lemma open_pidfd_held:
  assumes "held d ns w" "open_pidfd h n pid w = (pf, w')"
  shows "held d (ns @ opt_fd pf) w'"
proof -
  obtain r w1 where r: "sys_pidfd_open pid w = (r, w1)" by fastforce
  have "held d (ns @ (case r of Inl _ \<Rightarrow> [] | Inr n \<Rightarrow> [n])) w1"
    using r unfolding sys_pidfd_open_def
  proof (cases rule: call_cases)
    case (run s)
    then show ?thesis using held_new [of d ns "w\<lparr>sched := s\<rparr>"] held_keep [OF assms(1), of "w\<lparr>sched := s\<rparr>"]
      by (auto simp: Let_def split: if_splits prod.splits)
  qed (use assms(1) held_keep in auto)
  then show ?thesis
    using assms(2) r held_keep [of d ns w1]
    by (auto simp: open_pidfd_def lifecycle_pidfd_open_def opt_fd_def split: sum.splits if_splits)
qed

lemma update_twice: "xs[i := f (xs[i := x] ! i)] = xs[i := f x]"
  by (cases "i < length xs") (simp_all add: list_update_beyond)


end
