(* ===== verification/Delegation.thy ===== *)
theory Delegation
  imports Start
begin

text \<open>
  The capability broker: which descriptors it hands out and to whom, and which descriptors
  of its own a request leaves open.
\<close>

section \<open>Packets sent\<close>

text \<open>
  \<open>adds E w w'\<close>: from \<open>w\<close> to \<open>w'\<close> packets were only added, and one that carries descriptors
  went to an endpoint in \<open>E\<close>.
\<close>

definition adds :: "(nat \<Rightarrow> bool) \<Rightarrow> world \<Rightarrow> world \<Rightarrow> bool" where
  "adds E w w' \<longleftrightarrow> (\<exists>ns. sent w' = ns @ sent w \<and> list_all (\<lambda>(e, pk). rights pk = [] \<or> E e) ns)"

lemma adds_same: "sent w' = sent w \<Longrightarrow> adds E w w'"
  by (auto simp: adds_def)

lemma adds_trans: "adds E w w1 \<Longrightarrow> adds E w1 w2 \<Longrightarrow> adds E w w2"
  by (auto simp: adds_def)

lemma adds_amb: "ambient w' = ambient w \<Longrightarrow> adds E w w'"
  by (rule adds_same) (rule ambient_fields)

lemma sendmsg_sent:
  assumes "sys_sendmsg fd bs ns w = (r, w')"
  shows "sent w' = sent w \<or> (\<exists>e pk. map_of (fds w) fd = Some (DSock e) \<and> sent w' = (e, pk) # sent w \<and> length (rights pk) = length ns)"
    and "fds w' = fds w"
  using assms unfolding sys_sendmsg_def
  by (auto elim!: call_cases split: option.splits desc.splits if_splits)

lemma adds_send_retry:
  "ns = [] \<or> (\<forall>e. map_of (fds w) fd = Some (DSock e) \<longrightarrow> E e) \<Longrightarrow> adds E w (snd (send_retry fd bs ns w))"
proof (induction fd bs ns w rule: send_retry.induct)
  case (1 fd bs ns w)
  obtain r w1 where r: "sys_sendmsg fd bs ns w = (r, w1)" by fastforce
  have a: "adds E w w1" using sendmsg_sent(1) [OF r] "1.prems" by (auto simp: adds_def)
  have f: "fds w1 = fds w" by (rule sendmsg_sent(2) [OF r])
  show ?case
  proof (cases "r = Inl EINTR")
    case True
    then have "adds E w1 (snd (send_retry fd bs ns w1))"
      using "1.IH" [OF r [symmetric]] "1.prems" f by simp
    then show ?thesis using True r adds_trans [OF a] by (subst send_retry.simps) simp
  next
    case False
    then show ?thesis using r a by (subst send_retry.simps) (auto split: sum.splits)
  qed
qed

lemma recvmsg_sent: "sys_recvmsg fd c m w = (r, w') \<Longrightarrow> sent w' = sent w"
proof -
  have i: "sent (snd (install_fds ds w)) = sent w" for ds w
    by (induction ds arbitrary: w) (simp_all add: new_fd_def Let_def case_prod_beta)
  show "sys_recvmsg fd c m w = (r, w') \<Longrightarrow> sent w' = sent w"
    unfolding sys_recvmsg_def
    by (erule call_cases) (auto simp: Let_def i split: option.splits desc.splits list.splits prod.splits dest!: arg_cong [where f = snd])
qed

lemma sent_recv [simp]: "sent (snd (recv_retry fd c m w)) = sent w"
proof (induction fd c m w rule: recv_retry.induct)
  case (1 fd c m w)
  obtain r w1 where r: "sys_recvmsg fd c m w = (r, w1)" by fastforce
  show ?case
    using "1.IH" [OF r [symmetric]] r recvmsg_sent [OF r]
    by (subst recv_retry.simps) (auto split: sum.splits)
qed

section \<open>Steps of the broker\<close>

text \<open>\<open>tidy E w w'\<close>: no descriptor was opened or closed for good, and packets as in \<open>adds\<close>.\<close>

definition tidy :: "(nat \<Rightarrow> bool) \<Rightarrow> world \<Rightarrow> world \<Rightarrow> bool" where
  "tidy E w w' \<longleftrightarrow> fds w' = fds w \<and> adds E w w'"

lemma tidy_trans: "tidy E w w1 \<Longrightarrow> tidy E w1 w2 \<Longrightarrow> tidy E w w2"
  by (auto simp: tidy_def intro: adds_trans)

lemma tidy_amb: "ambient w' = ambient w \<Longrightarrow> fds w' = fds w \<Longrightarrow> tidy E w w'"
  by (simp add: tidy_def adds_amb)

lemma tidy_logs: "tidy E w (snd (audit_log n m w))" "tidy E w (snd (daemon_log k w))"
  by (simp_all add: tidy_amb)

lemma tidy_send_denied: "tidy E w (send_denied chan cp rsn w)"
proof -
  have "fds (snd (send_retry chan s [] w)) = fds w" for s by (rule kfdD [OF kfd_send_retry]) simp
  then show ?thesis
    by (auto simp: send_denied_def broker_reply_def tidy_def intro: adds_send_retry adds_same split: sum.splits)
qed

lemma tidy_denied: "tidy E (os d) (os (broker_denied chan n cp rsn d))"
  unfolding broker_denied_def Let_def act_fields
  by (intro tidy_trans [OF _ tidy_logs(1)] tidy_trans [OF _ tidy_logs(2)]) (simp add: tidy_send_denied)

lemma cloexec_same [simp]: "ambient (set_cloexec n w) = ambient w" "fds (set_cloexec n w) = fds w"
proof -
  have f: "ambient (snd (sys_fcntl_fd n w)) = ambient w" "fds (snd (sys_fcntl_fd n w)) = fds w" for w
    by (simp, rule kfdD [OF kfd_fcntl [OF refl]])
  obtain r w1 where r: "sys_fcntl_fd n w = (r, w1)" by fastforce
  then have "ambient w1 = ambient w" "fds w1 = fds w" using f [of w] by simp_all
  then show "ambient (set_cloexec n w) = ambient w" "fds (set_cloexec n w) = fds w"
    using r f by (auto simp: set_cloexec_def split: sum.splits)
qed

lemma tidy_kill: "tidy E w (snd (sys_kill p s w))" "tidy E w (snd (sys_pidfd_send_signal n s w))"
  by (auto simp: tidy_def sys_kill_def sys_pidfd_send_signal_def call_def note_signal_def intro!: adds_same
      split: list.splits fault.splits option.splits desc.splits)

lemma tidy_alive: "tidy E w (snd (agent_alive m w))"
proof -
  have r: "tidy E v (snd (run_alive p v))" for p v
    using tidy_kill(1) [of E v p 0] by (auto simp: run_alive_def tidy_def intro: adds_same split: prod.splits sum.splits)
  have l: "tidy E w (snd (lifecycle_pidfd_alive (Some n) w))" for n
    using tidy_kill(2) [of E w n 0] by (auto simp: lifecycle_pidfd_alive_def split: prod.splits sum.splits)
  show ?thesis
  proof (cases "mpid m \<le> 0 \<or> pidfd m = None")
    case True
    then show ?thesis using r by (auto simp: agent_alive_def tidy_def intro: adds_same)
  next
    case False
    then obtain n where n: "pidfd m = Some n" "\<not> mpid m \<le> 0" by auto
    obtain x w1 where x: "lifecycle_pidfd_alive (Some n) w = (x, w1)" by fastforce
    have "tidy E w w1" using l [of n] x by simp
    then show ?thesis using n x r [of w1] by (cases x) (auto simp: agent_alive_def intro: tidy_trans)
  qed
qed

lemma socketpair_sent: "sent (snd (sys_socketpair w)) = sent w"
  by (auto simp: sys_socketpair_def call_def new_fd_def Let_def split: list.splits fault.splits)

lemma held_map: "held d ns w \<Longrightarrow> map_of d n = Some x \<Longrightarrow> map_of (fds w) n = Some x"
  by (auto simp: held_def map_add_def)

lemma deliver_channel_spec:
  assumes "deliver_channel inbox meta w = (r, w')" "map_of (fds w) inbox = Some (DSock e0)" "E e0"
  shows "adds E w w'" "held (fds w) (case r of Issued a \<Rightarrow> [a] | _ \<Rightarrow> []) w'"
proof -
  obtain x w1 where x: "sys_socketpair w = (x, w1)" by fastforce
  have s1: "adds E w w1" using socketpair_sent [of w] x by (simp add: adds_same)
  have "adds E w w' \<and> held (fds w) (case r of Issued a \<Rightarrow> [a] | _ \<Rightarrow> []) w'"
  proof (cases x)
    case (Inl e)
    then show ?thesis using assms(1) x s1 held_socketpair_fail [of "fds w" "[]" w e w1]
      by (auto simp: deliver_channel_def)
  next
    case (Inr ab)
    obtain a b where ab: "ab = (a, b)" by fastforce
    let ?w2 = "set_cloexec b (set_cloexec a w1)"
    have h2: "held (fds w) [a, b] ?w2"
      using held_socketpair [of "fds w" "[]" w a b w1] x Inr ab held_keep [of "fds w" "[a, b]" w1 ?w2] by simp
    obtain y w3 where y: "send_retry inbox meta [b] ?w2 = (y, w3)" by fastforce
    have "map_of (fds ?w2) inbox = Some (DSock e0)" using held_map [OF h2] assms(2) by blast
    then have "adds E ?w2 w3" using adds_send_retry [of "[b]" ?w2 inbox E meta] y assms(3) by auto
    moreover have "adds E w ?w2" by (rule adds_trans [OF s1 adds_amb]) simp
    ultimately have a3: "adds E w w3" using adds_trans by blast
    have h3: "held (fds w) [a, b] w3" using held_kfd [OF h2 kfd_send_retry [OF refl], of inbox meta "[b]"] y by simp
    have "a \<noteq> b" using held_distinct [OF h3] by simp
    then have h4: "held (fds w) [a] (snd (sys_close b w3))" using held_close [OF h3, of b] by simp
    have h5: "fds (snd (sys_close a (snd (sys_close b w3)))) = fds w" using held_close [OF h4, of a] by simp
    have cl: "adds E w (snd (sys_close n v))" if "adds E w v" for n v
      using adds_trans [OF that adds_amb] by simp
    have "adds E w (snd (sys_close b w3))" "adds E w (snd (sys_close a (snd (sys_close b w3))))"
      by (intro cl a3)+
    then show ?thesis
      using assms(1) x Inr ab y h4 h5 by (auto simp: deliver_channel_def Let_def split: sum.splits)
  qed
  then show "adds E w w'" "held (fds w) (case r of Issued a \<Rightarrow> [a] | _ \<Rightarrow> []) w'" by auto
qed

text \<open>\<open>ends_open d\<close>: the channel ends the table records are open sockets.\<close>

definition ends_open :: "daemon \<Rightarrow> bool" where
  "ends_open d \<longleftrightarrow> list_all (\<lambda>m. list_all (\<lambda>n. case map_of (fds (os d)) n of Some (DSock _) \<Rightarrow> True | _ \<Rightarrow> False)
     (opt_fd (broker_fd m) @ opt_fd (inbox_fd m))) (slots d)"

definition end_of :: "nat \<Rightarrow> world \<Rightarrow> nat \<Rightarrow> bool" where
  "end_of n w e \<longleftrightarrow> map_of (fds w) n = Some (DSock e)"

lemma ends_openD:
  assumes "ends_open d" "i < length (slots d)" "n \<in> set (opt_fd (broker_fd (slot i d)) @ opt_fd (inbox_fd (slot i d)))"
  shows "\<exists>e. end_of n (os d) e"
proof -
  have "case map_of (fds (os d)) n of Some (DSock _) \<Rightarrow> True | _ \<Rightarrow> False"
    using assms unfolding ends_open_def list_all_iff slot_def by (metis nth_mem)
  then show ?thesis by (auto simp: end_of_def split: option.splits desc.splits)
qed

text \<open>A target that can be reached: in the table, with a process and an inbox.\<close>

definition reachable :: "string \<Rightarrow> daemon \<Rightarrow> nat \<Rightarrow> bool" where
  "reachable target d n \<longleftrightarrow> (\<exists>j. find_by_name target d = Some j \<and> 0 < mpid (slot j d) \<and> inbox_fd (slot j d) = Some n)"

lemma issue_spec:
  assumes "issue_mailbox_channel s p u t d = (r, d')" "ends_open d"
    and E: "\<And>n e. reachable t d n \<Longrightarrow> end_of n (os d) e \<Longrightarrow> E e"
  shows "slots d' = slots d" "adds E (os d) (os d')" "held (fds (os d)) (case r of Issued a \<Rightarrow> [a] | _ \<Rightarrow> []) (os d')"
    and "(\<exists>n. reachable t d n) \<or> tidy (\<lambda>_. False) (os d) (os d') \<and> r = NoListener"
proof -
  have "slots d' = slots d \<and> adds E (os d) (os d') \<and> held (fds (os d)) (case r of Issued a \<Rightarrow> [a] | _ \<Rightarrow> []) (os d') \<and>
    ((\<exists>n. reachable t d n) \<or> tidy (\<lambda>_. False) (os d) (os d') \<and> r = NoListener)"
  proof (cases "\<exists>n. reachable t d n")
    case False
    then have "mpid (slot j d) \<le> 0 \<or> inbox_fd (slot j d) = None" if "find_by_name t d = Some j" for j
      using that by (cases "inbox_fd (slot j d)") (auto simp: reachable_def not_less)
    then have "r = NoListener \<and> d' = d"
      using assms(1) by (auto simp: issue_mailbox_channel_def Let_def split: option.splits)
    then show ?thesis by (simp add: tidy_def adds_same)
  next
    case True
    then obtain j n where j: "find_by_name t d = Some j" "0 < mpid (slot j d)" "inbox_fd (slot j d) = Some n"
      by (auto simp: reachable_def)
    then have rn: "reachable t d n" by (auto simp: reachable_def)
    have "j < length (slots d)" using j(1) find_slot_Some by (fastforce simp: find_by_name_def)
    then obtain e0 where e0: "end_of n (os d) e0" using ends_openD [OF assms(2), of j n] j(3) by (auto simp: opt_fd_def)
    obtain al w1 where al: "agent_alive (slot j d) (os d) = (al, w1)" by fastforce
    have t1: "tidy X (os d) w1" for X using tidy_alive [of X "os d" "slot j d"] al by simp
    obtain x w2 where x: "deliver_channel n (channel_meta s p u) w1 = (x, w2)" by fastforce
    have "map_of (fds w1) n = Some (DSock e0)" using t1 e0 by (simp add: tidy_def end_of_def)
    from deliver_channel_spec [where E = E, OF x this E [OF rn e0]]
    have dv: "adds E w1 w2" "held (fds (os d)) (case x of Issued a \<Rightarrow> [a] | _ \<Rightarrow> []) w2"
      using t1 [of E] by (auto simp: tidy_def)
    then have "adds E (os d) w2" using t1 [of E] by (auto simp: tidy_def intro: adds_trans)
    then show ?thesis
      using assms(1) j al x dv(2) t1 [of E] True
      by (auto simp: issue_mailbox_channel_def Let_def run_def tidy_def split: if_splits)
  qed
  then show "slots d' = slots d" "adds E (os d) (os d')" "held (fds (os d)) (case r of Issued a \<Rightarrow> [a] | _ \<Rightarrow> []) (os d')"
    "(\<exists>n. reachable t d n) \<or> tidy (\<lambda>_. False) (os d) (os d') \<and> r = NoListener" by auto
qed

lemma hand_out_spec:
  assumes "held d0 [k] (os d)" "\<And>e. map_of (fds (os d)) chan = Some (DSock e) \<Longrightarrow> E e"
  shows "slots (hand_out h chan n cp t k d) = slots d" "fds (os (hand_out h chan n cp t k d)) = d0"
    "adds E (os d) (os (hand_out h chan n cp t k d))"
proof -
  have cl: "fds (snd (sys_close k w)) = d0" if "held d0 [k] w" for w using held_close [OF that, of k] by simp
  obtain r w1 where r: "broker_make_token (os d) = (r, w1)" by fastforce
  have a1: "adds E (os d) w1" using ambD [OF amb_make_token [OF refl], of "os d"] r by (simp add: adds_amb)
  have f1: "fds w1 = fds (os d)" using frame_make_token [OF frame_all, of "os d" "fds (os d)"] r by (simp add: frame_def)
  then have h1: "held d0 [k] w1" using held_keep [OF assms(1)] by simp
  let ?w2 = "snd (sys_close k w1)"
  have a2: "adds E (os d) ?w2" by (rule adds_trans [OF a1 adds_amb]) simp
  have f2: "fds ?w2 = d0" by (rule cl [OF h1])
  have dn: "tidy E w (snd (audit_log n x (snd (daemon_log y (send_denied chan cp z w)))))" for w x y z
    by (rule tidy_trans [OF tidy_trans [OF tidy_send_denied tidy_logs(2)] tidy_logs(1)])
  have "slots (hand_out h chan n cp t k d) = slots d \<and> fds (os (hand_out h chan n cp t k d)) = d0 \<and>
    adds E (os d) (os (hand_out h chan n cp t k d))"
  proof (cases r)
    case (Inl e)
    then show ?thesis using r a2 f2 dn [of ?w2] by (auto simp: hand_out_def run_eq Let_def tidy_def intro: adds_trans)
  next
    case (Inr tok)
    show ?thesis
    proof (cases "broker_format_issued BROKER_MSG_MAX cp tok")
      case (Inl e)
      then show ?thesis using r \<open>r = Inr tok\<close> a2 f2 by (simp add: hand_out_def run_eq)
    next
      case s: (Inr s)
      obtain x w3 where x: "send_retry chan s [k] w1 = (x, w3)" by fastforce
      have "adds E w1 w3" using adds_send_retry [of "[k]" w1 chan E s] assms(2) f1 x by simp
      then have a3: "adds E (os d) (snd (sys_close k w3))"
        using adds_trans [OF a1] adds_trans [OF _ adds_amb, of E "os d" w3 "snd (sys_close k w3)"] by simp
      have "held d0 [k] w3" using held_kfd [OF h1 kfd_send_retry [OF refl], of chan s "[k]"] x by simp
      from cl [OF this] have f3: "fds (snd (sys_close k w3)) = d0" .
      have lg: "tidy E w (snd (audit_log n u (snd (daemon_log v w))))" "tidy E w (snd (daemon_log v w))" for w u v
        by (rule tidy_trans [OF tidy_logs(2) tidy_logs(1)]) (rule tidy_logs)
      show ?thesis
        using r \<open>r = Inr tok\<close> s x a3 f3 lg [of "snd (sys_close k w3)"]
        by (auto simp: hand_out_def run_eq broker_reply_def Let_def tidy_def intro: adds_trans split: sum.splits)
    qed
  qed
  then show "slots (hand_out h chan n cp t k d) = slots d" "fds (os (hand_out h chan n cp t k d)) = d0"
    "adds E (os d) (os (hand_out h chan n cp t k d))" by auto
qed

text \<open>The capability to send to an agent.\<close>

definition mailbox_cap :: "string \<Rightarrow> string" where
  "mailbox_cap target = ''mailbox.send:'' @ target"

lemma dispatch_spec:
  assumes "ends_open d" "\<And>e. end_of chan (os d) e \<Longrightarrow> E e"
    and "\<And>t n e. cp = mailbox_cap t \<Longrightarrow> reachable t d n \<Longrightarrow> end_of n (os d) e \<Longrightarrow> E e"
    and "end_of chan (os d) ec"
  shows "fds (os (broker_dispatch h i chan cp d)) = fds (os d)" "adds E (os d) (os (broker_dispatch h i chan cp d))"
    and "(\<exists>t n. cp = mailbox_cap t \<and> reachable t d n) \<or> adds (\<lambda>_. False) (os d) (os (broker_dispatch h i chan cp d))"
proof -
  let ?m = "slot i d"
  have "fds (os (broker_dispatch h i chan cp d)) = fds (os d) \<and> adds E (os d) (os (broker_dispatch h i chan cp d)) \<and>
    ((\<exists>t n. cp = mailbox_cap t \<and> reachable t d n) \<or> adds (\<lambda>_. False) (os d) (os (broker_dispatch h i chan cp d)))"
  proof (cases "starts_with ''mailbox.send:'' cp")
    case True
    then obtain t where t: "cp = mailbox_cap t" unfolding starts_with_iff mailbox_cap_def by blast
    obtain r d1 where r: "issue_mailbox_channel (mname ?m) (mpid ?m) (euid (os d)) t d = (r, d1)" by fastforce
    have s2: "adds E (os d) (os d1)"
      and s3: "held (fds (os d)) (case r of Issued a \<Rightarrow> [a] | _ \<Rightarrow> []) (os d1)"
      and s4: "(\<exists>n. reachable t d n) \<or> tidy (\<lambda>_. False) (os d) (os d1) \<and> r = NoListener"
      using issue_spec [where E = E, OF r assms(1)] assms(3) [OF t] by blast+
    have no: "(\<exists>t n. cp = mailbox_cap t \<and> reachable t d n) \<or> tidy (\<lambda>_. False) (os d) (os d1) \<and> r = NoListener"
      using s4 t by blast
    let ?d' = "broker_dispatch h i chan cp d"
    have "drop 13 cp = t" using t by (simp add: mailbox_cap_def)
    then have eq: "?d' = (case r of NoListener \<Rightarrow> broker_denied chan (mname ?m) cp ''no-listener'' d1
       | Refused e \<Rightarrow> broker_denied chan (mname ?m) cp (h_strerror h e) d1
       | Issued k \<Rightarrow> hand_out h chan (mname ?m) cp t k d1)"
      using True r by (simp add: broker_dispatch_def Let_def split: issue.splits)
    have "fds (os ?d') = fds (os d) \<and> adds E (os d1) (os ?d') \<and> (r = NoListener \<longrightarrow> adds (\<lambda>_. False) (os d1) (os ?d'))"
    proof (cases "\<exists>k. r = Issued k")
      case True
      then obtain k where k: "r = Issued k" by blast
      then have h1: "held (fds (os d)) [k] (os d1)" using s3 by simp
      have "E e" if "map_of (fds (os d1)) chan = Some (DSock e)" for e
        using held_map [OF h1] that assms(2,4) by (auto simp: end_of_def)
      then show ?thesis using eq k hand_out_spec [OF h1, of chan E] by simp
    next
      case False
      then have "fds (os d1) = fds (os d)" using s3 by (simp split: issue.splits)
      then show ?thesis
        using False eq tidy_denied [where d = d1] unfolding tidy_def by (cases r) auto
    qed
    then show ?thesis using s2 no adds_trans unfolding tidy_def by blast
  next
    case False
    then show ?thesis using tidy_denied [of E d] tidy_denied [of "\<lambda>_. False" d]
      by (auto simp: broker_dispatch_def Let_def tidy_def)
  qed
  then show "fds (os (broker_dispatch h i chan cp d)) = fds (os d)" "adds E (os d) (os (broker_dispatch h i chan cp d))"
    "(\<exists>t n. cp = mailbox_cap t \<and> reachable t d n) \<or> adds (\<lambda>_. False) (os d) (os (broker_dispatch h i chan cp d))" by auto
qed

section \<open>Received descriptors\<close>

lemma held_install: "held d ns w \<Longrightarrow> install_fds ds w = (ms, w') \<Longrightarrow> held d (ns @ ms) w'"
proof (induction ds arbitrary: ns w ms w')
  case (Cons x ds)
  obtain n w1 where n: "new_fd x w = (n, w1)" by fastforce
  obtain ms' w2 where m: "install_fds ds w1 = (ms', w2)" by fastforce
  show ?case using Cons.IH [OF held_new [OF Cons.prems(1) n] m] Cons.prems(2) n m by simp
qed simp

lemma recvmsg_held:
  assumes "sys_recvmsg fd c m w = (r, w')"
  shows "held (fds w) (case r of Inl _ \<Rightarrow> [] | Inr rx \<Rightarrow> rx_fds rx) w'"
  using assms unfolding sys_recvmsg_def
proof (cases rule: call_cases)
  case (run s)
  have ins: "held (fds w) ns v" if "install_fds ds (w\<lparr>sched := t, rxq := q\<rparr>) = (ns, v)" for t ds q ns v
    using held_install [OF _ that, of "fds w" "[]"] by simp
  show ?thesis
    using run by (auto simp: Let_def dest!: ins split: option.splits desc.splits list.splits prod.splits)
qed simp

lemma recv_retry_held:
  "recv_retry fd c m w = (r, w') \<Longrightarrow> held (fds w) (case r of Inl _ \<Rightarrow> [] | Inr rx \<Rightarrow> rx_fds rx) w'"
proof (induction fd c m w rule: recv_retry.induct)
  case (1 fd c m w)
  obtain x w1 where x: "sys_recvmsg fd c m w = (x, w1)" by fastforce
  show ?case
  proof (cases "x = Inl EINTR")
    case True
    then have "fds w1 = fds w" using recvmsg_held [OF x] by simp
    then show ?thesis using "1.IH" [OF x [symmetric]] True "1.prems" x by (simp add: recv_retry.simps [of fd c m w])
  next
    case False
    then have "r = x \<and> w' = w1" using "1.prems" x by (auto simp: recv_retry.simps [of fd c m w] split: sum.splits)
    then show ?thesis using recvmsg_held [OF x] by simp
  qed
qed

lemma close_all_held: "held d ns w \<Longrightarrow> fds (close_all ns w) = d \<and> sent (close_all ns w) = sent w"
proof (induction ns arbitrary: w)
  case (Cons n ns)
  have "filter (\<lambda>m. m \<noteq> n) (n # ns) = ns" using held_distinct [OF Cons.prems] by (auto intro: filter_True)
  then have "held d ns (snd (sys_close n w))" using held_close [OF Cons.prems, of n] by simp
  from Cons.IH [OF this] show ?case using ambient_fields(3) [OF ambient_close] by (simp add: close_all_def)
qed (simp add: close_all_def)

definition authorised :: "nat \<Rightarrow> daemon \<Rightarrow> world \<Rightarrow> string \<Rightarrow> nat \<Rightarrow> bool" where
  "authorised i d w buf n \<longleftrightarrow> (\<exists>req target. broker_parse buf = Some req \<and> bverb req = BROKER_VERB_REQUEST \<and>
     broker_policy_check (cap req) (fst (load_allow_patterns (mname (slot i d)) 32 w)) \<and>
     cap req = mailbox_cap target \<and> reachable target d n)"

lemma request_spec:
  assumes "ends_open d" "end_of chan (os d) ec"
  shows "tidy (\<lambda>_. False) (os d) (os (broker_request_in h i chan buf d)) \<or>
    (\<exists>n. authorised i d (os d) buf n \<and>
       tidy (\<lambda>e. end_of chan (os d) e \<or> end_of n (os d) e) (os d) (os (broker_request_in h i chan buf d)))"
proof -
  let ?n = "mname (slot i d)"
  have bad: "tidy (\<lambda>_. False) (os d) (snd (audit_log ?n x (snd (daemon_log y (send_denied chan u v (os d))))))" for x y u v
    by (rule tidy_trans [OF tidy_trans [OF tidy_send_denied tidy_logs(2)] tidy_logs(1)])
  obtain pats w1 where p: "load_allow_patterns ?n 32 (os d) = (pats, w1)" by fastforce
  have k: "kfd (fds (os d)) (load_allow_patterns ?n 32 (os d))" "amb (ambient (os d)) (load_allow_patterns ?n 32 (os d))"
    unfolding load_allow_patterns_def by (auto intro!: fd_intros amb_intros)
  let ?d1 = "d\<lparr>os := w1\<rparr>"
  have same: "fds w1 = fds (os d)" "ambient w1 = ambient (os d)" using k p by (simp_all add: kfd_def amb_def)
  then have t1: "tidy X (os d) w1" for X by (simp add: tidy_amb)
  have eqs: "ends_open ?d1" "end_of m w1 e = end_of m (os d) e" "reachable t ?d1 m = reachable t d m" for m e t
    using assms(1) same(1) by (simp_all add: ends_open_def end_of_def reachable_def find_by_name_def slot_def)
  show ?thesis
  proof (cases "\<exists>req. broker_parse buf = Some req \<and> bverb req = BROKER_VERB_REQUEST")
    case False
    then show ?thesis using bad by (auto simp: broker_request_in_def Let_def split: option.splits)
  next
    case True
    then obtain req where req: "broker_parse buf = Some req" "bverb req = BROKER_VERB_REQUEST" by blast
    show ?thesis
    proof (cases "broker_policy_check (cap req) pats")
      case False
      have "tidy (\<lambda>_. False) (os d) (os (broker_denied chan ?n (cap req) ''not-in-caps'' ?d1))"
        using tidy_trans [OF t1 tidy_denied [where d = ?d1, simplified]] by simp
      then show ?thesis using req p False by (simp add: broker_request_in_def run_def Let_def)
    next
      case ok: True
      define E where "E = (\<lambda>e. end_of chan (os d) e \<or> (\<exists>t n. cap req = mailbox_cap t \<and> reachable t d n \<and> end_of n (os d) e))"
      let ?d' = "broker_dispatch h i chan (cap req) ?d1"
      have d': "broker_request_in h i chan buf d = ?d'" using req p ok by (simp add: broker_request_in_def run_def Let_def)
      have pre: "E e" if "end_of chan (os ?d1) e" for e using that by (simp add: E_def eqs(2))
      have pre2: "E e" if "cap req = mailbox_cap t" "reachable t ?d1 n" "end_of n (os ?d1) e" for t n e
        using that eqs(2,3) unfolding E_def by auto
      have open_chan: "end_of chan (os ?d1) ec" using assms(2) eqs(2) by simp
      have ds: "fds (os ?d') = fds (os ?d1)" "adds E (os ?d1) (os ?d')"
        "(\<exists>t n. cap req = mailbox_cap t \<and> reachable t ?d1 n) \<or> adds (\<lambda>_. False) (os ?d1) (os ?d')"
        by (rule dispatch_spec [where E = E and ec = ec], rule eqs(1), erule pre, erule (2) pre2, rule open_chan)+
      have all: "tidy X (os d) (os ?d')" if "adds X (os ?d1) (os ?d')" for X
        using that ds(1) tidy_trans [OF t1] by (simp add: tidy_def)
      show ?thesis
      proof (cases "\<exists>t n. cap req = mailbox_cap t \<and> reachable t d n")
        case True
        then obtain t n where tn: "cap req = mailbox_cap t" "reachable t d n" by blast
        then have E: "E = (\<lambda>e. end_of chan (os d) e \<or> end_of n (os d) e)"
          unfolding E_def by (auto simp: reachable_def mailbox_cap_def fun_eq_iff)
        have "authorised i d (os d) buf n" using req p ok tn by (auto simp: authorised_def)
        then show ?thesis using all [OF ds(2)] unfolding E d' by blast
      next
        case False
        then have "adds (\<lambda>_. False) (os ?d1) (os ?d')" using ds(3) unfolding eqs(3) by blast
        from all [OF this] show ?thesis unfolding d' ..
      qed
    qed
  qed
qed

section \<open>One event on a broker channel\<close>

lemma drop_broker_os: "broker_fd (slot i d) = Some chan \<Longrightarrow> os (drop_broker i d) = snd (sys_close chan (os d))"
  by (simp add: drop_broker_def close_opt_def)

lemma fds_close: "fds (snd (sys_close n w)) = AList.delete n (fds w)"
  by (auto simp: sys_close_def call_def map_of_eq_None_iff delete_id split: list.splits fault.splits option.splits)

text \<open>What is left of an event whose message is not handed to the request handler.\<close>

lemma dropped_event:
  assumes "broker_fd (slot i d) = Some chan" "recv_retry chan BROKER_MSG_MAX 4 (os d) = (r, w)"
    and "case r of Inl _ \<Rightarrow> True | Inr rx \<Rightarrow> rx_bytes rx = [] \<or> rx_trunc rx"
  shows "fds (os (broker_handle_event h i d)) = AList.delete chan (fds w)" "sent (os (broker_handle_event h i d)) = sent (os d)"
proof -
  have w: "sent w = sent (os d)" using sent_recv [of chan BROKER_MSG_MAX 4 "os d"] assms(2) by simp
  have "\<exists>v. os (broker_handle_event h i d) = snd (sys_close chan v) \<and> fds v = fds w \<and> ambient v = ambient w"
    using assms by (auto simp: broker_handle_event_def run_def drop_broker_os slot_def split: sum.splits)
  then obtain v where v: "os (broker_handle_event h i d) = snd (sys_close chan v)" "fds v = fds w" "ambient v = ambient w" by blast
  have "sent (snd (sys_close chan v)) = sent v" "sent v = sent w"
    by (rule ambient_fields, simp) (rule ambient_fields, rule v(3))
  then show "fds (os (broker_handle_event h i d)) = AList.delete chan (fds w)" "sent (os (broker_handle_event h i d)) = sent (os d)"
    using v w by (simp_all add: fds_close)
qed

lemma handled_event:
  assumes "broker_fd (slot i d) = Some chan" "recv_retry chan BROKER_MSG_MAX 4 (os d) = (Inr rx, w)"
    and "\<not> (rx_bytes rx = [] \<or> rx_trunc rx)" "ends_open d" "i < length (slots d)"
  defines "w1 \<equiv> close_all (rx_fds rx) w"
  shows "tidy (\<lambda>_. False) (os d) (os (broker_handle_event h i d)) \<or>
    (\<exists>n. authorised i d w1 (rx_bytes rx) n \<and>
       tidy (\<lambda>e. end_of chan (os d) e \<or> end_of n (os d) e) (os d) (os (broker_handle_event h i d)))"
proof -
  have h: "held (fds (os d)) (rx_fds rx) w" using recv_retry_held [OF assms(2)] by simp
  have "sent w = sent (os d)" using sent_recv [of chan BROKER_MSG_MAX 4 "os d"] assms(2) by simp
  then have w1: "fds w1 = fds (os d)" "sent w1 = sent (os d)" using close_all_held [OF h] by (simp_all add: w1_def)
  let ?d1 = "d\<lparr>os := w1\<rparr>"
  have ev: "broker_handle_event h i d = broker_request_in h i chan (rx_bytes rx) ?d1"
    using assms by (simp add: broker_handle_event_def run_def w1_def)
  have eqs: "ends_open ?d1" "end_of m w1 e = end_of m (os d) e" "authorised i ?d1 v b m = authorised i d v b m"
    for m e v b
    using assms(4) w1(1) by (simp_all add: ends_open_def end_of_def authorised_def reachable_def find_by_name_def slot_def)
  obtain ec where "end_of chan (os d) ec" using ends_openD [OF assms(4,5), of chan] assms(1) by (auto simp: opt_fd_def)
  then have "end_of chan (os ?d1) ec" by (simp add: eqs(2))
  moreover have "tidy X (os d) v = tidy X w1 v" for X v using w1 by (simp add: tidy_def adds_def)
  ultimately show ?thesis
    unfolding ev using request_spec [OF eqs(1), of chan ec h i "rx_bytes rx"] by (simp add: eqs)
qed


definition two_agents :: daemon where
  "two_agents = (daemon0 (world0\<lparr>fds := [(3, DSock 0), (4, DSock 2), (5, DSock 4), (6, DSock 6)],
     procs := [(70, running_child), (71, running_child)],
     rxq := [(0, [\<lparr>bytes = ''x'', rights = replicate 5 (DSock 9)\<rparr>])]\<rparr>))
   \<lparr>slots := [free_slot\<lparr>used := True, mname := ''a'', mpid := 70, broker_fd := Some 3, inbox_fd := Some 4\<rparr>,
     free_slot\<lparr>used := True, mname := ''b'', mpid := 71, broker_fd := Some 5, inbox_fd := Some 6\<rparr>]\<rparr>"

lemma two_agents_open: "ends_open two_agents" "length (slots two_agents) = 2" "broker_fd (slot 0 two_agents) = Some 3"
  by (simp_all add: two_agents_def ends_open_def daemon0_def slot_def opt_fd_def free_slot_def)


text \<open>
  C23. The descriptors a request leaves open. A message that is handled leaves the descriptor
  table as it was, whatever it carried and whatever calls fail. When the channel is
  dropped the channel is closed, but a message that is cut off, or empty, and carried
  descriptors leaves all of these open in the supervisor.\<close>

theorem broker_event_descriptors:
  assumes "ends_open d" "i < length (slots d)" "broker_fd (slot i d) = Some chan"
    and "recv_retry chan BROKER_MSG_MAX 4 (os d) = (r, w)"
  shows "let d' = broker_handle_event h i d in case r of
      Inl _ \<Rightarrow> fds (os d') = AList.delete chan (fds (os d))
    | Inr rx \<Rightarrow>
        if rx_bytes rx = [] \<or> rx_trunc rx
        then held (fds (os d)) (rx_fds rx) w \<and> fds (os d') = AList.delete chan (fds w) \<and>
             list_all (\<lambda>n. map_of (fds (os d')) n \<noteq> None) (rx_fds rx)
        else fds (os d') = fds (os d)"
proof (cases r)
  case (Inl e)
  have "fds w = fds (os d)" using recv_retry_held [OF assms(4)] Inl by simp
  then show ?thesis using dropped_event(1) [OF assms(3,4), of h] Inl by simp
next
  case (Inr rx)
  have h: "held (fds (os d)) (rx_fds rx) w" using recv_retry_held [OF assms(4)] Inr by simp
  obtain ec where "end_of chan (os d) ec" using ends_openD [OF assms(1,2), of chan] assms(3) by (auto simp: opt_fd_def)
  then have "chan \<notin> set (rx_fds rx)" using h by (auto simp: held_def end_of_def)
  then have left: "map_of (AList.delete chan (fds w)) n \<noteq> None" if "n \<in> set (rx_fds rx)" for n
    using that held_lookup [OF h that] by (auto simp: delete_conv')
  show ?thesis
  proof (cases "rx_bytes rx = [] \<or> rx_trunc rx")
    case True
    then show ?thesis using dropped_event(1) [OF assms(3,4), of h] Inr h left by (auto simp: list_all_iff)
  next
    case False
    then show ?thesis using handled_event [OF assms(3) assms(4) [unfolded Inr] False assms(1,2), of h] Inr
      by (auto simp: tidy_def)
  qed
qed

theorem broker_event_descriptors_witness:
  "map_of (fds (os (broker_handle_event demo_host 0 two_agents))) 0 \<noteq> None"
proof -
  have "case recv_retry 3 BROKER_MSG_MAX 4 (os two_agents) of (Inr rx, w) \<Rightarrow> rx_trunc rx \<and> 0 \<in> set (rx_fds rx) | _ \<Rightarrow> False"
    by code_simp
  then obtain rx w where r: "recv_retry 3 BROKER_MSG_MAX 4 (os two_agents) = (Inr rx, w)" "rx_trunc rx" "0 \<in> set (rx_fds rx)"
    by (auto split: prod.splits sum.splits)
  show ?thesis
    using broker_event_descriptors [OF two_agents_open(1) _ two_agents_open(3) r(1), of demo_host] r(2,3) two_agents_open(2)
    by (auto simp: Let_def list_all_iff)
qed

end
