(* ===== verification/Authentication.thy ===== *)
theory Authentication
  imports Delegation
begin

text \<open>
  The control socket: what a client that does not present the control token can make the
  supervisor do.
\<close>

text \<open>\<open>inert w w'\<close>: files, processes and signals are the same; sockets may differ.\<close>

definition inert :: "world \<Rightarrow> world \<Rightarrow> bool" where
  "inert w w' \<longleftrightarrow> map_of (fs w') = map_of (fs w) \<and> procs w' = procs w \<and> signals w' = signals w"

lemma inert_refl: "inert w w"
  by (simp add: inert_def)

lemma inert_trans: "inert w w1 \<Longrightarrow> inert w1 w2 \<Longrightarrow> inert w w2"
  by (simp add: inert_def)

lemma inert_frame: "frame (\<lambda>_. False) w d w' \<Longrightarrow> inert w w'"
  by (auto simp: frame_def inert_def outside_def fun_eq_iff)

lemma inert_call: "(\<And>v. inert v (snd (m v))) \<Longrightarrow> inert w (snd (call m w))"
  by (auto simp: inert_def call_def split: list.splits fault.splits)

lemma inert_close: "inert w (snd (sys_close n w))"
  by (auto simp: inert_def sys_close_def call_def split: list.splits fault.splits)

lemma inert_cloexec: "inert w (set_cloexec n w)"
proof -
  have f: "inert w (snd (sys_fcntl_fd n w))" for w unfolding sys_fcntl_fd_def by (rule inert_call) (simp add: inert_refl)
  obtain r w1 where r: "sys_fcntl_fd n w = (r, w1)" by fastforce
  then have "inert w w1" using f [of w] by simp
  then show ?thesis using r inert_trans f by (auto simp: set_cloexec_def split: sum.splits)
qed

lemma inert_sendmsg: "inert w (snd (sys_sendmsg fd bs ns w))"
  unfolding sys_sendmsg_def by (rule inert_call) (auto simp: inert_def split: option.splits desc.splits)

lemma inert_send_retry: "inert w (snd (send_retry fd bs ns w))"
proof (induction fd bs ns w rule: send_retry.induct)
  case (1 fd bs ns w)
  obtain r w1 where r: "sys_sendmsg fd bs ns w = (r, w1)" by fastforce
  then have "inert w w1" using inert_sendmsg [of w fd bs ns] by simp
  then show ?case using "1.IH" [OF r [symmetric]] r inert_trans by (subst send_retry.simps) (auto split: sum.splits)
qed

lemma inert_sock_read: "inert w (snd (sys_sock_read fd n w))"
  unfolding sys_sock_read_def by (rule inert_call) (auto simp: inert_def split: option.splits desc.splits list.splits)

lemma read_command_inert: "inert w (snd (read_command fd l w)) \<and> fds (snd (read_command fd l w)) = fds w"
proof (induction fd l w rule: read_command.induct)
  case (1 fd l w)
  obtain r w1 where r: "sys_sock_read fd (1023 - length l) w = (r, w1)" by fastforce
  have w1: "inert w w1" "fds w1 = fds w"
    using inert_sock_read [of w fd "1023 - length l"] kfdD [OF kfd_sock_read [OF refl], of fd "1023 - length l" w] r by simp_all
  show ?case
    using "1.IH" r w1 inert_trans inert_refl
    by (subst (1 2) read_command.simps) (auto simp: inert_refl split: sum.splits)
qed

lemma accept_inert:
  assumes "sys_accept srv w = (r, w')"
  shows "inert w w'" "held (fds w) (case r of Inl _ \<Rightarrow> [] | Inr n \<Rightarrow> [n]) w'"
proof -
  show "inert w w'" using assms unfolding sys_accept_def
    by (auto elim!: call_cases simp: inert_def new_fd_def Let_def split: option.splits desc.splits list.splits)
  show "held (fds w) (case r of Inl _ \<Rightarrow> [] | Inr n \<Rightarrow> [n]) w'" using assms unfolding sys_accept_def
  proof (cases rule: call_cases)
    case (run s)
    have nw: "held (fds w) [n] v" if "new_fd x (w\<lparr>sched := t, rxq := q\<rparr>) = (n, v)" for t x q n v
      using held_new [OF _ that, of "fds w" "[]"] by simp
    show ?thesis using run
      by (auto simp: Let_def dest!: nw split: option.splits desc.splits list.splits prod.splits)
  qed simp
qed

lemma peer_creds_inert: "inert w (snd (get_peer_creds cred fd w)) \<and> fds (snd (get_peer_creds cred fd w)) = fds w"
  by (auto simp: get_peer_creds_def call_def inert_def split: list.splits fault.splits sum.splits)

lemma answer_inert:
  assumes "held d0 [fd] (os d)"
  shows "slots (answer fd m d) = slots d" "shutdown (answer fd m d) = shutdown d" "inert (os d) (os (answer fd m d))"
    "fds (os (answer fd m d)) = d0"
proof -
  let ?w = "snd (send_retry fd (reply_line m) [] (os d))"
  have "held d0 [fd] ?w" by (rule held_kfd [OF assms kfd_send_retry [OF refl]])
  from held_close [OF this, of fd] show "fds (os (answer fd m d)) = d0" by (simp add: answer_def)
  show "inert (os d) (os (answer fd m d))"
    using inert_trans [OF inert_send_retry inert_close] by (simp add: answer_def)
qed (simp_all add: answer_def)

text \<open>\<open>untouched d d'\<close>: nothing but sockets differs, and no descriptor was left open.\<close>

definition untouched :: "daemon \<Rightarrow> daemon \<Rightarrow> bool" where
  "untouched d d' \<longleftrightarrow> slots d' = slots d \<and> shutdown d' = shutdown d \<and> inert (os d) (os d') \<and> fds (os d') = fds (os d)"

lemma authenticate_line: "authenticate tok line = Some cmd \<Longrightarrow> line = ''AUTH '' @ tok @ '' '' @ cmd"
proof -
  assume a: "authenticate tok line = Some cmd"
  then obtain r where r: "line = ''AUTH '' @ r" "split_at SP r = (tok, Some cmd)"
    by (auto simp: authenticate_def starts_with_iff split: if_splits option.splits prod.splits)
  then show ?thesis using split_at_SomeD by fastforce
qed

text \<open>The connection \<open>fd\<close> presented the line \<open>line\<close> in world \<open>w\<close>.\<close>

definition presented :: "(nat \<Rightarrow> errno + int \<times> nat \<times> nat) \<Rightarrow> nat \<Rightarrow> daemon \<Rightarrow> string \<Rightarrow> world \<Rightarrow> bool" where
  "presented cred srv d line w \<longleftrightarrow> (\<exists>fd w0 r peer w1 b.
     sys_accept srv (os d) = (Inr fd, w0) \<and> get_peer_creds cred fd (set_cloexec fd w0) = ((r, peer), w1) \<and>
     (r = Inr () \<longrightarrow> peer_uid peer = 0 \<or> peer_uid peer = euid w1) \<and>
     read_command fd [] w1 = (b, w) \<and> line = command_line b)"

text \<open>
  C6. Commands need the control token. Whatever arrives on the control socket and whatever
  calls fail, serving a connection changes no file, no process, no table entry and sends no
  signal, unless the client's line is \<open>AUTH\<close>, the contents of the token file, and a
  command, and the client, where the kernel names it, is root or the owner of the supervisor.
  A refused connection leaves no descriptor open.\<close>

theorem control_needs_token:
  "untouched d (serve_one_connection h cred srv d) \<or>
   (\<exists>line w b w' cmd. presented cred srv d line w \<and>
      read_small_file (agentd_token_path w) 129 w = (Inr b, w') \<and> line = ''AUTH '' @ token_value b @ '' '' @ cmd)"
proof -
  obtain r w0 where r: "sys_accept srv (os d) = (r, w0)" by fastforce
  note i0 = accept_inert [OF r]
  show ?thesis
  proof (cases r)
    case (Inl e)
    then show ?thesis using r i0 by (simp add: serve_one_connection_def run_def untouched_def)
  next
    case (Inr fd)
    obtain x peer w1 where x: "get_peer_creds cred fd (set_cloexec fd w0) = ((x, peer), w1)" by (metis surj_pair)
    have i1: "inert (os d) w1" "held (fds (os d)) [fd] w1"
      using peer_creds_inert [of "set_cloexec fd w0" cred fd] x inert_trans [OF i0(1) inert_trans [OF inert_cloexec]]
        held_keep [of "fds (os d)" "[fd]" w0 w1] i0(2) Inr by auto
    have cl: "fds (snd (sys_close fd v)) = fds (os d)" if "held (fds (os d)) [fd] v" for v
      using held_close [OF that, of fd] by simp
    show ?thesis
    proof (cases "x = Inr () \<and> peer_uid peer \<noteq> 0 \<and> peer_uid peer \<noteq> euid w1")
      case True
      let ?v = "snd (sys_sendmsg fd (''ERROR forbidden uid'' @ [NL]) [] w1)"
      have "held (fds (os d)) [fd] ?v" by (rule held_kfd [OF i1(2) kfd_sendmsg [OF refl]])
      then show ?thesis
        using True r Inr x cl inert_trans [OF i1(1) inert_trans [OF inert_sendmsg inert_close]]
        by (simp add: serve_one_connection_def run_def untouched_def Let_def)
    next
      case allowed: False
      obtain b w2 where b: "read_command fd [] w1 = (b, w2)" by fastforce
      have i2: "inert (os d) w2" "held (fds (os d)) [fd] w2"
        using read_command_inert [of w1 fd "[]"] b inert_trans [OF i1(1)] held_keep [OF i1(2)] by auto
      let ?line = "command_line b"
      obtain t w3 where t: "read_small_file (agentd_token_path w2) 129 w2 = (t, w3)" by fastforce
      have "frame (\<lambda>_. False) w2 (fds w2) w3"
        using frame_read_small_file [OF frame_refl, of "\<lambda>_. False" w2 "agentd_token_path w2" 129] t by simp
      then have i3: "inert (os d) w3" "held (fds (os d)) [fd] w3"
        using inert_trans [OF i2(1) inert_frame] held_keep [OF i2(2)] by (auto simp: frame_def)
      have ans: "untouched d (answer fd m (d\<lparr>os := w3\<rparr>))" for m
        using answer_inert [of "fds (os d)" fd "d\<lparr>os := w3\<rparr>" m] i3 inert_trans by (auto simp: untouched_def)
      show ?thesis
      proof (cases "b = [] \<or> (case t of Inl _ \<Rightarrow> True | Inr c \<Rightarrow> authenticate (token_value c) ?line = None)")
        case True
        then show ?thesis
          using r Inr x allowed b t ans cl [OF i2(2)] inert_trans [OF i2(1) inert_close]
          by (auto simp: serve_one_connection_def serve_line_def run_def Let_def untouched_def split: sum.splits)
      next
        case False
        then obtain c cmd where "t = Inr c" "authenticate (token_value c) ?line = Some cmd" by (cases t) auto
        moreover have "presented cred srv d ?line w2" using r Inr x allowed b by (auto simp: presented_def)
        ultimately show ?thesis using t authenticate_line by blast
      qed
    qed
  qed
qed

end
