(* ===== verification/Ipc.thy ===== *)
theory Ipc
  imports Authentication
begin

text \<open>
  The message transport between agents (\<open>src/ipc.c\<close>, the Linux branch: one packet per
  message): building and parsing headers, sending with bounded retries, receiving, and the
  connections of a runtime, through the supervisor's channels or through a socket in the
  file system.

  The lock on descriptor 5 that serialises the processes of one runtime is a call that may
  fail; another holder of it is not part of the model. Socket options are not modelled. A
  string field of a message is the C string it points to.
\<close>

section \<open>Definitions\<close>

definition IPC_MSG_DEFAULT_CAP :: nat where "IPC_MSG_DEFAULT_CAP = 65536"
definition IPC_MSG_HARD_CAP :: nat where "IPC_MSG_HARD_CAP = 1048576"
definition IPC_HEADER_HEADROOM :: nat where "IPC_HEADER_HEADROOM = 4096"
definition IPC_BUF_CAP :: nat where "IPC_BUF_CAP = IPC_MSG_HARD_CAP + IPC_HEADER_HEADROOM"
definition IPC_MAX_FDS :: nat where "IPC_MAX_FDS = 8"
definition IPC_SEND_RETRIES :: nat where "IPC_SEND_RETRIES = 3"
definition BROKER_FD_SLOT :: nat where "BROKER_FD_SLOT = 3"

datatype ipc_rc = IPC_OK | IPC_ERR errno | IPC_PEER_GONE | IPC_PROTO_VIOLATION

record ipc_msg =
  m_verb :: string
  m_reply_to :: string
  m_task_id :: string
  m_payload :: string
  m_fds :: "nat list"
  m_peer :: peer_id

subsection \<open>Headers\<close>

definition append_hdr :: "nat \<Rightarrow> string \<Rightarrow> string \<Rightarrow> errno + string" where
  "append_hdr sz s out = (if length s \<ge> sz - length out then Inl EOVERFLOW else Inr (out @ s))"

definition append_field :: "nat \<Rightarrow> string \<Rightarrow> string \<Rightarrow> errno + string \<Rightarrow> errno + string" where
  "append_field sz key v r = (case r of Inl e \<Rightarrow> Inl e
     | Inr out \<Rightarrow> if v = [] then Inr out else append_hdr sz (key @ v @ [NL]) out)"

definition build_header :: "ipc_msg \<Rightarrow> nat \<Rightarrow> errno + string" where
  "build_header msg sz = (if m_verb msg = [] then Inl EINVAL
     else (case append_field sz ''TASK-ID '' (m_task_id msg) (append_field sz ''REPLY-TO '' (m_reply_to msg)
              (append_hdr sz (''VERB '' @ m_verb msg @ [NL]) [])) of
         Inl e \<Rightarrow> Inl e
       | Inr out \<Rightarrow> if length out + 1 \<ge> sz then Inl EOVERFLOW else Inr (out @ [NL])))"

text \<open>The header up to the first empty line, and what follows that line.\<close>

fun split_blank :: "string \<Rightarrow> (string \<times> string) option" where
  "split_blank (a # b # r) = (if a = NL \<and> b = NL then Some ([], r)
     else map_option (\<lambda>(x, y). (a # x, y)) (split_blank (b # r)))"
| "split_blank _ = None"

record fields =
  f_verb :: "string option"
  f_len :: "nat option"
  f_reply :: "string option"
  f_task :: "string option"

definition fields0 :: fields where
  "fields0 = \<lparr>f_verb = None, f_len = None, f_reply = None, f_task = None\<rparr>"

definition field_value :: "nat \<Rightarrow> string \<Rightarrow> string" where
  "field_value n line = dropWhile (\<lambda>c. c = SP) (cstr (drop n line))"

definition header_len :: "string \<Rightarrow> nat option" where
  "header_len v = (case strtol v of (n, rest, erange) \<Rightarrow>
     if erange \<or> rest = v \<or> rest \<noteq> [] \<or> n < 0 \<or> n > int IPC_MSG_HARD_CAP then None else Some (nat n))"

definition header_line :: "string \<Rightarrow> fields \<Rightarrow> fields option" where
  "header_line l f =
     (if starts_with ''VERB '' l then
        (if f_verb f \<noteq> None \<or> field_value 5 l = [] then None else Some (f\<lparr>f_verb := Some (field_value 5 l)\<rparr>))
      else if starts_with ''LEN '' l then
        (if f_len f \<noteq> None then None
         else (case header_len (field_value 4 l) of None \<Rightarrow> None | Some n \<Rightarrow> Some (f\<lparr>f_len := Some n\<rparr>)))
      else if starts_with ''REPLY-TO '' l then
        (if f_reply f \<noteq> None then None else Some (f\<lparr>f_reply := Some (field_value 9 l)\<rparr>))
      else if starts_with ''TASK-ID '' l then
        (if f_task f \<noteq> None then None else Some (f\<lparr>f_task := Some (field_value 8 l)\<rparr>))
      else Some f)"

fun header_lines :: "string list \<Rightarrow> fields \<Rightarrow> fields option" where
  "header_lines [] f = Some f"
| "header_lines (l # ls) f = (case header_line l f of None \<Rightarrow> None | Some f \<Rightarrow> header_lines ls f)"

definition parse_inplace :: "string \<Rightarrow> ipc_msg option" where
  "parse_inplace buf = (case split_blank buf of
       None \<Rightarrow> None
     | Some (hdr, avail) \<Rightarrow> (case header_lines (c_lines hdr) fields0 of
         None \<Rightarrow> None
       | Some f \<Rightarrow> (case f_verb f of
           None \<Rightarrow> None
         | Some v \<Rightarrow>
             if (case f_len f of None \<Rightarrow> False | Some n \<Rightarrow> n > length avail) then None
             else Some \<lparr>m_verb = v, m_reply_to = opt_str (f_reply f), m_task_id = opt_str (f_task f),
               m_payload = (case f_len f of None \<Rightarrow> avail | Some n \<Rightarrow> take n avail), m_fds = [], m_peer = no_peer\<rparr>)))"

subsection \<open>Sending and receiving\<close>

fun send_attempts :: "nat \<Rightarrow> nat \<Rightarrow> string \<Rightarrow> nat list \<Rightarrow> world \<Rightarrow> ipc_rc \<times> world" where
  "send_attempts k fd bs ns w = (case send_retry fd bs ns w of
       (Inr _, w) \<Rightarrow> (IPC_OK, w)
     | (Inl e, w) \<Rightarrow>
         if e = EPIPE \<or> e = ECONNRESET then (IPC_PEER_GONE, w)
         else if e = EAGAIN \<or> e = ENOBUFS then
           (case k of 0 \<Rightarrow> (IPC_ERR e, w) | Suc j \<Rightarrow> send_attempts j fd bs ns (sys_nanosleep w))
         else (IPC_ERR e, w))"

declare send_attempts.simps [simp del]

definition ipc_send :: "nat \<Rightarrow> ipc_msg \<Rightarrow> world \<Rightarrow> ipc_rc \<times> world" where
  "ipc_send fd msg w = (case build_header msg IPC_HEADER_HEADROOM of
       Inl e \<Rightarrow> (IPC_ERR e, w)
     | Inr hdr \<Rightarrow>
         if length (m_payload msg) > IPC_MSG_HARD_CAP then (IPC_ERR EMSGSIZE, w)
         else if length (m_fds msg) > IPC_MAX_FDS then (IPC_ERR EINVAL, w)
         else send_attempts IPC_SEND_RETRIES fd (hdr @ m_payload msg) (m_fds msg) w)"

definition read_peer_creds :: "(nat \<Rightarrow> errno + int \<times> nat \<times> nat) \<Rightarrow> nat \<Rightarrow> world \<Rightarrow> ((errno + unit) \<times> peer_id) \<times> world" where
  "read_peer_creds cred fd w = get_peer_creds cred fd w"

definition ipc_recv :: "(nat \<Rightarrow> errno + int \<times> nat \<times> nat) \<Rightarrow> nat \<Rightarrow> nat \<Rightarrow> world \<Rightarrow> (ipc_rc + ipc_msg) \<times> world" where
  "ipc_recv cred fd bufcap w =
     (if bufcap < IPC_MSG_DEFAULT_CAP then (Inl (IPC_ERR EINVAL), w)
      else (case recv_retry fd bufcap IPC_MAX_FDS w of
          (Inl e, w) \<Rightarrow> (Inl (IPC_ERR e), w)
        | (Inr rx, w) \<Rightarrow>
            if rx_bytes rx = [] then (Inl IPC_PEER_GONE, w)
            else if rx_trunc rx then (Inl IPC_PROTO_VIOLATION, w)
            else if length (rx_fds rx) > IPC_MAX_FDS then (Inl IPC_PROTO_VIOLATION, close_all (rx_fds rx) w)
            else (case parse_inplace (rx_bytes rx) of
                None \<Rightarrow> (Inl IPC_PROTO_VIOLATION, w)
              | Some m \<Rightarrow> (let ((_, p), w) = read_peer_creds cred fd w in (Inr (m\<lparr>m_fds := rx_fds rx, m_peer := p\<rparr>), w)))))"

subsection \<open>Connections\<close>

text \<open>The name stamped on a delivered channel: \<open>sscanf (meta, "SENDER %63s PID %ld UID %ld", ...)\<close>.\<close>

definition scan_lit :: "string \<Rightarrow> string \<Rightarrow> string option" where
  "scan_lit lit s = (let u = dropWhile c_isspace s in if starts_with lit u then Some (drop (length lit) u) else None)"

definition scan_word :: "nat \<Rightarrow> string \<Rightarrow> (string \<times> string) option" where
  "scan_word n s = (let u = dropWhile c_isspace s; t = takeWhile (\<lambda>c. \<not> c_isspace c) (take n u)
     in if t = [] then None else Some (t, drop (length t) u))"

definition scan_long :: "string \<Rightarrow> (int \<times> string) option" where
  "scan_long s = (case strtol s of (v, rest, _) \<Rightarrow> if rest = s then None else Some (v, rest))"

definition scan_field :: "string \<Rightarrow> string \<Rightarrow> (int \<times> string) option" where
  "scan_field lit s = (case scan_lit lit s of None \<Rightarrow> None | Some r \<Rightarrow> scan_long r)"

definition scan_meta :: "string \<Rightarrow> string \<times> int \<times> int" where
  "scan_meta meta = (if \<not> starts_with ''SENDER'' meta then ([], 0, 0)
     else (case scan_word 63 (drop 6 meta) of
         None \<Rightarrow> ([], 0, 0)
       | Some (sender, r) \<Rightarrow> (case scan_field ''PID'' r of
           None \<Rightarrow> (sender, 0, 0)
         | Some (pid, r) \<Rightarrow> (case scan_field ''UID'' r of
             None \<Rightarrow> (sender, pid, 0)
           | Some (uid, _) \<Rightarrow> (sender, pid, uid)))))"

definition meta_peer :: "string \<Rightarrow> peer_id" where
  "meta_peer meta = (case scan_meta (cstr meta) of (sender, pid, uid) \<Rightarrow>
     no_peer\<lparr>peer_pid := wrap_int pid, peer_uid := nat (uid mod 2 ^ 32),
       authenticated_name := snprintf_trunc MAX_NAME sender\<rparr>)"

lemma accept_intr: "(Inl EINTR, w') = sys_accept fd w \<Longrightarrow> length (sched w') < length (sched w)"
  unfolding sys_accept_def
  by (erule call_intr) (auto simp: new_fd_def Let_def split: option.splits desc.splits list.splits)

function accept_retry :: "nat \<Rightarrow> nat io" where
  "accept_retry fd w = (case sys_accept fd w of
       (Inl e, w') \<Rightarrow> if e = EINTR then accept_retry fd w' else (Inl e, w')
     | (Inr n, w') \<Rightarrow> (Inr n, w'))"
  by pat_completeness auto
termination by (relation "measure (\<lambda>(fd, w). length (sched w))") (auto dest: accept_intr)

lemma fcntl_intr: "(Inl EINTR, w') = sys_fcntl_fd fd w \<Longrightarrow> length (sched w') < length (sched w)"
  unfolding sys_fcntl_fd_def by (erule call_intr) (auto split: if_splits)

function lock_retry :: "nat \<Rightarrow> unit io" where
  "lock_retry fd w = (case sys_fcntl_fd fd w of
       (Inl e, w') \<Rightarrow> if e = EINTR then lock_retry fd w' else (Inl e, w')
     | (Inr n, w') \<Rightarrow> (Inr n, w'))"
  by pat_completeness auto
termination by (relation "measure (\<lambda>(fd, w). length (sched w))") (auto dest: fcntl_intr)

declare accept_retry.simps [simp del] lock_retry.simps [simp del]

definition broker_exchange_lock :: "(string \<Rightarrow> string option) \<Rightarrow> unit io" where
  "broker_exchange_lock getenv w =
     (if getenv ''AGENTCTL_BROKER_LOCK_FD'' \<noteq> Some ''5'' then (Inl EPROTO, w)
      else (case sys_fcntl_fd BROKER_LOCK_FD_SLOT w of
          (Inl _, w) \<Rightarrow> (Inl EPROTO, w) | (Inr _, w) \<Rightarrow> lock_retry BROKER_LOCK_FD_SLOT w))"

definition broker_exchange_unlock :: "world \<Rightarrow> world" where
  "broker_exchange_unlock w = snd (sys_fcntl_fd BROKER_LOCK_FD_SLOT w)"

definition sock_path_for :: "string \<Rightarrow> string io" where
  "sock_path_for agent = agent_path MAX_PATHBUF agent ''agent.sock''"

definition bind_and_listen :: "nat \<Rightarrow> string \<Rightarrow> unit io" where
  "bind_and_listen fd path w = (if length path \<ge> SUN_PATH_MAX then (Inl ENAMETOOLONG, w)
     else (case sys_bind fd path w of
         (Inl e, w) \<Rightarrow> (Inl e, w) | (Inr _, w) \<Rightarrow> sys_listen fd (snd (sys_chmod path 384 w))))"

definition ipc_listen :: "(string \<Rightarrow> string option) \<Rightarrow> string \<Rightarrow> nat io" where
  "ipc_listen getenv agent w =
     (let (inherited, w) = (if getenv ''AGENTCTL_INBOX_FD'' = Some ''4'' then
            (case sys_fcntl_fd INBOX_FD_SLOT w of (Inl _, w) \<Rightarrow> (False, w) | (Inr _, w) \<Rightarrow> (True, w)) else (False, w)) in
      if inherited then (Inr INBOX_FD_SLOT, w)
      else (case sock_path_for agent w of
        (Inl e, w) \<Rightarrow> (Inl e, w)
      | (Inr path, w) \<Rightarrow> (case sys_socket (snd (sys_unlink path w)) of
        (Inl e, w) \<Rightarrow> (Inl e, w)
      | (Inr fd, w) \<Rightarrow> (case bind_and_listen fd path (set_cloexec fd (set_cloexec fd w)) of
        (Inl e, w) \<Rightarrow> (Inl e, snd (sys_close fd w))
      | (Inr _, w) \<Rightarrow> (Inr fd, w)))))"

text \<open>
  \<open>ipc_accept\<close>: the connection and its peer, and whether \<open>shutdown_flag\<close> was set (the end of the
  delivery channel means that the supervisor is gone).
\<close>

definition accept_delivered :: "bool \<Rightarrow> world \<Rightarrow> ((errno + nat \<times> peer_id) \<times> bool) \<times> world" where
  "accept_delivered sd w = (case recv_retry INBOX_FD_SLOT 255 1 w of
       (Inl e, w) \<Rightarrow> ((Inl e, sd), w)
     | (Inr rx, w) \<Rightarrow>
         if rx_bytes rx = [] then ((Inl EINTR, True), w)
         else if rx_trunc rx then ((Inl EPROTO, sd), w)
         else (case rx_fds rx of
             [] \<Rightarrow> ((Inl EPROTO, sd), w)
           | n # _ \<Rightarrow> ((Inr (n, meta_peer (rx_bytes rx)), sd), set_cloexec n w)))"

definition ipc_accept :: "(nat \<Rightarrow> errno + int \<times> nat \<times> nat) \<Rightarrow> nat \<Rightarrow> bool \<Rightarrow> world \<Rightarrow>
    ((errno + nat \<times> peer_id) \<times> bool) \<times> world" where
  "ipc_accept cred server_fd sd w =
     (if server_fd = INBOX_FD_SLOT then accept_delivered sd w
      else (case accept_retry server_fd w of
          (Inl e, w) \<Rightarrow> ((Inl e, sd), w)
        | (Inr n, w) \<Rightarrow> (let ((_, p), w) = read_peer_creds cred n (set_cloexec n w) in ((Inr (n, p), sd), w))))"

definition has_broker :: "world \<Rightarrow> bool \<times> world" where
  "has_broker w = (case sys_fcntl_fd BROKER_FD_SLOT w of
       (Inl _, w) \<Rightarrow> (False, w)
     | (Inr _, w) \<Rightarrow> (case call (\<lambda>w. (case map_of (fds w) BROKER_FD_SLOT of
             Some (DSock _) \<Rightarrow> Inr () | Some _ \<Rightarrow> Inl ENOTSOCK | None \<Rightarrow> Inl EBADF, w)) w of
         (Inl _, w) \<Rightarrow> (False, w) | (Inr _, w) \<Rightarrow> (True, w)))"

definition broker_exchange :: "string \<Rightarrow> world \<Rightarrow> (ipc_rc + nat) \<times> world" where
  "broker_exchange target w = (case sys_sendmsg BROKER_FD_SLOT (broker_request target) [] w of
       (Inl e, w) \<Rightarrow> (Inl (IPC_ERR e), broker_exchange_unlock w)
     | (Inr _, w) \<Rightarrow> (case recv_retry BROKER_FD_SLOT 512 1 w of
         (Inl e, w) \<Rightarrow> (Inl (IPC_ERR e), broker_exchange_unlock w)
       | (Inr rx, w) \<Rightarrow>
           if rx_bytes rx = [] then (Inl (IPC_ERR E0), broker_exchange_unlock w)
           else (case rx_fds rx of
               [] \<Rightarrow> (Inl (IPC_ERR EACCES), broker_exchange_unlock w)
             | n # _ \<Rightarrow> (Inr n, broker_exchange_unlock (set_cloexec n w)))))"

definition sys_connect :: "(string \<Rightarrow> errno + unit) \<Rightarrow> nat \<Rightarrow> string \<Rightarrow> unit io" where
  "sys_connect conn fd path = call (\<lambda>w. (conn path, w))"

definition connect_path :: "(string \<Rightarrow> errno + unit) \<Rightarrow> string \<Rightarrow> world \<Rightarrow> (ipc_rc + nat) \<times> world" where
  "connect_path conn target w = (case sock_path_for target w of
       (Inl e, w) \<Rightarrow> (Inl (IPC_ERR e), w)
     | (Inr path, w) \<Rightarrow> (case sys_socket w of
         (Inl e, w) \<Rightarrow> (Inl (IPC_ERR e), w)
       | (Inr fd, w) \<Rightarrow>
           (let w = set_cloexec fd w in
            if length path \<ge> SUN_PATH_MAX then (Inl (IPC_ERR ENAMETOOLONG), snd (sys_close fd w))
            else (case sys_connect conn fd path w of
                (Inl e, w) \<Rightarrow> (Inl (if e = ENOENT \<or> e = ECONNREFUSED then IPC_PEER_GONE else IPC_ERR e), snd (sys_close fd w))
              | (Inr _, w) \<Rightarrow> (Inr fd, w)))))"

definition ipc_connect :: "(string \<Rightarrow> string option) \<Rightarrow> (string \<Rightarrow> errno + unit) \<Rightarrow> string \<Rightarrow> world \<Rightarrow> (ipc_rc + nat) \<times> world" where
  "ipc_connect getenv conn target w =
     (let (br, w) = has_broker w in
      if \<not> br then connect_path conn target w
      else if \<not> validate_name target then (Inl (IPC_ERR EINVAL), w)
      else (case broker_exchange_lock getenv w of
          (Inl e, w) \<Rightarrow> (Inl (IPC_ERR e), w) | (Inr _, w) \<Rightarrow> broker_exchange target w))"

definition ipc_close_listener :: "nat \<Rightarrow> string option \<Rightarrow> world \<Rightarrow> world" where
  "ipc_close_listener server_fd agent w =
     (let w = snd (sys_close server_fd w) in
      case agent of None \<Rightarrow> w
      | Some a \<Rightarrow> if server_fd = INBOX_FD_SLOT then w
          else (case sock_path_for a w of (Inl _, w) \<Rightarrow> w | (Inr p, w) \<Rightarrow> snd (sys_unlink p w)))"

definition ipc_send_oneshot :: "(string \<Rightarrow> string option) \<Rightarrow> (string \<Rightarrow> errno + unit) \<Rightarrow> string \<Rightarrow> string \<Rightarrow> string \<Rightarrow> string \<Rightarrow>
    string \<Rightarrow> world \<Rightarrow> ipc_rc \<times> world" where
  "ipc_send_oneshot getenv conn target verb reply_to task_id payload w =
     (if length payload > IPC_MSG_HARD_CAP then (IPC_ERR EMSGSIZE, w)
      else (case ipc_connect getenv conn target w of
          (Inl rc, w) \<Rightarrow> (rc, w)
        | (Inr fd, w) \<Rightarrow>
            (let (rc, w) = ipc_send fd \<lparr>m_verb = verb, m_reply_to = reply_to, m_task_id = task_id, m_payload = payload,
                   m_fds = [], m_peer = no_peer\<rparr> w
             in (rc, snd (sys_close fd w)))))"

end
