(* ===== verification/Transport.thy ===== *)
theory Transport
  imports Ipc
begin

text \<open>
  Properties of the message transport: headers parse back, accepted messages are well
  formed, a send delivers one whole message, and the identity the supervisor stamps on a
  channel is the one the receiver reads.
\<close>

section \<open>Headers\<close>

fun join_nl :: "string list \<Rightarrow> string" where
  "join_nl [] = []"
| "join_nl [l] = l"
| "join_nl (l # m # ls) = l @ NL # join_nl (m # ls)"

definition lines_ok :: "string list \<Rightarrow> bool" where
  "lines_ok ls \<longleftrightarrow> list_all (\<lambda>l. l \<noteq> [] \<and> NL \<notin> set l) ls"

lemma split_blank_line:
  "NL \<notin> set l \<Longrightarrow> r \<noteq> [] \<Longrightarrow> hd r \<noteq> NL \<Longrightarrow>
    split_blank (l @ NL # r) = map_option (\<lambda>(x, y). (l @ NL # x, y)) (split_blank r)"
proof (induction l)
  case Nil
  then show ?case by (cases r) (auto simp: case_prod_beta intro!: arg_cong2 [where f = map_option])
next
  case (Cons a l)
  obtain b t where bt: "l @ NL # r = b # t" by (cases "l @ NL # r") auto
  have "split_blank ((a # l) @ NL # r) = map_option (\<lambda>(x, y). (a # x, y)) (split_blank (l @ NL # r))"
    using Cons.prems(1) bt by auto
  then show ?case using Cons by (simp add: option.map_comp comp_def case_prod_beta)
qed

lemma split_blank_last: "NL \<notin> set l \<Longrightarrow> split_blank (l @ NL # NL # r) = Some (l, r)"
proof (induction l)
  case (Cons a l)
  obtain b t where bt: "l @ NL # NL # r = b # t" by (cases "l @ NL # NL # r") auto
  then show ?case using Cons by auto
qed simp

lemma split_blank_header: "ls \<noteq> [] \<Longrightarrow> lines_ok ls \<Longrightarrow> split_blank (header_text ls @ r) = Some (join_nl ls, r)"
proof (induction ls rule: join_nl.induct)
  case (3 l m ls)
  have h: "header_text (l # m # ls) @ r = l @ NL # (header_text (m # ls) @ r)" by (simp add: header_text_def)
  have "hd (header_text (m # ls) @ r) \<noteq> NL" "header_text (m # ls) @ r \<noteq> []"
    using 3 by (cases m; auto simp: header_text_def lines_ok_def)+
  then show ?case using 3 unfolding h by (subst split_blank_line) (auto simp: lines_ok_def)
qed (simp_all add: header_text_def lines_ok_def split_blank_last)

lemma c_lines_join: "lines_ok ls \<Longrightarrow> c_lines (join_nl ls) = ls"
  by (induction ls rule: join_nl.induct) (auto simp: lines_ok_def c_lines_line c_lines_last)

lemma parse_header:
  "ls \<noteq> [] \<Longrightarrow> lines_ok ls \<Longrightarrow> header_lines ls fields0 = Some f \<Longrightarrow> f_len f = None \<Longrightarrow> f_verb f = Some v \<Longrightarrow>
    parse_inplace (header_text ls @ r) = Some \<lparr>m_verb = v, m_reply_to = opt_str (f_reply f), m_task_id = opt_str (f_task f),
      m_payload = r, m_fds = [], m_peer = no_peer\<rparr>"
  by (simp add: parse_inplace_def split_blank_header c_lines_join)

definition field_text :: "string \<Rightarrow> bool" where
  "field_text v \<longleftrightarrow> NUL \<notin> set v \<and> NL \<notin> set v \<and> (case v of [] \<Rightarrow> True | c # _ \<Rightarrow> c \<noteq> SP)"

lemma field_value_ok: "field_text v \<Longrightarrow> length k = n \<Longrightarrow> field_value n (k @ v) = v"
  by (cases v) (auto simp: field_value_def field_text_def cstr_id)

lemma header_line_fields:
  assumes "field_text v"
  shows "f_verb f = None \<Longrightarrow> v \<noteq> [] \<Longrightarrow> header_line (''VERB '' @ v) f = Some (f\<lparr>f_verb := Some v\<rparr>)"
    and "f_reply f = None \<Longrightarrow> header_line (''REPLY-TO '' @ v) f = Some (f\<lparr>f_reply := Some v\<rparr>)"
    and "f_task f = None \<Longrightarrow> header_line (''TASK-ID '' @ v) f = Some (f\<lparr>f_task := Some v\<rparr>)"
  using field_value_ok [OF assms, of "''VERB ''" 5] field_value_ok [OF assms, of "''REPLY-TO ''" 9]
    field_value_ok [OF assms, of "''TASK-ID ''" 8]
  by (simp_all add: header_line_def starts_with_def)

text \<open>The lines of the header of a message.\<close>

definition opt_line :: "string \<Rightarrow> string \<Rightarrow> string list" where
  "opt_line k v = (if v = [] then [] else [k @ v])"

definition msg_lines :: "ipc_msg \<Rightarrow> string list" where
  "msg_lines m = (''VERB '' @ m_verb m) # opt_line ''REPLY-TO '' (m_reply_to m) @ opt_line ''TASK-ID '' (m_task_id m)"

definition msg_ok :: "ipc_msg \<Rightarrow> bool" where
  "msg_ok m \<longleftrightarrow> m_verb m \<noteq> [] \<and> field_text (m_verb m) \<and> field_text (m_reply_to m) \<and> field_text (m_task_id m)"

lemma build_header_text: "build_header m sz = Inr h \<Longrightarrow> h = header_text (msg_lines m) \<and> m_verb m \<noteq> [] \<and> length h < sz"
  by (auto simp: build_header_def append_field_def append_hdr_def header_text_def msg_lines_def opt_line_def
      split: if_splits sum.splits)

lemma header_lines_append:
  "header_lines (xs @ ys) f = (case header_lines xs f of None \<Rightarrow> None | Some g \<Rightarrow> header_lines ys g)"
  by (induction xs arbitrary: f) (simp_all split: option.splits)

lemma header_lines_msg:
  assumes "msg_ok m"
  shows "header_lines (msg_lines m) fields0 = Some (fields0\<lparr>f_verb := Some (m_verb m),
    f_reply := (if m_reply_to m = [] then None else Some (m_reply_to m)),
    f_task := (if m_task_id m = [] then None else Some (m_task_id m))\<rparr>)"
  using assms by (auto simp: msg_ok_def msg_lines_def opt_line_def header_line_fields header_lines_append fields0_def simp del: append_Cons)

lemma msg_lines_ok: "msg_ok m \<Longrightarrow> lines_ok (msg_lines m)"
  by (auto simp: msg_ok_def field_text_def msg_lines_def opt_line_def lines_ok_def)

lemma parse_built:
  assumes "build_header m sz = Inr h" "msg_ok m"
  shows "parse_inplace (h @ m_payload m) = Some (m\<lparr>m_fds := [], m_peer := no_peer\<rparr>)"
proof -
  have h: "h = header_text (msg_lines m)" using build_header_text [OF assms(1)] by simp
  have "msg_lines m \<noteq> []" by (simp add: msg_lines_def)
  from parse_header [OF this msg_lines_ok [OF assms(2)] header_lines_msg [OF assms(2)]] show ?thesis
    unfolding h by (cases m) (simp add: fields0_def opt_str_def)
qed

section \<open>Accepted messages\<close>

lemma field_value_text: "NL \<notin> set l \<Longrightarrow> field_text (field_value n l)"
proof -
  assume "NL \<notin> set l"
  then have "NL \<notin> set (cstr (drop n l))" using set_drop_subset set_takeWhileD by (fastforce simp: cstr_def)
  moreover have "NUL \<notin> set (cstr s)" for s by (auto simp: cstr_def dest: set_takeWhileD)
  moreover have "case dropWhile (\<lambda>c. c = SP) s of [] \<Rightarrow> True | c # _ \<Rightarrow> c \<noteq> SP" for s
    by (induction s) auto
  ultimately show ?thesis by (auto simp: field_text_def field_value_def dest: set_dropWhileD)
qed

definition fields_ok :: "fields \<Rightarrow> bool" where
  "fields_ok f \<longleftrightarrow> (case f_verb f of None \<Rightarrow> True | Some v \<Rightarrow> v \<noteq> [] \<and> field_text v) \<and>
     field_text (opt_str (f_reply f)) \<and> field_text (opt_str (f_task f)) \<and>
     (case f_len f of None \<Rightarrow> True | Some n \<Rightarrow> n \<le> IPC_MSG_HARD_CAP)"

lemma header_len_cap: "header_len v = Some n \<Longrightarrow> n \<le> IPC_MSG_HARD_CAP"
  by (auto simp: header_len_def split: prod.splits if_splits)

lemma header_line_ok: "NL \<notin> set l \<Longrightarrow> fields_ok f \<Longrightarrow> header_line l f = Some g \<Longrightarrow> fields_ok g"
proof -
  assume l: "NL \<notin> set l" and f: "fields_ok f" and g: "header_line l f = Some g"
  have "g = f \<or> (\<exists>v. field_text v \<and> v \<noteq> [] \<and> g = f\<lparr>f_verb := Some v\<rparr>) \<or>
    (\<exists>n v. header_len v = Some n \<and> g = f\<lparr>f_len := Some n\<rparr>) \<or>
    (\<exists>v. field_text v \<and> (g = f\<lparr>f_reply := Some v\<rparr> \<or> g = f\<lparr>f_task := Some v\<rparr>))"
    using g field_value_text [OF l] unfolding header_line_def by (fastforce split: if_split_asm option.split_asm)
  with f show ?thesis by (auto simp: fields_ok_def opt_str_def header_len_cap)
qed

lemma header_lines_ok:
  "(\<And>l. l \<in> set ls \<Longrightarrow> NL \<notin> set l) \<Longrightarrow> fields_ok f \<Longrightarrow> header_lines ls f = Some g \<Longrightarrow> fields_ok g"
  by (induction ls arbitrary: f) (auto split: option.splits dest: header_line_ok)

lemma split_blank_Some: "split_blank s = Some (h, r) \<Longrightarrow> s = h @ NL # NL # r"
  by (induction s arbitrary: h rule: split_blank.induct) (auto split: if_splits)



section \<open>Sending\<close>

lemma send_retry_sent:
  assumes "map_of (fds w) fd = Some (DSock e)" "send_retry fd bs ns w = (r, w')"
  shows "fds w' = fds w" "case r of Inl _ \<Rightarrow> sent w' = sent w
    | Inr _ \<Rightarrow> \<exists>pk. sent w' = (e, pk) # sent w \<and> bytes pk = bs \<and> length (rights pk) = length ns"
proof -
  have "fds w' = fds w \<and> (case r of Inl _ \<Rightarrow> sent w' = sent w
    | Inr _ \<Rightarrow> \<exists>pk. sent w' = (e, pk) # sent w \<and> bytes pk = bs \<and> length (rights pk) = length ns)"
    using assms
  proof (induction fd bs ns w rule: send_retry.induct)
    case (1 fd bs ns w)
    obtain x w1 where x: "sys_sendmsg fd bs ns w = (x, w1)" by fastforce
    have s: "fds w1 = fds w" "case x of Inl _ \<Rightarrow> sent w1 = sent w
      | Inr _ \<Rightarrow> \<exists>pk. sent w1 = (e, pk) # sent w \<and> bytes pk = bs \<and> length (rights pk) = length ns"
      using x "1.prems"(1) unfolding sys_sendmsg_def
      by (auto elim!: call_cases split: option.splits desc.splits if_splits)
    show ?case
    proof (cases "x = Inl EINTR")
      case True
      then show ?thesis
        using "1.IH" [OF x [symmetric]] "1.prems" s x by (cases r) (simp_all add: send_retry.simps [of fd bs ns w])
    next
      case False
      then have "r = x \<and> w' = w1" using "1.prems"(2) x by (auto simp: send_retry.simps [of fd bs ns w] split: sum.splits)
      then show ?thesis using s by blast
    qed
  qed
  then show "fds w' = fds w" "case r of Inl _ \<Rightarrow> sent w' = sent w
    | Inr _ \<Rightarrow> \<exists>pk. sent w' = (e, pk) # sent w \<and> bytes pk = bs \<and> length (rights pk) = length ns" by auto
qed

lemma sent_nanosleep [simp]: "sent (sys_nanosleep w) = sent w"
proof -
  have "sent (apply_event ev v) = sent v" for ev v by (cases ev) (auto simp: put_inode_def split: option.splits)
  then have "sent (fold apply_event es v) = sent v" for es v by (induction es arbitrary: v) simp_all
  then show ?thesis by (simp add: sys_nanosleep_def split: list.splits)
qed

lemma send_attempts_sent:
  "map_of (fds w) fd = Some (DSock e) \<Longrightarrow> send_attempts k fd bs ns w = (rc, w') \<Longrightarrow>
    fds w' = fds w \<and> (if rc = IPC_OK
      then \<exists>pk. sent w' = (e, pk) # sent w \<and> bytes pk = bs \<and> length (rights pk) = length ns else sent w' = sent w)"
proof (induction k fd bs ns w rule: send_attempts.induct)
  case (1 k fd bs ns w)
  obtain r w1 where r: "send_retry fd bs ns w = (r, w1)" by fastforce
  note s = send_retry_sent [OF "1.prems"(1) r]
  show ?case
  proof (cases "\<exists>er j. r = Inl er \<and> (er = EAGAIN \<or> er = ENOBUFS) \<and> k = Suc j")
    case True
    then obtain er j where j: "r = Inl er" "er = EAGAIN \<or> er = ENOBUFS" "k = Suc j" by blast
    then have "send_attempts j fd bs ns (sys_nanosleep w1) = (rc, w')"
      using "1.prems"(2) r by (auto simp: send_attempts.simps [of "Suc j" fd bs ns w])
    moreover have "er \<noteq> EPIPE \<and> er \<noteq> ECONNRESET" using j(2) by auto
    ultimately show ?thesis using "1.IH" [OF r [symmetric] j(1) _ j(2,3)] "1.prems"(1) s j(1) by (auto split: if_splits)
  next
    case False
    then show ?thesis using "1.prems"(2) r s
      by (auto simp: send_attempts.simps [of k fd bs ns w] split: sum.splits if_splits nat.splits)
  qed
qed


definition ping :: ipc_msg where
  "ping = \<lparr>m_verb = ''ping'', m_reply_to = ''a'', m_task_id = [], m_payload = [NL, NL], m_fds = [], m_peer = no_peer\<rparr>"


section \<open>The identity of a delivered connection\<close>

lemma name_char_nospace: "name_char c \<Longrightarrow> \<not> c_isspace c"
  by (auto simp: name_char_def c_isalnum_def c_isalpha_def c_isdigit_def c_isspace_def)

lemma scan_word_text:
  assumes "s \<noteq> []" "length s \<le> n" "\<forall>c\<in>set s. \<not> c_isspace c"
  shows "scan_word n (SP # s @ NL # r) = Some (s, NL # r)"
proof -
  have "dropWhile c_isspace (SP # s @ NL # r) = s @ NL # r"
    using assms(1,3) by (cases s) (auto simp: c_isspace_def [of SP])
  moreover have "takeWhile (\<lambda>c. \<not> c_isspace c) (take n (s @ NL # r)) = s"
    using assms(2,3) by (cases "n - length s") (simp_all add: c_isspace_def [of NL])
  ultimately show ?thesis using assms(1) by (simp add: scan_word_def)
qed

lemma strtol_skip: "strtol s = (v, r, e) \<Longrightarrow> r \<noteq> s \<Longrightarrow> strtol (SP # s) = (v, r, e)"
  by (auto simp: strtol_def c_isspace_def [of SP] Let_def split: prod.splits if_splits)

lemma scan_field_text:
  assumes "k \<noteq> []" "\<not> c_isspace (hd k)" "strtol (d @ r) = (v, r, e)" "d \<noteq> []"
  shows "scan_field k (NL # k @ SP # d @ r) = Some (v, r)"
proof -
  have "dropWhile c_isspace (NL # k @ SP # d @ r) = k @ SP # d @ r"
    using assms(1,2) by (cases k) (auto simp: c_isspace_def [of NL])
  moreover have "strtol (SP # d @ r) = (v, r, e)" using strtol_skip [OF assms(3)] assms(4) by simp
  moreover have "r \<noteq> SP # d @ r" by (metis append_Cons append_self_conv2 list.distinct(1))
  ultimately show ?thesis by (simp add: scan_field_def scan_lit_def scan_long_def)
qed

lemma meta_peer_channel:
  assumes "validate_name s" "length s < MAX_NAME" "- (2 ^ 31) \<le> p" "p \<le> INT_MAX" "u < 2 ^ 32"
  shows "meta_peer (channel_meta s p u) = \<lparr>peer_pid = p, peer_uid = u, peer_gid = 0, authenticated_name = s\<rparr>"
proof -
  have s: "s \<noteq> []" "\<forall>c\<in>set s. \<not> c_isspace c" "NUL \<notin> set s"
    using assms(1) validate_name_chars [OF assms(1)] name_char_nospace validate_name_notin [OF assms(1), of NUL]
    by (auto simp: validate_name_def)
  define U where "U = dec_nat u @ [NL, NL]"
  have nd: "no_digit_ahead (NL # x)" for x by (simp add: no_digit_ahead_def c_isdigit_def)
  have "strtol U = (int u, [NL, NL], False)" using assms(5) nd by (simp add: U_def LONG_MAX_def)
  then have u: "scan_field ''UID'' (NL # ''UID'' @ SP # U) = Some (int u, [NL, NL])"
    unfolding U_def by (intro scan_field_text [where e = False]) (simp_all add: c_isspace_def)
  define P where "P = dec_int p @ NL # ''UID'' @ SP # U"
  have "strtol P = (p, NL # ''UID'' @ SP # U, False)"
    using assms(3,4) strtol_dec_int [OF nd, of p] by (simp add: P_def LONG_MAX_def LONG_MIN_def INT_MAX_def)
  then have p: "scan_field ''PID'' (NL # ''PID'' @ SP # P) = Some (p, NL # ''UID'' @ SP # U)"
    unfolding P_def by (intro scan_field_text [where e = False]) (simp_all add: c_isspace_def dec_int_def)
  have w: "scan_word 63 (SP # s @ NL # ''PID'' @ SP # P) = Some (s, NL # ''PID'' @ SP # P)"
    using s assms(2) by (intro scan_word_text) (auto simp: MAX_NAME_def)
  have m: "channel_meta s p u = ''SENDER'' @ SP # s @ NL # ''PID'' @ SP # P"
    by (simp add: channel_meta_def P_def U_def)
  have "NUL \<notin> set (channel_meta s p u)"
    using s(3) dec_int_plain dec_nat_digits [of NUL u] by (auto simp: channel_meta_def c_isdigit_def)
  moreover have "drop 6 (''SENDER'' @ x) = x" for x by simp
  ultimately have "scan_meta (cstr (channel_meta s p u)) = (s, p, int u)"
    using u p w by (simp add: m scan_meta_def del: append_Cons)
  moreover have "wrap_int p = p" using assms(3,4) by (simp add: wrap_int_def INT_MAX_def)
  ultimately show ?thesis
    using assms(2,5) by (simp add: meta_peer_def no_peer_def snprintf_trunc_def MAX_NAME_def)
qed

lemma length_channel_meta:
  assumes "length s < MAX_NAME" "- (2 ^ 31) \<le> p" "p \<le> INT_MAX" "u < 2 ^ 32"
  shows "length (channel_meta s p u) \<le> 255"
proof -
  have "nat p < 10 ^ 10" "nat (- p) < 10 ^ 10" "u < 10 ^ 10" using assms(2-4) by (auto simp: INT_MAX_def)
  then have "length (dec_nat (nat p)) \<le> 10" "length (dec_nat (nat (- p))) \<le> 10" "length (dec_nat u) \<le> 10"
    by (intro length_dec_nat; simp)+
  then show ?thesis using assms(1) by (auto simp: channel_meta_def dec_int_def MAX_NAME_def)
qed

lemma recv_retry_head:
  "map_of (fds w) fd = Some (DSock e) \<Longrightarrow> ep_queue e w = pk # q \<Longrightarrow> recv_retry fd c k w = (Inr rx, w') \<Longrightarrow>
    rx_bytes rx = take c (bytes pk)"
proof (induction fd c k w rule: recv_retry.induct)
  case (1 fd c k w)
  obtain x w1 where x: "sys_recvmsg fd c k w = (x, w1)" by fastforce
  from x have s: "case x of Inl _ \<Rightarrow> fds w1 = fds w \<and> ep_queue e w1 = pk # q | Inr rx \<Rightarrow> rx_bytes rx = take c (bytes pk)"
    using "1.prems"(1,2) unfolding sys_recvmsg_def
    by (auto elim!: call_cases simp: ep_queue_def split: prod.splits option.splits)
  show ?case
  proof (cases "x = Inl EINTR")
    case True
    then show ?thesis using "1.IH" [OF x [symmetric]] "1.prems" s x by (simp add: recv_retry.simps [of fd c k w])
  next
    case False
    then have "x = Inr rx" using "1.prems"(3) x by (auto simp: recv_retry.simps [of fd c k w] split: sum.splits)
    then show ?thesis using s by simp
  qed
qed

lemma deliver_channel_sent:
  assumes "deliver_channel inbox meta w = (Issued a, w')" "map_of (fds w) inbox = Some (DSock e)"
  shows "\<exists>pk. sent w' = (e, pk) # sent w \<and> bytes pk = meta \<and> length (rights pk) = 1"
proof -
  obtain x w1 where x: "sys_socketpair w = (x, w1)" by fastforce
  with assms(1) obtain m n where mn: "x = Inr (m, n)" by (cases x) (auto simp: deliver_channel_def)
  let ?w2 = "set_cloexec n (set_cloexec m w1)"
  obtain y w3 where y: "send_retry inbox meta [n] ?w2 = (y, w3)" by fastforce
  have "held (fds w) [m, n] ?w2"
    using held_socketpair [of "fds w" "[]" w m n w1] x mn held_keep [of "fds w" "[m, n]" w1 ?w2] by simp
  then have "map_of (fds ?w2) inbox = Some (DSock e)" using held_map assms(2) by blast
  moreover have "sent (snd (sys_close k v)) = sent v" "sent (set_cloexec k v) = sent v" for k v
    by (rule ambient_fields, simp)+
  moreover note send_retry_sent [OF calculation(1) y]
  ultimately show ?thesis
    using assms(1) x mn y socketpair_sent [of w]
    by (auto simp: deliver_channel_def Let_def split: sum.splits)
qed

text \<open>
  C9. The identity an agent sees is the one the supervisor vouches for: when agentd delivers a
  channel for a sender (a valid name that fits the name buffer) and the receiver, whatever calls
  fail on the way, accepts that packet from its inbox, then the peer it
  is told is exactly that sender, with its process and user ids.\<close>

theorem delivered_identity:
  assumes "validate_name sender" "length sender < MAX_NAME" "- (2 ^ 31) \<le> pid" "pid \<le> INT_MAX" "uid < 2 ^ 32"
    and "map_of (fds w) inbox = Some (DSock e)"
    and "deliver_channel inbox (channel_meta sender pid uid) w = (Issued a, w')"
    and "map_of (fds v) INBOX_FD_SLOT = Some (DSock e')" "ep_queue e' v = map snd (take 1 (sent w')) @ q"
    and "ipc_accept cred INBOX_FD_SLOT sd v = ((Inr (n, peer), sd'), v')"
  shows "peer = \<lparr>peer_pid = pid, peer_uid = uid, peer_gid = 0, authenticated_name = sender\<rparr> \<and> sd' = sd"
proof -
  obtain pk where pk: "sent w' = (e, pk) # sent w" "bytes pk = channel_meta sender pid uid"
    using deliver_channel_sent assms(6,7) by blast
  obtain rx w1 where rx: "recv_retry INBOX_FD_SLOT 255 1 v = (Inr rx, w1)" "\<not> rx_trunc rx"
      "peer = meta_peer (rx_bytes rx)" "sd' = sd"
    using assms(10) by (auto simp: ipc_accept_def accept_delivered_def split: prod.splits sum.splits if_splits list.splits)
  have "rx_bytes rx = take 255 (bytes pk)" using recv_retry_head [OF assms(8) _ rx(1)] assms(9) pk(1) by simp
  moreover have "length (channel_meta sender pid uid) \<le> 255"
    by (rule length_channel_meta [OF assms(2-5)])
  ultimately show ?thesis using rx pk meta_peer_channel assms by simp
qed

definition agentd_side :: world where
  "agentd_side = world0\<lparr>fds := [(9, DSock 1)], next_ep := 2\<rparr>"

definition agent_side :: world where
  "agent_side = world0\<lparr>fds := [(INBOX_FD_SLOT, DSock 0)],
     rxq := [(0, map snd (take 1 (sent (snd (deliver_channel 9 (channel_meta ''alice'' 42 1000) agentd_side)))))]\<rparr>"

theorem delivered_identity_witness:
  "\<exists>n v'. ipc_accept (\<lambda>_. Inl EPERM) INBOX_FD_SLOT False agent_side =
     ((Inr (n, \<lparr>peer_pid = 42, peer_uid = 1000, peer_gid = 0, authenticated_name = ''alice''\<rparr>), False), v')"
proof -
  let ?a = "ipc_accept (\<lambda>_. Inl EPERM) INBOX_FD_SLOT False agent_side"
  have "case fst (fst ?a) of Inl _ \<Rightarrow> False | Inr _ \<Rightarrow> True" by code_simp
  then obtain n p sd v' where a: "?a = ((Inr (n, p), sd), v')" by (cases ?a) (auto split: sum.splits)
  have "case fst (deliver_channel 9 (channel_meta ''alice'' 42 1000) agentd_side) of Issued _ \<Rightarrow> True | _ \<Rightarrow> False"
    by code_simp
  then obtain k w' where d: "deliver_channel 9 (channel_meta ''alice'' 42 1000) agentd_side = (Issued k, w')"
    by (cases "deliver_channel 9 (channel_meta ''alice'' 42 1000) agentd_side") (auto split: issue.splits)
  have "validate_name ''alice''" "length ''alice'' < MAX_NAME" by code_simp+
  from delivered_identity [OF this _ _ _ _ d _ _ a, of 1 0 "[]"] a d show ?thesis
    by (simp add: agentd_side_def agent_side_def ep_queue_def INT_MAX_def)
qed

end
