(* ===== verification/Framing.thy ===== *)
theory Framing
  imports Transport
begin

text \<open>
  The message layer the runtimes use (\<open>common.c\<close>): \<open>read_message\<close> and \<open>send_framed_message_ex\<close> over the
  socket transport of theory Ipc, the framed messages of an agentfs mailbox (\<open>agentfs_send\<close>,
  \<open>agentfs_recv\<close>, \<open>parse_framed_in_buf\<close>), the choice between the two, and the signal flags of a runtime.

  The write to and the read from a mailbox file go to the kernel module (theory AgentFS, another address
  space); here they are parameters of the operations that use them. The lemmas show that both transports
  deliver the same message and how many bytes \<open>read_message\<close> copies.
\<close>

section \<open>Messages\<close>

definition MAX_VERB :: nat where "MAX_VERB = 64"
definition MAX_PAYLOAD :: nat where "MAX_PAYLOAD = 1048576"
definition MAX_TASK_ID_INLINE :: nat where "MAX_TASK_ID_INLINE = 32"

record agent_msg_hdr =
  h_verb :: string
  payload_len :: nat
  h_reply_to :: string
  h_task_id :: string

definition no_hdr :: agent_msg_hdr where
  "no_hdr = \<lparr>h_verb = [], payload_len = 0, h_reply_to = [], h_task_id = []\<rparr>"

definition hdr_of :: "ipc_msg \<Rightarrow> agent_msg_hdr" where
  "hdr_of m = \<lparr>h_verb = snprintf_trunc MAX_VERB (m_verb m), payload_len = length (m_payload m),
     h_reply_to = snprintf_trunc MAX_NAME (m_reply_to m), h_task_id = snprintf_trunc MAX_TASK_ID_INLINE (m_task_id m)\<rparr>"

text \<open>The header and the bytes copied to the caller's buffer.\<close>

definition read_message :: "(nat \<Rightarrow> errno + int \<times> nat \<times> nat) \<Rightarrow> nat \<Rightarrow> (agent_msg_hdr \<times> string) io" where
  "read_message cred fd w = (case ipc_recv cred fd IPC_BUF_CAP w of
       (Inl rc, w) \<Rightarrow> (Inl (case rc of IPC_PROTO_VIOLATION \<Rightarrow> EPROTO | IPC_PEER_GONE \<Rightarrow> ECONNRESET | IPC_ERR e \<Rightarrow> e | IPC_OK \<Rightarrow> E0), w)
     | (Inr m, w) \<Rightarrow> (Inr (hdr_of m, m_payload m), w))"

definition create_server_socket :: "(string \<Rightarrow> string option) \<Rightarrow> string \<Rightarrow> nat io" where
  "create_server_socket getenv name = ipc_listen getenv name"

definition connect_agent :: "(string \<Rightarrow> string option) \<Rightarrow> (string \<Rightarrow> errno + unit) \<Rightarrow> string \<Rightarrow> world \<Rightarrow> (ipc_rc + nat) \<times> world" where
  "connect_agent getenv conn target w =
     (if \<not> validate_name target then (Inl (IPC_ERR EINVAL), w) else ipc_connect getenv conn target w)"

definition accept_client :: "(nat \<Rightarrow> errno + int \<times> nat \<times> nat) \<Rightarrow> nat \<Rightarrow> bool \<Rightarrow> world \<Rightarrow>
    ((errno + nat \<times> peer_id) \<times> bool) \<times> world" where
  "accept_client cred server_fd sd = ipc_accept cred server_fd sd"

text \<open>The result of a send: 0, -2 (no such receiver) or -1.\<close>

datatype send_rc = SendOk | SendGone | SendErr errno

definition send_framed_message_ex :: "nat \<Rightarrow> string \<Rightarrow> string \<Rightarrow> string \<Rightarrow> string \<Rightarrow> unit io" where
  "send_framed_message_ex fd verb reply_to task_id payload w =
     (if length payload > MAX_PAYLOAD then (Inl EMSGSIZE, w)
      else if verb = [] \<or> length verb \<ge> MAX_VERB then (Inl EINVAL, w)
      else (case ipc_send fd \<lparr>m_verb = verb, m_reply_to = reply_to, m_task_id = task_id, m_payload = payload,
                  m_fds = [], m_peer = no_peer\<rparr> w of
          (IPC_OK, w) \<Rightarrow> (Inr (), w) | (IPC_ERR e, w) \<Rightarrow> (Inl e, w) | (_, w) \<Rightarrow> (Inl EPIPE, w)))"

definition send_framed_message :: "nat \<Rightarrow> string \<Rightarrow> string \<Rightarrow> unit io" where
  "send_framed_message fd verb payload = send_framed_message_ex fd verb [] [] payload"

definition send_to_agent_uds :: "(string \<Rightarrow> string option) \<Rightarrow> (string \<Rightarrow> errno + unit) \<Rightarrow> string \<Rightarrow> string \<Rightarrow> string \<Rightarrow>
    string \<Rightarrow> string \<Rightarrow> world \<Rightarrow> send_rc \<times> world" where
  "send_to_agent_uds getenv conn target verb reply_to task_id payload w =
     (case ipc_send_oneshot getenv conn target verb reply_to task_id payload w of
        (IPC_OK, w) \<Rightarrow> (SendOk, w) | (IPC_PEER_GONE, w) \<Rightarrow> (SendGone, w)
      | (IPC_ERR e, w) \<Rightarrow> (SendErr e, w) | (IPC_PROTO_VIOLATION, w) \<Rightarrow> (SendErr E0, w))"

section \<open>Framed messages\<close>

definition AGENTFS_CAP :: nat where "AGENTFS_CAP = MAX_PAYLOAD + 4096"

definition or_mount :: "string \<Rightarrow> string" where
  "or_mount m = (if m = [] then ''/mnt/agentfs'' else m)"

definition agentfs_frame :: "string \<Rightarrow> string \<Rightarrow> string \<Rightarrow> string \<Rightarrow> errno + string" where
  "agentfs_frame verb reply_to task_id payload =
     (case append_hdr AGENTFS_CAP (''VERB '' @ verb @ [NL]) [] of
        Inl e \<Rightarrow> Inl e
      | Inr out \<Rightarrow> (case append_field AGENTFS_CAP ''TASK-ID '' task_id (append_field AGENTFS_CAP ''REPLY-TO '' reply_to
            (append_hdr AGENTFS_CAP (''LEN '' @ dec_nat (length payload) @ [NL]) out)) of
          Inl e \<Rightarrow> Inl e
        | Inr out \<Rightarrow> (case append_hdr AGENTFS_CAP [NL] out of
            Inl e \<Rightarrow> Inl e
          | Inr out \<Rightarrow> if length out + length payload > AGENTFS_CAP then Inl EOVERFLOW else Inr (out @ payload))))"

definition agentfs_send :: "(nat \<Rightarrow> string \<Rightarrow> nat io) \<Rightarrow> string \<Rightarrow> string \<Rightarrow> string \<Rightarrow> string \<Rightarrow> string \<Rightarrow> string \<Rightarrow>
    world \<Rightarrow> send_rc \<times> world" where
  "agentfs_send kwrite mnt target verb reply_to task_id payload w =
     (if \<not> validate_name target then (SendErr EINVAL, w)
      else if length payload > MAX_PAYLOAD then (SendErr EMSGSIZE, w)
      else if verb = [] \<or> length verb \<ge> MAX_VERB then (SendErr EINVAL, w)
      else (case agentfs_frame verb reply_to task_id payload of
          Inl e \<Rightarrow> (SendErr e, w)
        | Inr buf \<Rightarrow> (case fit MAX_PATHBUF (or_mount mnt @ ''/agents/'' @ target @ ''/inbox'') of
            Inl e \<Rightarrow> (SendErr e, w)
          | Inr path \<Rightarrow> (case sys_open path [O_WRONLY, O_CLOEXEC] 0 w of
              (Inl e, w) \<Rightarrow> (if e = ENOENT then SendGone else SendErr e, w)
            | (Inr fd, w) \<Rightarrow> (case kwrite fd buf w of
                (Inl e, w) \<Rightarrow> (SendErr e, snd (sys_close fd w))
              | (Inr n, w) \<Rightarrow> (if n \<noteq> length buf then SendErr EIO else SendOk, snd (sys_close fd w)))))))"

definition send_to_agent_ex :: "(string \<Rightarrow> string option) \<Rightarrow> (string \<Rightarrow> errno + unit) \<Rightarrow> (nat \<Rightarrow> string \<Rightarrow> nat io) \<Rightarrow>
    string \<Rightarrow> string \<Rightarrow> string \<Rightarrow> string \<Rightarrow> string \<Rightarrow> world \<Rightarrow> send_rc \<times> world" where
  "send_to_agent_ex getenv conn kwrite target verb reply_to task_id payload w = (case transport_resolve target w of
       (Inl _, w) \<Rightarrow> send_to_agent_uds getenv conn target verb reply_to task_id payload w
     | (Inr t, w) \<Rightarrow>
         if tkind t = TRANSPORT_AGENTFS then agentfs_send kwrite (mount t) target verb reply_to task_id payload w
         else send_to_agent_uds getenv conn target verb reply_to task_id payload w)"

definition send_to_agent :: "(string \<Rightarrow> string option) \<Rightarrow> (string \<Rightarrow> errno + unit) \<Rightarrow> (nat \<Rightarrow> string \<Rightarrow> nat io) \<Rightarrow>
    string \<Rightarrow> string \<Rightarrow> string \<Rightarrow> world \<Rightarrow> send_rc \<times> world" where
  "send_to_agent getenv conn kwrite target verb payload = send_to_agent_ex getenv conn kwrite target verb [] [] payload"

definition agentfs_listen :: "string \<Rightarrow> string \<Rightarrow> nat io" where
  "agentfs_listen agent mnt w = (case fit MAX_PATHBUF (or_mount mnt @ ''/register'') of
       Inl e \<Rightarrow> (Inl e, w)
     | Inr path \<Rightarrow> (case sys_open path [O_WRONLY, O_CLOEXEC] 0 w of
         (Inl e, w) \<Rightarrow> (Inl e, w)
       | (Inr fd, w) \<Rightarrow> (case write_all fd agent w of
           (Inl e, w) \<Rightarrow> (Inl e, snd (sys_close fd w))
         | (Inr _, w) \<Rightarrow> (let w = snd (sys_close fd w) in
             case fit MAX_PATHBUF (or_mount mnt @ ''/agents/'' @ agent @ ''/inbox'') of
               Inl e \<Rightarrow> (Inl e, w) | Inr path \<Rightarrow> sys_open path [O_RDWR, O_CLOEXEC] 0 w))))"

text \<open>
  The parser of a framed message. A header field is copied to a zeroed array and read as a C string. A
  \<open>LEN\<close> that is no number counts as 0, and a later \<open>LEN\<close> replaces an earlier one.
\<close>

definition framed_len :: "string \<Rightarrow> nat option" where
  "framed_len v = (if length v \<ge> 32 then None else (case strtol (cstr v) of (n, _, erange) \<Rightarrow>
     if erange \<or> n < 0 \<or> n > int MAX_PAYLOAD then None else Some (nat n)))"

definition framed_line :: "string \<Rightarrow> agent_msg_hdr \<times> bool \<Rightarrow> (agent_msg_hdr \<times> bool) option" where
  "framed_line l = (\<lambda>(h, got).
     if starts_with ''LEN '' l then
       (case framed_len (drop 4 l) of None \<Rightarrow> None | Some n \<Rightarrow> Some (h\<lparr>payload_len := n\<rparr>, True))
     else if starts_with ''REPLY-TO '' l then
       (let v = (case drop 9 l of [] \<Rightarrow> [] | c # r \<Rightarrow> if c = SP then [] else c # r)
        in Some (if length v < MAX_NAME then h\<lparr>h_reply_to := cstr v\<rparr> else h, got))
     else if starts_with ''TASK-ID '' l then
       (let v = drop 8 l in Some (if length v < MAX_TASK_ID_INLINE then h\<lparr>h_task_id := cstr v\<rparr> else h, got))
     else Some (h, got))"

function framed_lines :: "string \<Rightarrow> agent_msg_hdr \<times> bool \<Rightarrow> ((agent_msg_hdr \<times> bool) \<times> string) option" where
  "framed_lines buf s = (case split_at NL buf of
       (_, None) \<Rightarrow> None
     | (l, Some r) \<Rightarrow> if l = [] then Some (s, r)
         else (case framed_line l s of None \<Rightarrow> None | Some s \<Rightarrow> framed_lines r s))"
  by pat_completeness auto
termination by (relation "measure (\<lambda>(b, _). length b)") (auto dest!: split_at_SomeD [OF sym])

declare framed_lines.simps [simp del]

definition parse_framed_in_buf :: "string \<Rightarrow> (agent_msg_hdr \<times> string) option" where
  "parse_framed_in_buf buf = (case split_at NL buf of
       (_, None) \<Rightarrow> None
     | (l, Some r) \<Rightarrow>
         if \<not> starts_with ''VERB '' l then None
         else (let v = dropWhile (\<lambda>c. c = SP) (drop 5 l) in
           if v = [] \<or> length v \<ge> MAX_VERB then None
           else (case framed_lines r (no_hdr\<lparr>h_verb := cstr v\<rparr>, False) of
               None \<Rightarrow> None
             | Some ((h, got), rest) \<Rightarrow>
                 if \<not> got \<or> length rest < payload_len h then None else Some (h, take (payload_len h) rest))))"

definition agentfs_recv :: "(nat \<Rightarrow> nat \<Rightarrow> string io) \<Rightarrow> nat \<Rightarrow> (agent_msg_hdr \<times> string) io" where
  "agentfs_recv kread ifd w = (case kread ifd AGENTFS_CAP w of
       (Inl e, w) \<Rightarrow> (Inl e, w)
     | (Inr b, w) \<Rightarrow> if b = [] then (Inl E0, w)
         else (case parse_framed_in_buf b of None \<Rightarrow> (Inl EPROTO, w) | Some m \<Rightarrow> (Inr m, w)))"

section \<open>Signals of a runtime\<close>

record flags =
  shutdown_flag :: bool
  reload_flag :: bool
  snapshot_flag :: bool
  rotate_flag :: bool

datatype disposition = Default | Ignore | OnTerm | OnHup | OnUsr1 | OnUsr2

definition runtime_install_signals :: "(string \<Rightarrow> disposition) \<Rightarrow> string \<Rightarrow> disposition" where
  "runtime_install_signals d = d(''SIGTERM'' := OnTerm, ''SIGINT'' := OnTerm, ''SIGHUP'' := OnHup,
     ''SIGUSR1'' := OnUsr1, ''SIGUSR2'' := OnUsr2, ''SIGPIPE'' := Ignore)"

fun on_signal :: "disposition \<Rightarrow> flags \<Rightarrow> flags" where
  "on_signal OnTerm f = f\<lparr>shutdown_flag := True\<rparr>"
| "on_signal OnHup f = f\<lparr>reload_flag := True\<rparr>"
| "on_signal OnUsr1 f = f\<lparr>snapshot_flag := True\<rparr>"
| "on_signal OnUsr2 f = f\<lparr>rotate_flag := True\<rparr>"
| "on_signal _ f = f"

section \<open>The two transports\<close>

lemma framed_lines_blank [simp]: "framed_lines (NL # r) s = Some (s, r)"
  by (subst framed_lines.simps) (simp add: split_at_found [of NL "[]", simplified])

lemma framed_lines_line:
  "NL \<notin> set l \<Longrightarrow> l \<noteq> [] \<Longrightarrow> framed_lines (l @ NL # r) s = (case framed_line l s of None \<Rightarrow> None | Some s \<Rightarrow> framed_lines r s)"
  by (subst framed_lines.simps) (simp add: split_at_found)

definition message_ok :: "string \<Rightarrow> string \<Rightarrow> string \<Rightarrow> string \<Rightarrow> bool" where
  "message_ok v r t p \<longleftrightarrow> v \<noteq> [] \<and> field_text v \<and> field_text r \<and> field_text t \<and> length v < MAX_VERB \<and>
     length r < MAX_NAME \<and> length t < MAX_TASK_ID_INLINE \<and> length p \<le> MAX_PAYLOAD"

definition opt_field :: "string \<Rightarrow> string \<Rightarrow> string" where
  "opt_field k v = (if v = [] then [] else k @ v @ [NL])"

lemma append_hdr_fits: "length out + length s < sz \<Longrightarrow> append_hdr sz s out = Inr (out @ s)"
  by (auto simp: append_hdr_def)

lemma append_field_fits:
  "length out + length k + length v + 1 < sz \<Longrightarrow> append_field sz k v (Inr out) = Inr (out @ opt_field k v)"
  by (auto simp: append_field_def append_hdr_fits opt_field_def)

lemma length_opt_field: "length (opt_field k v) \<le> length k + length v + 1"
  by (simp add: opt_field_def)

lemma message_lengths:
  assumes "message_ok v r t p"
  shows "length v \<le> 63" "length r \<le> 63" "length t \<le> 31" "length (dec_nat (length p)) \<le> 7"
  using assms length_dec_nat [of 7 "length p"]
  by (simp_all add: message_ok_def MAX_VERB_def MAX_NAME_def MAX_TASK_ID_INLINE_def MAX_PAYLOAD_def)

lemma agentfs_frame_text:
  assumes "message_ok v r t p"
  shows "agentfs_frame v r t p = Inr (''VERB '' @ v @ NL # ''LEN '' @ dec_nat (length p) @ NL #
    opt_field ''REPLY-TO '' r @ opt_field ''TASK-ID '' t @ NL # p)"
  using message_lengths [OF assms] assms length_opt_field [of "''REPLY-TO ''" r] length_opt_field [of "''TASK-ID ''" t]
  by (simp add: agentfs_frame_def append_hdr_fits append_field_fits AGENTFS_CAP_def MAX_PAYLOAD_def message_ok_def)

lemma build_header_fits:
  assumes "message_ok v r t p"
  shows "\<exists>h. build_header \<lparr>m_verb = v, m_reply_to = r, m_task_id = t, m_payload = p, m_fds = [], m_peer = q\<rparr> IPC_HEADER_HEADROOM = Inr h"
  using message_lengths [OF assms] assms length_opt_field [of "''REPLY-TO ''" r] length_opt_field [of "''TASK-ID ''" t]
  by (simp add: build_header_def append_hdr_fits append_field_fits IPC_HEADER_HEADROOM_def message_ok_def)

lemma field_text_cstr: "field_text v \<Longrightarrow> cstr v = v"
  by (simp add: field_text_def)

lemma framed_opt_reply:
  assumes "field_text r" "length r < MAX_NAME" "h_reply_to h = []"
  shows "framed_lines (opt_field ''REPLY-TO '' r @ x) (h, g) = framed_lines x (h\<lparr>h_reply_to := r\<rparr>, g)"
proof (cases "r = []")
  case True
  then show ?thesis using assms(3) by (cases h) (simp add: opt_field_def)
next
  case False
  have "framed_line (''REPLY-TO '' @ r) (h, g) = Some (h\<lparr>h_reply_to := r\<rparr>, g)"
    using assms(1,2) False by (cases r) (simp_all add: framed_line_def starts_with_def field_text_def)
  then show ?thesis
    using framed_lines_line [of "''REPLY-TO '' @ r" x] assms(1) False by (simp add: opt_field_def field_text_def)
qed

lemma framed_opt_task:
  assumes "field_text t" "length t < MAX_TASK_ID_INLINE" "h_task_id h = []"
  shows "framed_lines (opt_field ''TASK-ID '' t @ x) (h, g) = framed_lines x (h\<lparr>h_task_id := t\<rparr>, g)"
proof (cases "t = []")
  case True
  then show ?thesis using assms(3) by (cases h) (simp add: opt_field_def)
next
  case False
  have "framed_line (''TASK-ID '' @ t) (h, g) = Some (h\<lparr>h_task_id := t\<rparr>, g)"
    using assms(1,2) by (simp add: framed_line_def starts_with_def field_text_cstr)
  then show ?thesis
    using framed_lines_line [of "''TASK-ID '' @ t" x] assms(1) False by (simp add: opt_field_def field_text_def)
qed

lemma framed_len_line:
  assumes "n \<le> MAX_PAYLOAD"
  shows "framed_lines (''LEN '' @ dec_nat n @ NL # x) (h, g) = framed_lines x (h\<lparr>payload_len := n\<rparr>, True)"
proof -
  have p: "NL \<notin> set (dec_nat n)" "NUL \<notin> set (dec_nat n)"
    using dec_nat_digits [of NL n] dec_nat_digits [of NUL n] by (auto simp: c_isdigit_def)
  have "length (dec_nat n) \<le> 7" using assms length_dec_nat [of 7 n] by (simp add: MAX_PAYLOAD_def)
  then have "framed_len (dec_nat n) = Some n"
    using assms p(2) by (simp add: framed_len_def MAX_PAYLOAD_def LONG_MAX_def)
  then have "framed_line (''LEN '' @ dec_nat n) (h, g) = Some (h\<lparr>payload_len := n\<rparr>, True)"
    by (simp add: framed_line_def starts_with_def)
  then show ?thesis using framed_lines_line [of "''LEN '' @ dec_nat n" x] p(1) by simp
qed

text \<open>
  C37. The two transports deliver the same message: for fields that fit their buffers and hold no newline,
  NUL or leading space and for a payload of at most a mebibyte, the frame that \<open>agentfs_send\<close> writes
  and the packet that \<open>ipc_send\<close> sends both exist, and both parse
  to the same header and the same payload, the ones that were sent.\<close>

theorem transports_agree:
  assumes "message_ok v r t p"
  shows "\<exists>b h. agentfs_frame v r t p = Inr b \<and>
    build_header \<lparr>m_verb = v, m_reply_to = r, m_task_id = t, m_payload = p, m_fds = [], m_peer = no_peer\<rparr> IPC_HEADER_HEADROOM = Inr h \<and>
    parse_framed_in_buf b = Some (\<lparr>h_verb = v, payload_len = length p, h_reply_to = r, h_task_id = t\<rparr>, p) \<and>
    map_option (\<lambda>m. (hdr_of m, m_payload m)) (parse_inplace (h @ p)) = parse_framed_in_buf b"
proof -
  let ?m = "\<lparr>m_verb = v, m_reply_to = r, m_task_id = t, m_payload = p, m_fds = [], m_peer = no_peer\<rparr>"
  let ?x = "opt_field ''REPLY-TO '' r @ opt_field ''TASK-ID '' t @ NL # p"
  note ok = assms [unfolded message_ok_def]
  obtain h where h: "build_header ?m IPC_HEADER_HEADROOM = Inr h" using build_header_fits [OF assms] by blast
  have "msg_ok ?m" using ok by (simp add: msg_ok_def)
  then have "map_option (\<lambda>m. (hdr_of m, m_payload m)) (parse_inplace (h @ p)) =
      Some (\<lparr>h_verb = v, payload_len = length p, h_reply_to = r, h_task_id = t\<rparr>, p)"
    using parse_built [OF h] ok by (auto simp: hdr_of_def snprintf_trunc_def)
  moreover have "framed_lines (''LEN '' @ dec_nat (length p) @ NL # ?x) (no_hdr\<lparr>h_verb := v\<rparr>, False) =
      Some ((\<lparr>h_verb = v, payload_len = length p, h_reply_to = r, h_task_id = t\<rparr>, True), p)"
    using ok by (simp only: framed_len_line) (simp add: framed_opt_reply framed_opt_task no_hdr_def)
  moreover have "dropWhile (\<lambda>c. c = SP) v = v" using ok by (cases v) (simp_all add: field_text_def)
  ultimately show ?thesis
    using h agentfs_frame_text [OF assms] ok split_at_found [of NL "''VERB '' @ v" "''LEN '' @ dec_nat (length p) @ NL # ?x"]
    by (simp add: parse_framed_in_buf_def starts_with_def field_text_def field_text_cstr)
qed

theorem transports_agree_witness:
  "\<exists>b. agentfs_frame ''review'' ''boss'' [] ''+x'' = Inr b \<and>
    parse_framed_in_buf b = Some (\<lparr>h_verb = ''review'', payload_len = 2, h_reply_to = ''boss'', h_task_id = []\<rparr>, ''+x'')"
  using transports_agree [of "''review''" "''boss''" "[]" "''+x''"]
  by (auto simp: message_ok_def field_text_def MAX_VERB_def MAX_NAME_def MAX_TASK_ID_INLINE_def MAX_PAYLOAD_def)

section \<open>How much a receiver copies\<close>

lemma recv_retry_length: "recv_retry fd c k w = (Inr rx, w') \<Longrightarrow> length (rx_bytes rx) \<le> c"
proof (induction fd c k w rule: recv_retry.induct)
  case (1 fd c k w)
  obtain x w1 where x: "sys_recvmsg fd c k w = (x, w1)" by fastforce
  from x have s: "case x of Inl _ \<Rightarrow> True | Inr rx \<Rightarrow> length (rx_bytes rx) \<le> c"
    unfolding sys_recvmsg_def
    by (auto elim!: call_cases simp: ep_queue_def Let_def split: prod.splits option.splits desc.splits list.splits)
  show ?case
  proof (cases "x = Inl EINTR")
    case True
    then show ?thesis using "1.IH" [OF x [symmetric]] "1.prems" x by (simp add: recv_retry.simps [of fd c k w])
  next
    case False
    then have "x = Inr rx" using "1.prems" x by (auto simp: recv_retry.simps [of fd c k w] split: sum.splits)
    then show ?thesis using s by simp
  qed
qed

lemma header_verb_line:
  "header_lines ls f = Some g \<Longrightarrow> f_verb f = None \<Longrightarrow> f_verb g \<noteq> None \<Longrightarrow> \<exists>l\<in>set ls. 6 \<le> length l"
proof (induction ls arbitrary: f)
  case (Cons l ls)
  then obtain f' where f': "header_line l f = Some f'" by (auto split: option.splits)
  have "f_verb f' = None \<or> field_value 5 l \<noteq> []"
    using f' Cons.prems(2) unfolding header_line_def by (auto split: if_split_asm option.split_asm)
  moreover have "field_value 5 l \<noteq> [] \<Longrightarrow> 6 \<le> length l"
    by (cases "6 \<le> length l") (auto simp: field_value_def)
  ultimately show ?case using Cons.IH [of f'] Cons.prems f' by auto
qed simp

lemma c_lines_shorter: "l \<in> set (c_lines s) \<Longrightarrow> length l \<le> length s"
proof (induction s rule: c_lines.induct)
  case (1 s)
  obtain a b where ab: "split_at NL s = (a, b)" by fastforce
  show ?case
  proof (cases b)
    case (Some r)
    have "l = a \<or> l \<in> set (c_lines r)" "s \<noteq> []"
      using "1.prems" ab Some by (auto simp: c_lines.simps [of s] split: if_splits)
    moreover have "s = a @ NL # r" using split_at_SomeD ab Some by blast
    ultimately show ?thesis using "1.IH" [OF _ ab [symmetric] Some] by auto
  qed (use "1.prems" ab in \<open>auto simp: c_lines.simps [of s] dest: split_at_NoneD split: if_splits\<close>)
qed

lemma parse_inplace_payload: "parse_inplace buf = Some m \<Longrightarrow> length (m_payload m) + 8 \<le> length buf"
proof -
  assume a: "parse_inplace buf = Some m"
  then obtain hdr av f where p: "split_blank buf = Some (hdr, av)" "header_lines (c_lines hdr) fields0 = Some f"
      "f_verb f \<noteq> None" "length (m_payload m) \<le> length av"
    by (auto simp: parse_inplace_def split: option.splits if_splits)
  then obtain l where "l \<in> set (c_lines hdr)" "6 \<le> length l"
    using header_verb_line [OF p(2)] by (auto simp: fields0_def)
  then have "6 \<le> length hdr" using c_lines_shorter by fastforce
  then show ?thesis using split_blank_Some [OF p(1)] p(4) by simp
qed

definition full_packet :: string where
  "full_packet = ''VERB x'' @ [NL, NL] @ replicate (MAX_PAYLOAD + 4088) (CHR ''a'')"

lemma full_packet_parses: "\<exists>m. parse_inplace full_packet = Some m \<and> m_payload m = replicate (MAX_PAYLOAD + 4088) (CHR ''a'')"
proof -
  let ?m = "\<lparr>m_verb = ''x'', m_reply_to = [], m_task_id = [], m_payload = replicate (MAX_PAYLOAD + 4088) (CHR ''a''),
    m_fds = [], m_peer = no_peer\<rparr>"
  have "build_header ?m 64 = Inr (''VERB x'' @ [NL, NL])" by (simp add: build_header_def append_hdr_def append_field_def)
  from parse_built [OF this] show ?thesis by (simp add: msg_ok_def field_text_def full_packet_def)
qed

definition flooded :: world where
  "flooded = world0\<lparr>fds := [(7, DSock 0)], rxq := [(0, [\<lparr>bytes = full_packet, rights = []\<rparr>])]\<rparr>"

lemma flooded_receives:
  "\<exists>h w. read_message cred 7 flooded = (Inr (h, replicate (MAX_PAYLOAD + 4088) (CHR ''a'')), w)"
proof -
  have l: "length full_packet = IPC_BUF_CAP"
    by (simp add: full_packet_def MAX_PAYLOAD_def IPC_BUF_CAP_def IPC_MSG_HARD_CAP_def IPC_HEADER_HEADROOM_def)
  then have "full_packet \<noteq> []" by (auto simp: IPC_BUF_CAP_def IPC_MSG_HARD_CAP_def)
  moreover have "recv_retry 7 IPC_BUF_CAP IPC_MAX_FDS flooded =
      (Inr \<lparr>rx_bytes = full_packet, rx_fds = [], rx_trunc = False\<rparr>, flooded\<lparr>rxq := [(0, [])]\<rparr>)"
    using l by (simp add: recv_retry.simps sys_recvmsg_def flooded_def world0_def ep_queue_def)
  moreover obtain m where "parse_inplace full_packet = Some m" "m_payload m = replicate (MAX_PAYLOAD + 4088) (CHR ''a'')"
    using full_packet_parses by blast
  moreover have "\<not> IPC_BUF_CAP < IPC_MSG_DEFAULT_CAP"
    by (simp add: IPC_BUF_CAP_def IPC_MSG_HARD_CAP_def IPC_MSG_DEFAULT_CAP_def)
  ultimately show ?thesis by (auto simp: read_message_def ipc_recv_def split: prod.splits)
qed

text \<open>
  C38. \<open>read_message\<close> copies up to \<open>IPC_BUF_CAP\<close> less eight bytes: never more, whatever arrives, but a
  single packet without a \<open>LEN\<close> header makes it copy exactly that, 4088 bytes beyond the \<open>MAX_PAYLOAD\<close>
  bytes that its callers allocate.\<close>

theorem read_message_copies:
  "(case fst (read_message cred fd w) of Inl _ \<Rightarrow> True
     | Inr (h, p) \<Rightarrow> length p = payload_len h \<and> length p \<le> MAX_PAYLOAD + 4088) \<and>
   (\<exists>w p h. fst (read_message cred 7 w) = Inr (h, p) \<and> length p = MAX_PAYLOAD + 4088)"
proof
  show "\<exists>w p h. fst (read_message cred 7 w) = Inr (h, p) \<and> length p = MAX_PAYLOAD + 4088"
    using flooded_receives [of cred] by (metis fst_conv length_replicate)
  obtain r w1 where r: "recv_retry fd IPC_BUF_CAP IPC_MAX_FDS w = (r, w1)" by fastforce
  have "rx_bytes x = b \<Longrightarrow> r = Inr x \<Longrightarrow> parse_inplace b = Some m \<Longrightarrow> length (m_payload m) \<le> MAX_PAYLOAD + 4088" for x b m
    using recv_retry_length [of fd IPC_BUF_CAP IPC_MAX_FDS w x w1] r parse_inplace_payload [of b m]
    by (simp add: IPC_BUF_CAP_def IPC_MSG_HARD_CAP_def IPC_HEADER_HEADROOM_def MAX_PAYLOAD_def)
  then show "case fst (read_message cred fd w) of Inl _ \<Rightarrow> True
     | Inr (h, p) \<Rightarrow> length p = payload_len h \<and> length p \<le> MAX_PAYLOAD + 4088"
    using r by (auto simp: read_message_def ipc_recv_def hdr_of_def split: prod.splits sum.splits option.splits if_splits)
qed

end
