(* ===== verification/Runtime.thy ===== *)
theory Runtime
  imports Tasks Framing
begin

text \<open>
  The part the two runtimes share (\<open>fanout-agent.c\<close> and \<open>reviewer-agent.c\<close>): start-up, the signal flags
  at the top of the main loop, waiting, receiving a message over either transport and naming its sender,
  the receiver's deny list, and shutting down. Both mains repeat this code almost word for word; where
  they differ (the texts they log) the text is an argument.

  A runtime is a record of its configuration, its counters and the world it acts on. What \<open>poll\<close> answers
  and which signals arrive while it waits is the input of a round.
\<close>

record links =
  l_host :: host
  l_conn :: "string \<Rightarrow> errno + unit"
  l_cred :: "nat \<Rightarrow> errno + int \<times> nat \<times> nat"
  l_read :: "nat \<Rightarrow> nat \<Rightarrow> string io"
  l_write :: "nat \<Rightarrow> string \<Rightarrow> nat io"
  l_ppid :: nat
  l_stack :: string

record runtime =
  rt_name :: string
  rt_cfg :: profile_cfg
  rt_tcfg :: transport_cfg
  server_fd :: nat
  rt_flags :: flags
  rt_start :: int
  rt_seq :: seq_table
  messages_total :: nat
  last_verb_seen :: string
  last_message_at :: int
  deliveries_total :: nat
  deliveries_skipped :: nat
  rt_os :: world

abbreviation rdo :: "(world \<Rightarrow> 'a \<times> world) \<Rightarrow> runtime \<Rightarrow> runtime" where
  "rdo f r \<equiv> r\<lparr>rt_os := snd (f (rt_os r))\<rparr>"

definition log_rt :: "string \<Rightarrow> runtime \<Rightarrow> runtime" where
  "log_rt s r = rdo (audit_log (rt_name r) s) r"

definition status_rt :: "string \<Rightarrow> runtime \<Rightarrow> runtime" where
  "status_rt s r = rdo (write_status (rt_name r) s) r"

definition event_rt :: "string \<Rightarrow> string \<Rightarrow> runtime \<Rightarrow> runtime" where
  "event_rt tid s r = rdo (task_append_event (rt_name r) tid s) r"

text \<open>A task's state, status line and event, in the order the runtimes write them.\<close>

definition mark_rt :: "string \<Rightarrow> task_state \<Rightarrow> string \<Rightarrow> string \<Rightarrow> runtime \<Rightarrow> runtime" where
  "mark_rt tid st status ev r =
     event_rt tid ev (rdo (task_set_status (rt_name r) tid status) (rdo (task_set_state (rt_name r) tid st) r))"

abbreviation err :: "links \<Rightarrow> errno \<Rightarrow> string" where
  "err k e \<equiv> h_strerror (l_host k) e"

section \<open>Starting\<close>

definition open_server :: "links \<Rightarrow> string \<Rightarrow> transport_cfg \<Rightarrow> nat io" where
  "open_server k name t w =
     (if tkind t = TRANSPORT_AGENTFS then
        (case agentfs_listen name (mount t) w of
           (Inl e, w) \<Rightarrow> (Inl e, snd (audit_log name (''agentfs_listen('' @ mount t @ '') failed: '' @ err k e) w))
         | (Inr fd, w) \<Rightarrow> (Inr fd, w))
      else
        (case create_server_socket (h_getenv (l_host k)) name w of
           (Inl e, w) \<Rightarrow> (Inl e, snd (audit_log name (''create_server_socket failed: '' @ err k e) w))
         | (Inr fd, w) \<Rightarrow> (Inr fd, w)))"

definition no_flags :: flags where
  "no_flags = \<lparr>shutdown_flag = False, reload_flag = False, snapshot_flag = False, rotate_flag = False\<rparr>"

definition recover_rt :: "runtime \<Rightarrow> runtime" where
  "recover_rt r = (let (n, w) = task_recover_interrupted (rt_name r) (rt_os r); r = r\<lparr>rt_os := w\<rparr>
     in if n > 0 then log_rt (''recovery: marked '' @ dec_nat n @ '' interrupted task(s) failed'') r else r)"

text \<open>
  \<open>main\<close> up to its loop: an exit code, or the runtime. \<open>banner\<close> is the text of the start message. The
  configuration is a variable of \<open>main\<close>'s stack, so what it holds before it is loaded is arbitrary.
\<close>

definition start_runtime :: "links \<Rightarrow> (profile_cfg \<Rightarrow> transport_cfg \<Rightarrow> world \<Rightarrow> string) \<Rightarrow> string list \<Rightarrow> bool \<Rightarrow> world \<Rightarrow>
    (int + runtime) \<times> world" where
  "start_runtime k banner argv oom w =
     (if refuse_root (h_getenv (l_host k)) w then (Inl 1, w)
      else (case argv of
        _ # name # _ \<Rightarrow>
          if \<not> validate_name name then (Inl 2, w)
          else (let t0 = now w;
              (cfg, w) = profile_load_for_agent (h_getenv (l_host k)) name (h_stack (l_host k)) w;
              (t, w) = (case transport_resolve name w of
                 (Inl _, w) \<Rightarrow> (\<lparr>tkind = TRANSPORT_UDS, mount = []\<rparr>, w) | (Inr t, w) \<Rightarrow> (t, w))
            in case open_server k name t w of
                 (Inl _, w) \<Rightarrow> (Inl 1, w)
               | (Inr fd, w) \<Rightarrow>
                   (let r = \<lparr>rt_name = name, rt_cfg = cfg, rt_tcfg = t, server_fd = fd, rt_flags = no_flags, rt_start = t0,
                          rt_seq = [], messages_total = 0, last_verb_seen = [], last_message_at = 0,
                          deliveries_total = 0, deliveries_skipped = 0, rt_os = w\<rparr>;
                        r = status_rt ''idle'' r;
                        r = log_rt (banner cfg t (rt_os r)) r;
                        r = recover_rt (r\<lparr>rt_os := enforcement_audit_status name (rt_os r)\<rparr>)
                    in if oom then (Inl 1, snd (sys_close fd (rt_os (log_rt ''oom allocating payload buffer'' r))))
                       else (Inr r, rt_os r)))
      | _ \<Rightarrow> (Inl 2, w)))"

definition stop_runtime :: "string \<Rightarrow> runtime \<Rightarrow> world" where
  "stop_runtime bye r =
     (let r = rdo (sys_close (server_fd r)) (log_rt bye (status_rt ''stopping'' r));
          r = (if tkind (rt_tcfg r) = TRANSPORT_UDS then
                 (case agent_path MAX_PATHBUF (rt_name r) ''agent.sock'' (rt_os r) of
                    (Inl _, w) \<Rightarrow> r\<lparr>rt_os := w\<rparr> | (Inr p, w) \<Rightarrow> r\<lparr>rt_os := snd (sys_unlink p w)\<rparr>)
               else r)
      in rt_os (status_rt ''stopped'' r))"

section \<open>The top of the loop\<close>

definition drain_flags :: "links \<Rightarrow> (runtime \<Rightarrow> string) \<Rightarrow> runtime \<Rightarrow> runtime" where
  "drain_flags k extra r0 =
     (let r = (if reload_flag (rt_flags r0) then
             (let r = rdo (do_reload (rt_name r0)) (r0\<lparr>rt_flags := (rt_flags r0)\<lparr>reload_flag := False\<rparr>\<rparr>);
                  (cfg, w) = profile_load_for_agent (h_getenv (l_host k)) (rt_name r) (rt_cfg r) (rt_os r)
              in r\<lparr>rt_cfg := cfg, rt_os := w\<rparr>) else r0);
          r = (if rotate_flag (rt_flags r) then
             rdo (do_rotate_artifacts (h_strerror (l_host k)) (rt_name r)) (r\<lparr>rt_flags := (rt_flags r)\<lparr>rotate_flag := False\<rparr>\<rparr>) else r)
      in if snapshot_flag (rt_flags r) then
           rdo (snapshot_state (h_strerror (l_host k)) (rt_start r) (l_ppid k) (rt_name r) (snprintf_trunc 768 (extra r)))
             (r\<lparr>rt_flags := (rt_flags r)\<lparr>snapshot_flag := False\<rparr>\<rparr>)
         else r)"

text \<open>What ends a wait: \<open>poll\<close> fails, times out (the idle timeout) or reports the listener readable.\<close>

datatype poll_result = PollError errno | PollIdle | PollReady

datatype wait_result = Stop | Again | Proceed

definition wait_message :: "links \<Rightarrow> (int \<Rightarrow> string) \<Rightarrow> poll_result \<Rightarrow> disposition list \<Rightarrow> runtime \<Rightarrow> wait_result \<times> runtime" where
  "wait_message k idle_text pr sigs r0 =
     (let r = r0\<lparr>rt_flags := fold on_signal sigs (rt_flags r0)\<rparr>
      in case pr of
           PollError e \<Rightarrow> if e = EINTR then (if shutdown_flag (rt_flags r) then Stop else Again, r)
             else (Again, log_rt (''poll error: '' @ err k e) r)
         | PollIdle \<Rightarrow> if dispatch (rt_cfg r) = DISPATCH_SINGLE_SHOT
             then (Stop, log_rt (idle_text (idle_timeout_sec (rt_cfg r))) r) else (Again, r)
         | PollReady \<Rightarrow> (Proceed, r))"

section \<open>Receiving\<close>

record incoming =
  i_hdr :: agent_msg_hdr
  i_body :: string
  i_sender :: string
  i_peer :: peer_id
  i_client :: "nat option"

datatype received_msg = Quit | Skip | Got incoming

text \<open>An error of \<open>accept\<close> or \<open>read\<close> ends the loop only when it is the signal to shut down.\<close>

definition recv_failed :: "links \<Rightarrow> string \<Rightarrow> errno \<Rightarrow> runtime \<Rightarrow> received_msg \<times> runtime" where
  "recv_failed k what e r = (if e = EINTR then (if shutdown_flag (rt_flags r) then Quit else Skip, r)
     else (Skip, log_rt (what @ '' error: '' @ err k e) r))"

definition sender_of :: "peer_id \<Rightarrow> world \<Rightarrow> string \<times> world" where
  "sender_of p w = (if authenticated_name p \<noteq> [] then (snprintf_trunc MAX_NAME (authenticated_name p), w)
     else if peer_pid p > 0 then
       (case resolve_agent_by_pid (peer_pid p) MAX_NAME w of (Inl _, w) \<Rightarrow> (''?'', w) | (Inr n, w) \<Rightarrow> (n, w))
     else (''-'', w))"

definition peer_text :: "string \<Rightarrow> peer_id \<Rightarrow> string" where
  "peer_text s p = s @ '' pid='' @ dec_int (peer_pid p) @ '' uid='' @ dec_nat (peer_uid p)"

definition recv_agentfs :: "links \<Rightarrow> runtime \<Rightarrow> received_msg \<times> runtime" where
  "recv_agentfs k r = (case agentfs_recv (l_read k) (server_fd r) (rt_os r) of
       (Inl e, w) \<Rightarrow> recv_failed k ''agentfs_recv'' e (r\<lparr>rt_os := w\<rparr>)
     | (Inr (h, b), w) \<Rightarrow>
         (Got \<lparr>i_hdr = h, i_body = b, i_sender = (if h_reply_to h \<noteq> [] then snprintf_trunc MAX_NAME (h_reply_to h) else ''?''),
            i_peer = no_peer, i_client = None\<rparr>, r\<lparr>rt_os := w\<rparr>))"

definition recv_socket :: "links \<Rightarrow> runtime \<Rightarrow> received_msg \<times> runtime" where
  "recv_socket k r = (case accept_client (l_cred k) (server_fd r) (shutdown_flag (rt_flags r)) (rt_os r) of
       ((Inl e, sd), w) \<Rightarrow> recv_failed k ''accept'' e (r\<lparr>rt_flags := (rt_flags r)\<lparr>shutdown_flag := sd\<rparr>, rt_os := w\<rparr>)
     | ((Inr (fd, p), sd), w) \<Rightarrow>
         (let (s, w) = sender_of p w; r = r\<lparr>rt_flags := (rt_flags r)\<lparr>shutdown_flag := sd\<rparr>\<rparr>
          in case read_message (l_cred k) fd w of
               (Inl e, w) \<Rightarrow> (Skip, rdo (sys_close fd) (log_rt (''recv error from='' @ peer_text s p @ '': '' @ err k e) (r\<lparr>rt_os := w\<rparr>)))
             | (Inr (h, b), w) \<Rightarrow> (Got \<lparr>i_hdr = h, i_body = b, i_sender = s, i_peer = p, i_client = Some fd\<rparr>, r\<lparr>rt_os := w\<rparr>)))"

definition receive :: "links \<Rightarrow> runtime \<Rightarrow> received_msg \<times> runtime" where
  "receive k r = (if tkind (rt_tcfg r) = TRANSPORT_AGENTFS then recv_agentfs k r else recv_socket k r)"

definition read_caps :: "string \<Rightarrow> world \<Rightarrow> string \<times> world" where
  "read_caps name w = (case with_path name ''policy'' (\<lambda>p. read_small_file p 8192) w of
       (Inl _, w) \<Rightarrow> ([], w) | (Inr b, w) \<Rightarrow> (cstr b, w))"

definition close_client :: "incoming \<Rightarrow> runtime \<Rightarrow> runtime" where
  "close_client m r = r\<lparr>rt_os := close_opt (i_client m) (rt_os r)\<rparr>"

text \<open>The deny list, the log and the counters; \<open>None\<close> is a rejected message.\<close>

definition admit :: "incoming \<Rightarrow> runtime \<Rightarrow> string option \<times> runtime" where
  "admit m r = (let (caps, w) = read_caps (rt_name r) (rt_os r); r = r\<lparr>rt_os := w\<rparr>;
       who = '' verb='' @ h_verb (i_hdr m) @ '' from='' @ peer_text (i_sender m) (i_peer m)
     in if recv_is_denied caps (i_sender m) then (None, close_client m (log_rt (''reject'' @ who @ '' (deny recv:)'') r))
        else (let r = log_rt (''recv'' @ who @ '' len='' @ dec_nat (payload_len (i_hdr m))) r
              in (Some caps, r\<lparr>messages_total := messages_total r + 1, last_verb_seen := take (MAX_VERB - 1) (h_verb (i_hdr m))\<rparr>)))"

text \<open>
  The answer to a health probe: one packet on the connection, which is then closed. The text is printed
  to an array of 64 bytes, but the number of bytes written is what \<open>snprintf\<close> returns, the length of
  the whole text; past the array the packet continues with what the stack holds there (\<open>l_stack\<close>).
\<close>

definition pong_text :: "string \<Rightarrow> nat \<Rightarrow> string" where
  "pong_text name pid = ''pong agent='' @ name @ '' pid='' @ dec_nat pid @ [NL]"

definition pong_bytes :: "string \<Rightarrow> string \<Rightarrow> string" where
  "pong_bytes stack s = take (length s) (snprintf_trunc 64 s @ replicate (64 - length (snprintf_trunc 64 s)) NUL @ stack)"

definition pong :: "links \<Rightarrow> incoming \<Rightarrow> runtime \<Rightarrow> runtime" where
  "pong k m r = (case i_client m of None \<Rightarrow> r
     | Some fd \<Rightarrow> rdo (sys_close fd)
         (rdo (send_retry fd (pong_bytes (l_stack k) (pong_text (rt_name r) (self_pid (rt_os r)))) []) r))"

definition create_task :: "links \<Rightarrow> incoming \<Rightarrow> runtime \<Rightarrow> (errno + string) \<times> runtime" where
  "create_task k m r =
     (let (x, g, w) = task_alloc_id (rt_name r) MAX_TASK_ID (rt_seq r) (rt_os r);
          r = r\<lparr>rt_seq := g, rt_os := w\<rparr>;
          fail = (\<lambda>e r. (Inl e, log_rt (''task_create failed: '' @ err k e) r))
      in case x of
           Inl e \<Rightarrow> fail e r
         | Inr tid \<Rightarrow> (case task_create (rt_name r) tid \<lparr>verb = Some (h_verb (i_hdr m)), sender = Some (i_sender m),
                sender_pid = peer_pid (i_peer m), sender_uid = int (peer_uid (i_peer m)), reply_to = h_reply_to (i_hdr m),
                incoming_task_id = h_task_id (i_hdr m), payload = i_body m\<rparr> (rt_os r) of
             (Inl e, w) \<Rightarrow> fail e (r\<lparr>rt_os := w\<rparr>)
           | (Inr _, w) \<Rightarrow>
               (Inr tid, mark_rt tid TASK_RUNNING ''running'' ''running''
                 (log_rt (''task created '' @ tid @ '' verb='' @ h_verb (i_hdr m) @ '' from='' @ i_sender m) (r\<lparr>rt_os := w\<rparr>)))))"

section \<open>The answer to a probe\<close>

lemma pong_bytes_eq:
  "pong_bytes stack s = (if length s < 64 then s else take 63 s @ NUL # take (length s - 64) stack)"
proof (cases "length s < 64")
  case False
  then obtain j where "length s = 64 + j" by (metis le_Suc_ex not_less)
  then have "length (take 63 s) = 63" "64 - 63 = Suc 0" "length s - 63 = Suc j" "\<not> length s < 64" "length s - 64 = j" by simp_all
  then show ?thesis by (simp only: pong_bytes_def snprintf_trunc_def take_append) simp
qed (simp add: pong_bytes_def snprintf_trunc_def)

text \<open>
  C39. The answer to a health probe, whatever calls fail: at most one packet is sent and the connection is
  closed. The packet is the probe's text only when that has at most 63 bytes; otherwise it is cut there
  and goes on with a NUL and with bytes of the stack beyond the reply buffer, as
  many as the text is longer than the buffer.\<close>

theorem pong_reply:
  assumes "i_client m = Some fd" "map_of (fds (rt_os r)) fd = Some (DSock e)" "s = pong_text (rt_name r) (self_pid (rt_os r))"
  shows "fds (rt_os (pong k m r)) = AList.delete fd (fds (rt_os r)) \<and>
    (sent (rt_os (pong k m r)) = sent (rt_os r) \<or>
     (\<exists>pk. sent (rt_os (pong k m r)) = (e, pk) # sent (rt_os r) \<and> rights pk = [] \<and>
        bytes pk = (if length s < 64 then s else take 63 s @ NUL # take (length s - 64) (l_stack k))))"
proof -
  obtain x w where x: "send_retry fd (pong_bytes (l_stack k) s) [] (rt_os r) = (x, w)" by fastforce
  note y = send_retry_sent [OF assms(2) x]
  have "rt_os (pong k m r) = snd (sys_close fd w)" using assms(1,3) x by (simp add: pong_def)
  moreover have "sent (snd (sys_close fd w)) = sent w" by (rule ambient_fields, simp)
  moreover have "fds (snd (sys_close fd w)) = AList.delete fd (fds w)" using y(1) assms(2) fds_close by simp
  ultimately show ?thesis using y pong_bytes_eq [of "l_stack k" s] by (cases x) auto
qed

theorem pong_reply_witness:
  "\<exists>k m r pk. validate_name (rt_name r) \<and> sent (rt_os (pong k m r)) = [(0, pk)] \<and> drop 64 (bytes pk) = ''hunter22''"
proof -
  define k :: links where "k = undefined\<lparr>l_stack := ''hunter22 and more''\<rparr>"
  define m :: incoming where "m = undefined\<lparr>i_client := Some 7\<rparr>"
  define r :: runtime where
    "r = undefined\<lparr>rt_name := replicate 54 (CHR ''a''), rt_os := world0\<lparr>fds := [(7, DSock 0)], self_pid := 5\<rparr>\<rparr>"
  let ?s = "pong_text (rt_name r) (self_pid (rt_os r))"
  have l: "length ?s = 72" by (simp add: r_def pong_text_def dec_nat_small)
  have "map_of (fds (rt_os r)) 7 = Some (DSock 0)" "sent (rt_os r) = []" by (simp_all add: r_def world0_def)
  moreover have "sent (snd (send_retry 7 b [] (rt_os r))) \<noteq> []" for b
    by (subst send_retry.simps) (simp add: r_def world0_def sys_sendmsg_def)
  then have "sent (rt_os (pong k m r)) \<noteq> []"
    using ambient_fields(3) [OF ambient_close] by (simp add: pong_def m_def)
  ultimately obtain pk where pk: "sent (rt_os (pong k m r)) = [(0, pk)]" "bytes pk = take 63 ?s @ NUL # take 8 (l_stack k)"
    using pong_reply [of m 7 r 0 ?s k] l by (auto simp: m_def)
  have "length (take 63 ?s) = 63" using l by simp
  then have "drop 64 (bytes pk) = ''hunter22''" unfolding pk(2) by (simp add: k_def)
  moreover have "validate_name (rt_name r)" by (simp add: r_def) code_simp
  ultimately show ?thesis using pk(1) by blast
qed

end
