(* ===== verification/Fanout.thy ===== *)
theory Fanout
  imports Runtime
begin

text \<open>
  The fan-out runtime (\<open>fanout-agent.c\<close>): which agents its policy lets it send to, forwarding a message to
  all of them under one task, and the replies that complete the task. The lemmas characterise the
  targets (which agents, how many, what the fixed-size tables do to a long policy).
\<close>

section \<open>Targets\<close>

definition MAX_TARGETS :: nat where "MAX_TARGETS = 16"

text \<open>A line \<open>allow send:<name>\<close> or \<open>deny send:<name>\<close>: whether it allows, and the name.\<close>

definition send_keyword :: "string \<Rightarrow> (bool \<times> string) option" where
  "send_keyword l = (let line = dropWhile c_isspace l in
     if starts_with ''allow '' line then Some (True, drop 6 line)
     else if starts_with ''deny '' line then Some (False, drop 5 line) else None)"

definition send_rule :: "string \<Rightarrow> (bool \<times> string) option" where
  "send_rule l = (case send_keyword l of None \<Rightarrow> None
     | Some (al, kw) \<Rightarrow> (let kw = dropWhile c_isspace kw in
         if length kw > 5 \<and> starts_with ''send:'' kw then Some (al, rstrip c_isspace (drop 5 kw)) else None))"

record send_tables =
  s_allow :: "string list"
  s_deny :: "string list"
  deny_all :: bool

definition rule_step :: "string \<Rightarrow> send_tables \<Rightarrow> send_tables" where
  "rule_step l s = (case send_rule l of None \<Rightarrow> s
     | Some (al, t) \<Rightarrow>
         if t = ''*'' \<and> \<not> al then s\<lparr>deny_all := True\<rparr>
         else if t \<noteq> [] \<and> length t < MAX_NAME \<and> hd t \<noteq> CHR ''*'' then
           (if al \<and> length (s_allow s) < MAX_TARGETS then s\<lparr>s_allow := s_allow s @ [t]\<rparr>
            else if \<not> al \<and> length (s_deny s) < MAX_TARGETS then s\<lparr>s_deny := s_deny s @ [t]\<rparr> else s)
         else s)"

definition collect_send_targets :: "string \<Rightarrow> string list" where
  "collect_send_targets caps =
     (let s = fold rule_step (c_lines caps) \<lparr>s_allow = [], s_deny = [], deny_all = False\<rparr>
      in if deny_all s then [] else filter (\<lambda>t. t \<notin> set (s_deny s)) (s_allow s))"

section \<open>Messages\<close>

definition fanout_banner :: "profile_cfg \<Rightarrow> transport_cfg \<Rightarrow> world \<Rightarrow> string" where
  "fanout_banner cfg t w = ''fanout-agent started pid='' @ dec_nat (self_pid w) @ '' transport='' @ transport_name (tkind t) @
     '' profile='' @ profile_name cfg @ '' dispatch='' @ dispatch_name (dispatch cfg) @
     '' idle_timeout='' @ dec_int (idle_timeout_sec cfg)"

definition fanout_extra :: "runtime \<Rightarrow> string" where
  "fanout_extra r = ''profile: '' @ profile_name (rt_cfg r) @ [NL] @ ''dispatch: '' @ dispatch_name (dispatch (rt_cfg r)) @ [NL] @
     ''messages_total: '' @ dec_nat (messages_total r) @ [NL] @
     ''last_verb: '' @ (if last_verb_seen r \<noteq> [] then last_verb_seen r else ''-'') @ [NL] @
     ''deliveries_total: '' @ dec_nat (deliveries_total r) @ [NL] @
     ''deliveries_skipped: '' @ dec_nat (deliveries_skipped r) @ [NL]"

text \<open>A downstream agent's reply: its pending entry goes, and without entries left the task is complete.\<close>

definition fanout_result :: "incoming \<Rightarrow> runtime \<Rightarrow> runtime" where
  "fanout_result m r0 = (let r = close_client m r0; tid = h_task_id (i_hdr m) in
     if tid = [] then log_rt ''result without TASK-ID dropped'' r
     else (let r = rdo (pending_remove (rt_name r) tid (i_sender m)) r;
               (x, w) = pending_count_for_task (rt_name r) tid (rt_os r);
               remaining = (case x of Inl _ \<Rightarrow> - 1 | Inr n \<Rightarrow> int n);
               r = log_rt (''result task='' @ tid @ '' from='' @ i_sender m @ '' remaining='' @ dec_int remaining) (r\<lparr>rt_os := w\<rparr>);
               r = event_rt tid (''reply from='' @ i_sender m @ '' remaining='' @ dec_int remaining) r
           in if remaining = 0 then mark_rt tid TASK_COMPLETED ''completed'' ''completed (all downstreams replied)'' r else r))"

text \<open>One delivery, with the counts of sent, skipped and failed ones.\<close>

definition delegate :: "links \<Rightarrow> incoming \<Rightarrow> string \<Rightarrow> string \<Rightarrow> (nat \<times> nat \<times> nat) \<times> runtime \<Rightarrow> (nat \<times> nat \<times> nat) \<times> runtime" where
  "delegate k m tid t = (\<lambda>((ok, skipped, failed), r).
     case send_to_agent_ex (h_getenv (l_host k)) (l_conn k) (l_write k) t (h_verb (i_hdr m)) (rt_name r) tid (i_body m) (rt_os r) of
       (SendOk, w) \<Rightarrow> ((ok + 1, skipped, failed),
          event_rt tid (''delegated -> '' @ t) (log_rt (''delegated task='' @ tid @ '' -> '' @ t)
            (rdo (pending_add (rt_name r) tid t) (r\<lparr>rt_os := w\<rparr>))))
     | (SendGone, w) \<Rightarrow> ((ok, skipped + 1, failed),
          event_rt tid (''skipped -> '' @ t @ '' (no listener)'') (log_rt (''fanout -> '' @ t @ '' skipped (no listener)'') (r\<lparr>rt_os := w\<rparr>)))
     | (SendErr e, w) \<Rightarrow> ((ok, skipped, failed + 1),
          event_rt tid (''failed -> '' @ t @ '': '' @ err k e) (log_rt (''fanout -> '' @ t @ '' failed: '' @ err k e) (r\<lparr>rt_os := w\<rparr>))))"

definition fanout_deliver :: "links \<Rightarrow> incoming \<Rightarrow> string \<Rightarrow> string list \<Rightarrow> runtime \<Rightarrow> runtime" where
  "fanout_deliver k m tid targets r0 =
     (let v = h_verb (i_hdr m); n = length targets;
          r = status_rt ''processing'' r0;
          r = rdo (task_set_status (rt_name r) tid ''delegated'') (rdo (task_set_state (rt_name r) tid TASK_DELEGATED) r);
          r = log_rt (''fanout begin verb='' @ v @ '' bytes='' @ dec_nat (payload_len (i_hdr m)) @ '' targets='' @ dec_nat n @ '' task='' @ tid) r;
          r = event_rt tid (''delegating verb='' @ v @ '' to '' @ dec_nat n @ '' target(s)'') r;
          ((ok, skipped, failed), r) = fold (delegate k m tid) targets ((0, 0, 0), r);
          r = r\<lparr>deliveries_total := deliveries_total r + ok, deliveries_skipped := deliveries_skipped r + skipped\<rparr>;
          r = (if ok = 0 then mark_rt tid TASK_FAILED ''failed: no downstream accepted delegation''
                 ''no downstream accepted; task failed'' r else r)
      in status_rt ''idle'' (log_rt (''fanout done sent='' @ dec_nat ok @ '' skipped='' @ dec_nat skipped @ '' failed='' @ dec_nat failed) r))"

definition fanout_message :: "links \<Rightarrow> incoming \<Rightarrow> string \<Rightarrow> runtime \<Rightarrow> runtime" where
  "fanout_message k m caps r =
     (if h_verb (i_hdr m) = ''ping'' then pong k m r
      else if h_verb (i_hdr m) = ''result'' then fanout_result m r
      else (case create_task k m (close_client m r) of
          (Inl _, r) \<Rightarrow> r
        | (Inr tid, r) \<Rightarrow> (let targets = collect_send_targets caps in
            if targets = [] then mark_rt tid TASK_FAILED ''failed: no send: targets'' ''failed: no send: targets''
              (log_rt (''no allowed send: targets; verb='' @ h_verb (i_hdr m) @ '' dropped'') r)
            else fanout_deliver k m tid targets r)))"

text \<open>One turn of the main loop: whether it goes on, and the runtime.\<close>

definition fanout_round :: "links \<Rightarrow> poll_result \<Rightarrow> disposition list \<Rightarrow> runtime \<Rightarrow> bool \<times> runtime" where
  "fanout_round k pr sigs r0 =
     (case wait_message k (\<lambda>t. ''idle '' @ dec_int t @ ''s; exiting'') pr sigs (drain_flags k fanout_extra r0) of
        (Stop, r) \<Rightarrow> (False, r)
      | (Again, r) \<Rightarrow> (True, r)
      | (Proceed, r) \<Rightarrow> (case receive k r of
          (Quit, r) \<Rightarrow> (False, r)
        | (Skip, r) \<Rightarrow> (True, r)
        | (Got m, r) \<Rightarrow> (case admit m r of
            (None, r) \<Rightarrow> (True, r)
          | (Some caps, r) \<Rightarrow> (True, fanout_message k m caps r))))"

text \<open>The loop over the answers of \<open>poll\<close>: when they run out the runtime is still waiting.\<close>

fun fanout_loop :: "links \<Rightarrow> (poll_result \<times> disposition list) list \<Rightarrow> runtime \<Rightarrow> bool \<times> runtime" where
  "fanout_loop k [] r = (\<not> shutdown_flag (rt_flags r), r)"
| "fanout_loop k ((pr, sigs) # evs) r =
     (if shutdown_flag (rt_flags r) then (False, r)
      else (case fanout_round k pr sigs r of (True, r) \<Rightarrow> fanout_loop k evs r | (False, r) \<Rightarrow> (False, r)))"

text \<open>\<open>main\<close>: the exit code, if the process ends, and the world it leaves.\<close>

definition fanout_main :: "links \<Rightarrow> string list \<Rightarrow> bool \<Rightarrow> (poll_result \<times> disposition list) list \<Rightarrow> world \<Rightarrow> int option \<times> world" where
  "fanout_main k argv oom evs w = (case start_runtime k fanout_banner argv oom w of
       (Inl c, w) \<Rightarrow> (Some c, w)
     | (Inr r, w) \<Rightarrow> (case fanout_loop k evs r of
         (True, r) \<Rightarrow> (None, rt_os r) | (False, r) \<Rightarrow> (Some 0, stop_runtime ''fanout-agent shutting down'' r)))"

section \<open>What the targets are\<close>

definition send_name :: "string \<Rightarrow> bool" where
  "send_name t \<longleftrightarrow> t \<noteq> [] \<and> length t < MAX_NAME \<and> hd t \<noteq> CHR ''*''"

text \<open>The names of all \<open>allow\<close> (or all \<open>deny\<close>) lines for sending, in the order of the policy.\<close>

definition send_rules :: "bool \<Rightarrow> string list \<Rightarrow> string list" where
  "send_rules b ls = map snd (filter (\<lambda>(al, t). al = b \<and> send_name t) (List.map_filter send_rule ls))"

definition denies_all :: "string list \<Rightarrow> bool" where
  "denies_all ls \<longleftrightarrow> (False, ''*'') \<in> set (List.map_filter send_rule ls)"

lemma send_rules_Cons: "send_rules b (l # ls) = (case send_rule l of None \<Rightarrow> send_rules b ls
    | Some (al, t) \<Rightarrow> if al = b \<and> send_name t then t # send_rules b ls else send_rules b ls)"
  by (auto simp: send_rules_def List.map_filter_def split: option.splits)

lemma denies_all_Cons: "denies_all (l # ls) \<longleftrightarrow> send_rule l = Some (False, ''*'') \<or> denies_all ls"
  by (auto simp: denies_all_def List.map_filter_def)

lemma take_room: "length xs < n \<Longrightarrow> take (n - length xs) (t # ys) = t # take (n - length (xs @ [t])) ys"
  by (metis Suc_diff_Suc length_append_singleton take_Suc_Cons)

lemma rule_step_name:
  assumes "send_rule l = Some (al, t)" "send_name t"
  shows "rule_step l s = (if al then (if length (s_allow s) < MAX_TARGETS then s\<lparr>s_allow := s_allow s @ [t]\<rparr> else s)
    else (if length (s_deny s) < MAX_TARGETS then s\<lparr>s_deny := s_deny s @ [t]\<rparr> else s))"
proof -
  have "t \<noteq> ''*''" using assms(2) by (auto simp: send_name_def)
  then show ?thesis using assms by (simp add: rule_step_def send_name_def)
qed

lemma rule_step_other:
  "send_rule l = Some (al, t) \<Longrightarrow> \<not> send_name t \<Longrightarrow> rule_step l s = (if t = ''*'' \<and> \<not> al then s\<lparr>deny_all := True\<rparr> else s)"
  by (auto simp: rule_step_def send_name_def)

lemma rule_step_fold:
  assumes "length (s_allow s) \<le> MAX_TARGETS" "length (s_deny s) \<le> MAX_TARGETS"
  shows "fold rule_step ls s = \<lparr>s_allow = s_allow s @ take (MAX_TARGETS - length (s_allow s)) (send_rules True ls),
    s_deny = s_deny s @ take (MAX_TARGETS - length (s_deny s)) (send_rules False ls), deny_all = deny_all s \<or> denies_all ls\<rparr>"
  using assms
proof (induction ls arbitrary: s)
  case Nil
  then show ?case by (cases s) (simp add: send_rules_def denies_all_def List.map_filter_def)
next
  case (Cons l ls)
  show ?case
  proof (cases "send_rule l")
    case None
    then show ?thesis using Cons by (simp add: rule_step_def send_rules_Cons denies_all_Cons)
  next
    case (Some at)
    obtain al t where at: "at = (al, t)" by fastforce
    have "length (s_allow (rule_step l s)) \<le> MAX_TARGETS" "length (s_deny (rule_step l s)) \<le> MAX_TARGETS"
      using Cons.prems Some at by (auto simp: rule_step_def)
    note ih = Cons.IH [OF this]
    show ?thesis
    proof (cases "send_name t")
      case True
      then have "(al, t) \<noteq> (False, ''*'')" by (auto simp: send_name_def)
      then have d: "denies_all (l # ls) = denies_all ls" using Some at by (auto simp: denies_all_Cons)
      note step = rule_step_name [OF Some [unfolded at] True, of s] and rules = send_rules_Cons [of _ l ls]
      define xs where "xs = (if al then s_allow s else s_deny s)"
      show ?thesis
      proof (cases "length xs < MAX_TARGETS")
        case room: True
        show ?thesis using ih room True take_room [OF room, of t "send_rules al ls"] unfolding fold_Cons d o_apply step rules Some at
          by (cases al) (simp_all add: xs_def)
      next
        case room: False
        then have "take (MAX_TARGETS - length xs) ys = []" for ys :: "string list" by simp
        then show ?thesis using ih room True unfolding fold_Cons d o_apply step rules Some at
          by (cases al) (simp_all add: xs_def)
      qed
    next
      case False
      then show ?thesis using ih Some at by (auto simp: rule_step_other send_rules_Cons denies_all_Cons)
    qed
  qed
qed

lemma collect_eq: "collect_send_targets caps = (let ls = c_lines caps in if denies_all ls then []
    else filter (\<lambda>t. t \<notin> set (take MAX_TARGETS (send_rules False ls))) (take MAX_TARGETS (send_rules True ls)))"
  by (simp add: collect_send_targets_def rule_step_fold Let_def)

text \<open>A policy with more denials than the table holds.\<close>

definition deny_line :: "char \<Rightarrow> string" where
  "deny_line c = ''deny send:'' @ [c]"

definition long_policy :: "string list" where
  "long_policy = map deny_line ''abcdefghijklmnopq'' @ [''allow send:q'']"

definition long_text :: string where
  "long_text = concat (map (\<lambda>l. l @ [NL]) long_policy)"

lemma long_policy_sends: "''q'' \<in> set (send_rules False (c_lines long_text))" "''q'' \<in> set (collect_send_targets long_text)"
proof -
  have "c_lines (concat (map (\<lambda>l. l @ [NL]) ls)) = ls" if "list_all (\<lambda>l. NL \<notin> set l) ls" for ls
    using that by (induction ls) (simp_all add: c_lines_line)
  moreover have "list_all (\<lambda>l. NL \<notin> set l) long_policy" by code_simp
  ultimately have l: "c_lines long_text = long_policy" by (simp add: long_text_def)
  have "send_rules False long_policy = map (\<lambda>c. [c]) ''abcdefghijklmnopq''" "send_rules True long_policy = [''q'']"
    "\<not> denies_all long_policy" by code_simp+
  then show "''q'' \<in> set (send_rules False (c_lines long_text))" "''q'' \<in> set (collect_send_targets long_text)"
    by (simp_all add: l collect_eq MAX_TARGETS_def)
qed

text \<open>
  C40. The targets of a fan-out are exactly these: none if the policy denies sending to everyone, otherwise
  the first sixteen allowed names, in the order of the policy, without those among the first sixteen denied
  names. The tables have sixteen entries, so a later denial has no effect: there is a
  policy that denies an agent which is nevertheless a target.\<close>

theorem send_targets_exact:
  "collect_send_targets caps = (let ls = c_lines caps in if denies_all ls then []
     else filter (\<lambda>t. t \<notin> set (take MAX_TARGETS (send_rules False ls))) (take MAX_TARGETS (send_rules True ls))) \<and>
   (\<exists>policy t. t \<in> set (send_rules False (c_lines policy)) \<and> t \<in> set (collect_send_targets policy))"
  using collect_eq long_policy_sends by blast

text \<open>
  A reply over an agentfs mailbox carries no \<open>REPLY-TO\<close>, so its sender is unknown, and \<open>pending_remove\<close>
  refuses the name \<open>?\<close>: the entry of the agent that replied stays.
\<close>

lemma unnamed_reply_keeps_pending:
  assumes "agentfs_recv (l_read k) (server_fd r) (rt_os r) = (Inr (h, b), w)" "h_reply_to h = []"
  shows "recv_agentfs k r = (Got m, r') \<Longrightarrow> pending_remove name tid (i_sender m) w' = (Inl EINVAL, w')"
proof -
  have "\<not> validate_name ''?''" by code_simp
  then show "recv_agentfs k r = (Got m, r') \<Longrightarrow> pending_remove name tid (i_sender m) w' = (Inl EINVAL, w')"
    using assms by (auto simp: recv_agentfs_def pending_remove_def pending_path_def)
qed

end
