(* ===== verification/Reviewer.thy ===== *)
theory Reviewer
  imports Runtime
begin

text \<open>
  The reviewer runtime (\<open>reviewer-agent.c\<close>): counting the changed lines and the suspicious patterns of a
  diff, the three artifacts of a review, the result of the task and the reply to the requester. The
  lemmas give the counts a meaning that does not mention positions.
\<close>

section \<open>Counting\<close>

definition PATTERNS :: "(string \<times> string) list" where
  "PATTERNS = [(''TODO'', ''low''), (''FIXME'', ''low''), (''password'', ''high''), (''secret'', ''high''),
     (''eval'', ''med''), (''strcpy'', ''high''), (''gets'', ''high'')]"

definition count_pattern :: "string \<Rightarrow> string \<Rightarrow> nat" where
  "count_pattern hay needle = (let n = length hay; nl = length needle in
     if nl = 0 \<or> nl > n then 0
     else fold (\<lambda>i count. if take nl (drop i hay) = needle then count + 1 else count) [0..<n - nl + 1] 0)"

fun count_diff_from :: "bool \<Rightarrow> string \<Rightarrow> nat \<times> nat \<Rightarrow> nat \<times> nat" where
  "count_diff_from at_line_start [] acc = acc"
| "count_diff_from at_line_start (c # s) (added, removed) =
     count_diff_from (c = NL) s
       (if at_line_start \<and> \<not> starts_with ''+++'' (c # s) \<and> \<not> starts_with ''---'' (c # s) then
          (if c = CHR ''+'' then (added + 1, removed) else if c = CHR ''-'' then (added, removed + 1) else (added, removed))
        else (added, removed))"

definition count_diff :: "string \<Rightarrow> nat \<times> nat" where
  "count_diff buf = count_diff_from True buf (0, 0)"

section \<open>Artifacts\<close>

text \<open>The \<open>APP\<close> macros: \<open>None\<close> when a piece does not fit.\<close>

fun app_all :: "nat \<Rightarrow> string list \<Rightarrow> string \<Rightarrow> string option" where
  "app_all sz [] out = Some out"
| "app_all sz (s # ss) out = (if length s \<ge> sz - length out then None else app_all sz ss (out @ s))"

definition dquote :: string where "dquote = [CHR 0x22]"

definition review_md_parts :: "nat \<Rightarrow> nat \<times> nat \<Rightarrow> nat list \<Rightarrow> string list" where
  "review_md_parts plen d counts =
     [''# Review'' @ [NL, NL], ''- payload bytes: '' @ dec_nat plen @ [NL], ''- lines added:   '' @ dec_nat (fst d) @ [NL],
      ''- lines removed: '' @ dec_nat (snd d) @ [NL, NL], ''## Findings'' @ [NL, NL],
      ''| Pattern | Count | Severity |'' @ [NL], ''|---|---:|---|'' @ [NL]] @
     map (\<lambda>((needle, sev), c). ''| '' @ needle @ '' | '' @ dec_nat c @ '' | '' @ sev @ '' |'' @ [NL]) (zip PATTERNS counts) @
     [NL # ''## Summary'' @ [NL, NL],
      dec_nat (sum_list counts) @ '' findings total; '' @
        dec_nat (sum_list (map snd (filter (\<lambda>((_, sev), _). sev = ''high'') (zip PATTERNS counts)))) @ '' high-severity.'' @ [NL]]"

definition write_review_md :: "string \<Rightarrow> string \<Rightarrow> nat \<Rightarrow> nat \<times> nat \<Rightarrow> nat list \<Rightarrow> artifact_policy \<Rightarrow> unit io" where
  "write_review_md name tid plen d counts policy w = (case app_all (64 * 1024) (review_md_parts plen d counts) [] of
       None \<Rightarrow> (Inl E0, w)
     | Some buf \<Rightarrow> task_write_artifact name tid ''review.md'' buf policy w)"

fun risk_items :: "bool \<Rightarrow> ((string \<times> string) \<times> nat) list \<Rightarrow> string list" where
  "risk_items first [] = [(if first then [] else [NL]) @ ''  ]'' @ NL # ''}'' @ [NL]]"
| "risk_items first (((needle, sev), c) # cs) = (if c = 0 then risk_items first cs
     else ((if first then [] else '','' @ [NL]) @ ''    {'' @ dquote @ ''pattern'' @ dquote @ '':'' @ dquote @ needle @ dquote @ '','' @ dquote @ ''count'' @ dquote @ '':'' @
         dec_nat c @ '','' @ dquote @ ''severity'' @ dquote @ '':'' @ dquote @ sev @ dquote @ ''}'') # risk_items False cs)"

definition risks_head :: "nat \<times> nat \<Rightarrow> string" where
  "risks_head d = ''{'' @ NL # ''  '' @ dquote @ ''added'' @ dquote @ '': '' @ dec_nat (fst d) @ '','' @ NL # ''  '' @ dquote @ ''removed'' @ dquote @ '': '' @
     dec_nat (snd d) @ '','' @ NL # ''  '' @ dquote @ ''findings'' @ dquote @ '': ['' @ [NL]"

definition write_risks_json :: "string \<Rightarrow> string \<Rightarrow> nat \<times> nat \<Rightarrow> nat list \<Rightarrow> artifact_policy \<Rightarrow> unit io" where
  "write_risks_json name tid d counts policy w = (case app_all 4096 (risks_head d # risk_items True (zip PATTERNS counts)) [] of
       None \<Rightarrow> (Inl E0, w)
     | Some buf \<Rightarrow> task_write_artifact name tid ''risks.json'' buf policy w)"

definition write_patch_suggestions :: "string \<Rightarrow> string \<Rightarrow> string \<Rightarrow> artifact_policy \<Rightarrow> unit io" where
  "write_patch_suggestions name tid body policy = task_write_artifact name tid ''patch-suggestions.diff'' body policy"

section \<open>Reviews\<close>

definition review_counts :: "nat \<times> nat \<Rightarrow> nat list \<Rightarrow> string" where
  "review_counts d counts = ''added='' @ dec_nat (fst d) @ '' removed='' @ dec_nat (snd d) @ '' findings='' @ dec_nat (sum_list counts)"

definition review_summary :: "nat \<times> nat \<Rightarrow> nat list \<Rightarrow> string" where
  "review_summary d counts = snprintf_trunc 256 (''status: completed'' @ NL # ''added: '' @ dec_nat (fst d) @ NL # ''removed: '' @
     dec_nat (snd d) @ NL # ''findings: '' @ dec_nat (sum_list counts) @ [NL])"

text \<open>The three artifacts in order: the first that fails ends it, and is logged under its name.\<close>

definition write_artifacts :: "string \<Rightarrow> string \<Rightarrow> string \<Rightarrow> nat \<times> nat \<Rightarrow> nat list \<Rightarrow> artifact_policy \<Rightarrow> world \<Rightarrow>
    ((string \<times> errno) option) \<times> world" where
  "write_artifacts name tid body d counts policy w = (case write_review_md name tid (length body) d counts policy w of
       (Inl e, w) \<Rightarrow> (Some (''review.md'', e), w)
     | (Inr _, w) \<Rightarrow> (case write_risks_json name tid d counts policy w of
         (Inl e, w) \<Rightarrow> (Some (''risks.json'', e), w)
       | (Inr _, w) \<Rightarrow> (case write_patch_suggestions name tid body policy w of
           (Inl e, w) \<Rightarrow> (Some (''patch-suggestions'', e), w)
         | (Inr _, w) \<Rightarrow> (None, w))))"

text \<open>\<open>handle_review\<close>: whether it succeeded, the summary, the runtime. A failing log leaves its own \<open>errno\<close>.\<close>

definition handle_review :: "links \<Rightarrow> string \<Rightarrow> string \<Rightarrow> artifact_policy \<Rightarrow> runtime \<Rightarrow> (bool \<times> string) \<times> runtime" where
  "handle_review k tid body policy r0 =
     (let r = event_rt tid (''review begin policy='' @ artifact_policy_name policy) (status_rt ''processing'' r0);
          d = count_diff body;
          counts = map (\<lambda>(needle, _). count_pattern body needle) PATTERNS;
          (x, w) = write_artifacts (rt_name r) tid body d counts policy (rt_os r);
          r = r\<lparr>rt_os := w\<rparr>
      in case x of
           None \<Rightarrow> ((True, review_summary d counts), status_rt ''idle''
             (event_rt tid (''review done '' @ review_counts d counts) (log_rt (''review done '' @ review_counts d counts) r)))
         | Some (what, e) \<Rightarrow>
             (let (y, w) = audit_log (rt_name r) (''review error: '' @ what @ '': '' @ err k e) (rt_os r);
                  e = (case y of Inl e' \<Rightarrow> e' | Inr _ \<Rightarrow> e)
              in ((False, snprintf_trunc 256 (''status: failed'' @ NL # ''reason: '' @ err k e @ [NL])), status_rt ''idle'' (r\<lparr>rt_os := w\<rparr>))))"

definition review_verb :: "links \<Rightarrow> string \<Rightarrow> incoming \<Rightarrow> runtime \<Rightarrow> (bool \<times> string) \<times> runtime" where
  "review_verb k tid m r = (if h_verb (i_hdr m) = ''review'' then handle_review k tid (i_body m) (artifact_pol (rt_cfg r)) r
     else ((False, snprintf_trunc 256 (''status: failed'' @ NL # ''reason: unknown verb '' @ h_verb (i_hdr m) @ [NL])),
       event_rt tid ''unknown verb'' (log_rt (''unknown verb: '' @ h_verb (i_hdr m)) r)))"

definition persist_result :: "string \<Rightarrow> string \<Rightarrow> runtime \<Rightarrow> runtime" where
  "persist_result tid summary r = rdo (with_path (rt_name r) (snprintf_trunc 64 (''tasks/'' @ tid @ ''/result''))
     (\<lambda>p. atomic_write_file p summary 384)) r"

definition send_reply :: "links \<Rightarrow> string \<Rightarrow> string \<Rightarrow> incoming \<Rightarrow> runtime \<Rightarrow> runtime" where
  "send_reply k tid summary m r =
     (let to = h_reply_to (i_hdr m); corr = (if h_task_id (i_hdr m) \<noteq> [] then h_task_id (i_hdr m) else tid) in
      if to = [] then r
      else (case send_to_agent_ex (h_getenv (l_host k)) (l_conn k) (l_write k) to ''result'' [] corr summary (rt_os r) of
          (SendOk, w) \<Rightarrow> event_rt tid (''reply sent -> '' @ to) (log_rt (''reply -> '' @ to @ '' ok (task='' @ corr @ '')'') (r\<lparr>rt_os := w\<rparr>))
        | (SendGone, w) \<Rightarrow> event_rt tid (''reply -> '' @ to @ '' skipped'') (log_rt (''reply -> '' @ to @ '' skipped (no listener)'') (r\<lparr>rt_os := w\<rparr>))
        | (SendErr e, w) \<Rightarrow> event_rt tid (''reply -> '' @ to @ '' failed: '' @ err k e)
            (log_rt (''reply -> '' @ to @ '' failed: '' @ err k e) (r\<lparr>rt_os := w\<rparr>))))"

text \<open>A message: whether the loop goes on (a single-shot agent ends after one task).\<close>

definition reviewer_message :: "links \<Rightarrow> incoming \<Rightarrow> runtime \<Rightarrow> bool \<times> runtime" where
  "reviewer_message k m r =
     (if h_verb (i_hdr m) = ''ping'' then (True, pong k m r)
      else (case create_task k m r of
          (Inl _, r) \<Rightarrow> (True, close_client m r)
        | (Inr tid, r) \<Rightarrow>
            (let ((ok, summary), r) = review_verb k tid m r;
                 r = persist_result tid summary r;
                 r = (if ok then mark_rt tid TASK_COMPLETED ''completed'' ''completed'' r
                      else mark_rt tid TASK_FAILED ''failed'' ''failed'' r);
                 r = send_reply k tid summary m (close_client m r)
             in if dispatch (rt_cfg r) = DISPATCH_SINGLE_SHOT
                then (False, log_rt (''single-shot: task '' @ tid @ '' done, exiting'') r) else (True, r))))"

definition reviewer_banner :: "profile_cfg \<Rightarrow> transport_cfg \<Rightarrow> world \<Rightarrow> string" where
  "reviewer_banner cfg t w = ''reviewer-agent started pid='' @ dec_nat (self_pid w) @ '' transport='' @ transport_name (tkind t) @
     '' profile='' @ profile_name cfg @ '' dispatch='' @ dispatch_name (dispatch cfg) @
     '' artifact_policy='' @ artifact_policy_name (artifact_pol cfg) @ '' idle_timeout='' @ dec_int (idle_timeout_sec cfg)"

definition reviewer_extra :: "runtime \<Rightarrow> string" where
  "reviewer_extra r = ''profile: '' @ profile_name (rt_cfg r) @ [NL] @ ''dispatch: '' @ dispatch_name (dispatch (rt_cfg r)) @ [NL] @
     ''artifact_policy: '' @ artifact_policy_name (artifact_pol (rt_cfg r)) @ [NL] @
     ''messages_total: '' @ dec_nat (messages_total r) @ [NL] @
     ''last_verb: '' @ (if last_verb_seen r \<noteq> [] then last_verb_seen r else ''-'') @ [NL] @
     ''last_message_at: '' @ (if last_message_at r \<noteq> 0 then stamp_iso (gmtime_r (last_message_at r)) else ''-'') @ [NL]"

definition reviewer_round :: "links \<Rightarrow> poll_result \<Rightarrow> disposition list \<Rightarrow> runtime \<Rightarrow> bool \<times> runtime" where
  "reviewer_round k pr sigs r0 =
     (case wait_message k (\<lambda>t. ''idle '' @ dec_int t @ ''s; exiting (dispatch=single-shot)'') pr sigs (drain_flags k reviewer_extra r0) of
        (Stop, r) \<Rightarrow> (False, r)
      | (Again, r) \<Rightarrow> (True, r)
      | (Proceed, r) \<Rightarrow> (case receive k r of
          (Quit, r) \<Rightarrow> (False, r)
        | (Skip, r) \<Rightarrow> (True, r)
        | (Got m, r) \<Rightarrow> (case admit m r of
            (None, r) \<Rightarrow> (True, r)
          | (Some _, r) \<Rightarrow> reviewer_message k m (r\<lparr>last_message_at := now (rt_os r)\<rparr>))))"

fun reviewer_loop :: "links \<Rightarrow> (poll_result \<times> disposition list) list \<Rightarrow> runtime \<Rightarrow> bool \<times> runtime" where
  "reviewer_loop k [] r = (\<not> shutdown_flag (rt_flags r), r)"
| "reviewer_loop k ((pr, sigs) # evs) r =
     (if shutdown_flag (rt_flags r) then (False, r)
      else (case reviewer_round k pr sigs r of (True, r) \<Rightarrow> reviewer_loop k evs r | (False, r) \<Rightarrow> (False, r)))"

definition reviewer_main :: "links \<Rightarrow> string list \<Rightarrow> bool \<Rightarrow> (poll_result \<times> disposition list) list \<Rightarrow> world \<Rightarrow> int option \<times> world" where
  "reviewer_main k argv oom evs w = (case start_runtime k reviewer_banner argv oom w of
       (Inl c, w) \<Rightarrow> (Some c, w)
     | (Inr r, w) \<Rightarrow> (case reviewer_loop k evs r of
         (True, r) \<Rightarrow> (None, rt_os r) | (False, r) \<Rightarrow> (Some 0, stop_runtime ''reviewer-agent shutting down'' r)))"

section \<open>What is counted\<close>

definition added_line :: "string \<Rightarrow> bool" where
  "added_line l \<longleftrightarrow> starts_with ''+'' l \<and> \<not> starts_with ''+++'' l"

definition removed_line :: "string \<Rightarrow> bool" where
  "removed_line l \<longleftrightarrow> starts_with ''-'' l \<and> \<not> starts_with ''---'' l"

lemma count_diff_skip: "NL \<notin> set l \<Longrightarrow> count_diff_from False (l @ s) acc = count_diff_from False s acc"
  by (induction l arbitrary: acc) (auto split: prod.splits)

lemma count_diff_line:
  assumes "NL \<notin> set l" "l \<noteq> []" "s = [] \<or> hd s = NL"
  shows "count_diff_from True (l @ s) (a, b) =
    count_diff_from False s (if added_line l then a + 1 else a, if removed_line l then b + 1 else b)"
proof -
  obtain c t where l: "l = c # t" using assms(2) by (cases l) auto
  have "starts_with [x, x, x] (l @ s) = starts_with [x, x, x] l" if "x \<noteq> NL" for x
    using assms(3) that l by (cases s; cases t; cases "tl t") (auto simp: starts_with_def)
  moreover have "starts_with ''+'' l \<longleftrightarrow> c = CHR ''+''" "starts_with ''-'' l \<longleftrightarrow> c = CHR ''-''"
    by (auto simp: l starts_with_def)
  moreover have "count_diff_from False (t @ s) acc = count_diff_from False s acc" for acc
    using count_diff_skip [of t s] assms(1) by (simp add: l)
  moreover have "c \<noteq> NL" using assms(1) l by auto
  moreover have "starts_with [x, x, x] l \<Longrightarrow> c = x" for x by (auto simp: l starts_with_def)
  ultimately show ?thesis by (auto simp: l added_line_def removed_line_def)
qed

lemma count_diff_from_lines:
  "count_diff_from True s (a, b) = (a + length (filter added_line (c_lines s)), b + length (filter removed_line (c_lines s)))"
proof (induction s arbitrary: a b rule: c_lines.induct)
  case (1 s)
  obtain l y where ly: "split_at NL s = (l, y)" by fastforce
  have e: "\<not> added_line []" "\<not> removed_line []" by (simp_all add: added_line_def removed_line_def starts_with_def)
  show ?case
  proof (cases y)
    case None
    then have s: "s = l" "NL \<notin> set l" using ly split_at_NoneD by auto
    show ?thesis
    proof (cases "l = []")
      case False
      then show ?thesis using count_diff_line [of l "[]" a b] s by (simp add: c_lines_last)
    qed (simp add: s)
  next
    case (Some r)
    then have s: "s = l @ NL # r" "NL \<notin> set l" using ly split_at_SomeD by auto
    have ih: "count_diff_from True r (a', b') =
        (a' + length (filter added_line (c_lines r)), b' + length (filter removed_line (c_lines r)))" for a' b'
      using "1.IH" [OF _ ly [symmetric] Some] s by simp
    have "c_lines s = l # c_lines r" using s by (simp add: c_lines_line)
    moreover have "count_diff_from x (NL # r) acc = count_diff_from True r acc" for x acc
      by (cases acc) (simp add: starts_with_def)
    ultimately show ?thesis using ih s e count_diff_line [of l "NL # r" a b] by (cases "l = []") auto
  qed
qed

text \<open>The change counts are the lines that begin with one sign but not with three.\<close>

lemma count_diff_lines:
  "count_diff buf = (length (filter added_line (c_lines buf)), length (filter removed_line (c_lines buf)))"
  by (simp add: count_diff_def count_diff_from_lines)

text \<open>A pattern is counted at every position where it occurs, overlapping occurrences included.\<close>

lemma count_pattern_positions:
  assumes "needle \<noteq> []"
  shows "count_pattern hay needle = card {i. \<exists>r. drop i hay = needle @ r}"
proof -
  have f: "fold (\<lambda>i n. if P i then n + 1 else n) xs n = n + length (filter P xs)" for P and xs :: "nat list" and n :: nat
    by (induction xs arbitrary: n) auto
  have "i + length needle \<le> length hay" if "drop i hay = needle @ r" for i r
  proof -
    have "length hay - i = length needle + length r" using that by (metis length_append length_drop)
    then show ?thesis using assms by (cases needle) auto
  qed
  then have "{i. \<exists>r. drop i hay = needle @ r} = set (filter (\<lambda>i. take (length needle) (drop i hay) = needle)
      [0..<Suc (length hay) - length needle])" (is "_ = set ?ps")
    by (auto simp: le_diff_conv2 less_diff_conv) (fastforce, metis append_take_drop_id)
  moreover have "card (set ?ps) = length ?ps" by (rule distinct_card) simp
  moreover have "count_pattern hay needle = length ?ps"
  proof (cases "length needle \<le> length hay")
    case True
    then have "Suc (length hay) - length needle = length hay - length needle + 1" by simp
    then show ?thesis using True assms unfolding count_pattern_def Let_def f by simp
  qed (simp add: count_pattern_def)
  ultimately show ?thesis by simp
qed

end
