(* ===== verification/Agentctl.thy ===== *)
theory Agentctl
  imports Runtime Control
begin

text \<open>
  The command line tool (\<open>agentctl.c\<close>): creating an agent and editing its files, starting, stopping and
  killing it with or without the supervisor, requests to the supervisor's control socket, sending a
  message, the listings of agents, tasks and artifacts, and the dispatch of the arguments.

  A command yields its exit code and the world; what it prints about its success is not part of the result,
  except for the listings. What arrives on standard input is a parameter. The lemmas bound
  what the removal of an agent's directory can touch.
\<close>

section \<open>Files of an agent\<close>

text \<open>Exit codes: 0, 1 for a failure, 2 for a misuse.\<close>

definition exit_code :: "errno + 'a \<Rightarrow> nat" where
  "exit_code x = (case x of Inl _ \<Rightarrow> 1 | Inr _ \<Rightarrow> 0)"

fun make_subdirs :: "string \<Rightarrow> string list \<Rightarrow> unit io" where
  "make_subdirs name [] w = (Inr (), w)"
| "make_subdirs name (d # ds) w = (case with_path name d (\<lambda>p. sys_mkdir p 448) w of
     (Inl e, w) \<Rightarrow> (Inl e, w) | (Inr _, w) \<Rightarrow> make_subdirs name ds w)"

definition make_file :: "string \<Rightarrow> unit io" where
  "make_file p w = (case sys_open p [O_WRONLY, O_CREAT, O_TRUNC, O_CLOEXEC] 384 w of
     (Inl e, w) \<Rightarrow> (Inl e, w) | (Inr fd, w) \<Rightarrow> (Inr (), snd (sys_close fd w)))"

fun make_files :: "string \<Rightarrow> string list \<Rightarrow> unit io" where
  "make_files name [] w = (Inr (), w)"
| "make_files name (f # ls) w = (case with_path name f make_file w of
     (Inl e, w) \<Rightarrow> (Inl e, w) | (Inr _, w) \<Rightarrow> make_files name ls w)"

definition write_profile :: "string \<Rightarrow> string \<Rightarrow> unit io" where
  "write_profile name p = with_path name ''profile'' (\<lambda>path w.
     if length p + 1 \<ge> MAX_NAME + 2 then (Inl E0, w) else atomic_write_file path (p @ [NL]) 384 w)"

definition create_files :: "string \<Rightarrow> string \<Rightarrow> string \<Rightarrow> unit io" where
  "create_files name profile dir w = (case sys_mkdir dir 448 w of
       (Inl e, w) \<Rightarrow> (Inl e, w)
     | (Inr _, w) \<Rightarrow> (case agent_ensure_layout name w of
       (Inl e, w) \<Rightarrow> (Inl e, w)
     | (Inr _, w) \<Rightarrow> (case make_subdirs name [''artifacts'', ''outbox''] w of
       (Inl e, w) \<Rightarrow> (Inl e, w)
     | (Inr _, w) \<Rightarrow> (case make_files name [''goal'', ''policy'', ''limits'', ''audit.log''] w of
       (Inl e, w) \<Rightarrow> (Inl e, w)
     | (Inr _, w) \<Rightarrow> (case write_profile name (if profile \<noteq> [] then profile else ''worker'') w of
       (Inl e, w) \<Rightarrow> (Inl e, w)
     | (Inr _, w) \<Rightarrow> (case write_status name ''created'' w of
       (Inl e, w) \<Rightarrow> (Inl e, w)
     | (Inr _, w) \<Rightarrow> (Inr (), snd (audit_log name ''agent created'' w))))))))"

definition cmd_create :: "string \<Rightarrow> string option \<Rightarrow> world \<Rightarrow> nat \<times> world" where
  "cmd_create name profile w =
     (if \<not> validate_name name then (1, w)
      else if (case profile of None \<Rightarrow> False | Some p \<Rightarrow> \<not> validate_name p) then (1, w)
      else (case ensure_dir (agent_root w) 448 w of
          (Inl _, w) \<Rightarrow> (1, w)
        | (Inr _, w) \<Rightarrow> (case agent_dir name w of
            Inl _ \<Rightarrow> (1, w)
          | Inr dir \<Rightarrow> (let (x, w) = create_files name (or_else [] profile) dir w in (exit_code x, w)))))"

text \<open>A file of the agent is changed, then the change is logged.\<close>

definition logged :: "string \<Rightarrow> string \<Rightarrow> unit io \<Rightarrow> world \<Rightarrow> nat \<times> world" where
  "logged name msg f w = (case f w of (Inl _, w) \<Rightarrow> (1, w) | (Inr _, w) \<Rightarrow> (0, snd (audit_log name msg w)))"

definition cmd_set_goal :: "string \<Rightarrow> string \<Rightarrow> world \<Rightarrow> nat \<times> world" where
  "cmd_set_goal name goal = logged name (''goal set: '' @ goal) (with_path name ''goal'' (\<lambda>path w.
     if length goal + 2 > 4096 then (Inl E2BIG, w) else atomic_write_file path (goal @ [NL]) 384 w))"

definition cap_append :: "string \<Rightarrow> string \<Rightarrow> string \<Rightarrow> world \<Rightarrow> nat \<times> world" where
  "cap_append name k c = logged name (k @ '' '' @ c) (with_path name ''policy'' (\<lambda>path w.
     let line = k @ '' '' @ c @ [NL] in if length line \<ge> 512 then (Inl E2BIG, w) else append_file path line 384 w))"

text \<open>\<open>set-limit\<close> edits the limits file line by line exactly as \<open>kv_file_set\<close> edits a configuration.\<close>

definition cmd_set_limit :: "string \<Rightarrow> string \<Rightarrow> world \<Rightarrow> nat \<times> world" where
  "cmd_set_limit name kv w = (case split_at (CHR ''='') kv of
       (_, None) \<Rightarrow> (1, w)
     | (key, Some _) \<Rightarrow> if key = [] then (1, w)
         else logged name (''limit set: '' @ kv) (with_path name ''limits'' (\<lambda>path. kv_file_set path kv)) w)"

definition cmd_enable :: "string \<Rightarrow> bool \<Rightarrow> world \<Rightarrow> nat \<times> world" where
  "cmd_enable name enable w = (if \<not> validate_name name then (1, w)
     else logged name ((if enable then ''enable'' else ''disable'') @ '' requested'')
            (write_agent_setting name ''enabled'' (if enable then ''yes'' else ''no'')) w)"

definition cmd_set_restart_policy :: "string \<Rightarrow> string \<Rightarrow> world \<Rightarrow> nat \<times> world" where
  "cmd_set_restart_policy name policy w = (if \<not> validate_name name then (1, w)
     else if policy \<noteq> ''never'' \<and> policy \<noteq> ''on-failure'' \<and> policy \<noteq> ''always'' then (1, w)
     else logged name (''restart_policy='' @ policy) (write_agent_setting name ''restart_policy'' policy) w)"

definition cmd_set_profile :: "string \<Rightarrow> string \<Rightarrow> world \<Rightarrow> nat \<times> world" where
  "cmd_set_profile name profile w = (if \<not> validate_name name \<or> \<not> validate_name profile then (1, w)
     else logged name (''profile set to '' @ profile @ '' (takes effect on next start)'') (write_profile name profile) w)"

definition cmd_config :: "string \<Rightarrow> string \<Rightarrow> world \<Rightarrow> nat \<times> world" where
  "cmd_config name kv w = (if \<not> validate_name name \<or> CHR ''='' \<notin> set kv then (1, w)
     else logged name (''config set: '' @ kv) (with_path name ''config'' (\<lambda>path. kv_file_set path kv)) w)"

section \<open>Talking to the supervisor\<close>

definition agentd_is_alive :: "world \<Rightarrow> bool \<times> world" where
  "agentd_is_alive w = (case sys_open (agentd_pid_path w) [O_RDONLY, O_CLOEXEC] 0 w of
       (Inl _, w) \<Rightarrow> (False, w)
     | (Inr fd, w) \<Rightarrow> (case sys_read fd 31 w of
         (Inl _, w) \<Rightarrow> (False, snd (sys_close fd w))
       | (Inr b, w) \<Rightarrow> (let w = snd (sys_close fd w) in
           if b = [] then (False, w)
           else (case parse_pid (cstr b) of None \<Rightarrow> (False, w) | Some p \<Rightarrow> run_alive p w))))"

text \<open>The status file is polled every 50 ms; \<open>k\<close> polls are left.\<close>

fun status_flip :: "nat \<Rightarrow> string \<Rightarrow> world \<Rightarrow> bool \<times> world" where
  "status_flip 0 path w = (False, w)"
| "status_flip (Suc k) path w = (case read_small_file path 64 w of
       (Inl _, w) \<Rightarrow> status_flip k path (sys_nanosleep w)
     | (Inr b, w) \<Rightarrow> (let s = takeWhile (\<lambda>c. c \<noteq> NL) (cstr b) in
         if s \<noteq> ''starting'' \<and> s \<noteq> ''created'' then (True, w) else status_flip k path (sys_nanosleep w)))"

definition wait_for_status_flip :: "string \<Rightarrow> nat \<Rightarrow> world \<Rightarrow> bool \<times> world" where
  "wait_for_status_flip name ms w = (case agent_path MAX_PATHBUF name ''status'' w of
     (Inl _, w) \<Rightarrow> (False, w) | (Inr p, w) \<Rightarrow> status_flip ((ms + 49) div 50) p w)"

definition agentd_connect :: "links \<Rightarrow> (ipc_rc + nat) \<times> world \<Rightarrow> (ipc_rc + nat) \<times> world" where
  "agentd_connect k x = (case x of (Inl rc, w) \<Rightarrow> (Inl rc, w)
     | (Inr fd, w) \<Rightarrow> if length (agentd_sock_path w) \<ge> SUN_PATH_MAX then (Inl (IPC_ERR ENAMETOOLONG), snd (sys_close fd w))
         else (case sys_connect (l_conn k) fd (agentd_sock_path w) w of
             (Inl e, w) \<Rightarrow> (Inl (if e = ENOENT \<or> e = ECONNREFUSED then IPC_PEER_GONE else IPC_ERR e), snd (sys_close fd w))
           | (Inr _, w) \<Rightarrow> (Inr fd, w)))"

definition open_agentd :: "links \<Rightarrow> world \<Rightarrow> (ipc_rc + nat) \<times> world" where
  "open_agentd k w = agentd_connect k (case sys_socket w of (Inl e, w) \<Rightarrow> (Inl (IPC_ERR e), w) | (Inr fd, w) \<Rightarrow> (Inr fd, w))"

definition read_token :: "string io" where
  "read_token w = (case read_small_file (agentd_token_path w) 129 w of
     (Inl e, w) \<Rightarrow> (Inl e, w) | (Inr b, w) \<Rightarrow> (Inr (takeWhile (\<lambda>c. c \<noteq> CR \<and> c \<noteq> NL) (cstr b)), w))"

text \<open>The line \<open>AUTH <token> <command>\<close> is sent; \<open>sz\<close> is the size of the buffer it is printed to.\<close>

definition send_auth :: "nat \<Rightarrow> nat \<Rightarrow> string \<Rightarrow> unit io" where
  "send_auth sz fd cmd w = (case read_token w of
       (Inl _, w) \<Rightarrow> (Inl EACCES, w)
     | (Inr tok, w) \<Rightarrow> (let line = ''AUTH '' @ tok @ '' '' @ cmd @ [NL] in
         if length line \<ge> sz then (Inl EOVERFLOW, w)
         else (case send_retry fd line [] w of (Inl e, w) \<Rightarrow> (Inl e, w) | (Inr _, w) \<Rightarrow> (Inr (), w))))"

definition agentd_request :: "links \<Rightarrow> string \<Rightarrow> nat \<Rightarrow> world \<Rightarrow> (ipc_rc + string) \<times> world" where
  "agentd_request k cmd n w = (case open_agentd k w of
       (Inl rc, w) \<Rightarrow> (Inl rc, w)
     | (Inr fd, w) \<Rightarrow> (case send_auth 768 fd cmd w of
         (Inl e, w) \<Rightarrow> (Inl (IPC_ERR e), snd (sys_close fd w))
       | (Inr _, w) \<Rightarrow> (case sys_sock_read fd (n - 1) w of
           (Inl e, w) \<Rightarrow> (Inl (IPC_ERR e), snd (sys_close fd w))
         | (Inr b, w) \<Rightarrow> if b = [] then (Inl (IPC_ERR E0), snd (sys_close fd w))
             else (Inr (cstr (rstrip (\<lambda>c. c = NL \<or> c = CR) b)), snd (sys_close fd w)))))"

definition agentd_issue_mailbox :: "links \<Rightarrow> string \<Rightarrow> nat io" where
  "agentd_issue_mailbox k target w = (case open_agentd k w of
       (Inl rc, w) \<Rightarrow> (Inl (case rc of IPC_ERR e \<Rightarrow> e | _ \<Rightarrow> ECONNREFUSED), w)
     | (Inr fd, w) \<Rightarrow> (case send_auth 512 fd (''issue '' @ target) w of
         (Inl e, w) \<Rightarrow> (Inl e, snd (sys_close fd w))
       | (Inr _, w) \<Rightarrow> (case sys_recvmsg fd 255 1 w of
           (Inl e, w) \<Rightarrow> (Inl e, snd (sys_close fd w))
         | (Inr rx, w) \<Rightarrow> (let w = snd (sys_close fd w) in
             if rx_bytes rx = [] then (Inl E0, w)
             else (case rx_fds rx of [] \<Rightarrow> (Inl EACCES, w) | n # _ \<Rightarrow> (Inr n, w))))))"

text \<open>A request the supervisor must answer with \<open>OK\<close>.\<close>

definition agentd_ok :: "links \<Rightarrow> string \<Rightarrow> world \<Rightarrow> bool \<times> world" where
  "agentd_ok k cmd w = (case agentd_request k (snprintf_trunc 256 cmd) 256 w of
     (Inl _, w) \<Rightarrow> (False, w) | (Inr r, w) \<Rightarrow> (starts_with ''OK '' r, w))"

section \<open>Starting\<close>

definition start_allowed :: "links \<Rightarrow> string \<Rightarrow> string \<Rightarrow> unit io" where
  "start_allowed k name runtime_path w = (case agent_dir name w of
       Inl e \<Rightarrow> (Inl e, w)
     | Inr dir \<Rightarrow> (case sys_stat dir w of
         (Inl e, w) \<Rightarrow> (Inl e, w)
       | (Inr _, w) \<Rightarrow>
           (let (running, w) = (case read_pid_file name w of (Inl _, w) \<Rightarrow> (False, w) | (Inr p, w) \<Rightarrow> run_alive p w) in
            if running then (Inl EEXIST, w)
            else (case h_realpath (l_host k) runtime_path of
                Inl e \<Rightarrow> (Inl e, w)
              | Inr path \<Rightarrow> sys_access path [64] w))))"

definition cmd_start :: "links \<Rightarrow> string \<Rightarrow> string \<Rightarrow> int \<times> int \<times> int \<Rightarrow> string option \<Rightarrow> world \<Rightarrow> nat \<times> world" where
  "cmd_start k name runtime_path ov agentfs_mount w = (case start_allowed k name runtime_path w of
       (Inl _, w) \<Rightarrow> (1, w)
     | (Inr _, w) \<Rightarrow>
         (let w = snd (write_agent_setting name ''exec'' runtime_path w);
              w = snd (write_agent_setting name ''desired_state'' ''running'' w);
              (t, w) = (case agentfs_mount of None \<Rightarrow> (Inr (), w)
                | Some m \<Rightarrow> if m = [] then (Inr (), w) else transport_write name TRANSPORT_AGENTFS m w)
          in case t of Inl _ \<Rightarrow> (1, w)
             | Inr _ \<Rightarrow>
                 (let (alive, w) = agentd_is_alive w in
                  if alive then
                    (let (ok, w) = agentd_ok k (''start '' @ name) w in
                     if \<not> ok then (1, w)
                     else (let (up, w) = wait_for_status_flip name 3000 w in
                           if up then (0, snd (read_pid_file name w)) else (1, w)))
                  else (let ((x, _), w) = spawn_agent_runtime (l_host k) name runtime_path (Some ''direct'') ov False False w
                        in (exit_code x, w)))))"

definition cmd_restart :: "links \<Rightarrow> string \<Rightarrow> world \<Rightarrow> nat \<times> world" where
  "cmd_restart k name w = (if \<not> validate_name name then (1, w)
     else (case agentd_request k (snprintf_trunc 256 (''restart '' @ name)) 256 w of
         (Inl _, w) \<Rightarrow> (1, w) | (Inr r, w) \<Rightarrow> (if starts_with ''O'' r then 0 else 1, w)))"

definition cmd_daemon_shutdown :: "links \<Rightarrow> world \<Rightarrow> nat \<times> world" where
  "cmd_daemon_shutdown k w = (case agentd_request k ''shutdown'' 256 w of (Inl _, w) \<Rightarrow> (1, w) | (Inr _, w) \<Rightarrow> (0, w))"

section \<open>Sending\<close>

definition send_verb_ok :: "string \<Rightarrow> bool" where
  "send_verb_ok v \<longleftrightarrow> v \<noteq> [] \<and> length v < MAX_VERB \<and> list_all name_char v"

definition deliver :: "links \<Rightarrow> string \<Rightarrow> string \<Rightarrow> string \<Rightarrow> world \<Rightarrow> send_rc \<times> world" where
  "deliver k name v body w = (let (alive, w) = agentd_is_alive w in
     if alive then
       (case agentd_issue_mailbox k name w of
          (Inl e, w) \<Rightarrow> (SendErr e, w)
        | (Inr fd, w) \<Rightarrow> (let (x, w) = send_framed_message_ex fd v ''operator'' [] body w
            in (case x of Inl e \<Rightarrow> SendErr e | Inr _ \<Rightarrow> SendOk, snd (sys_close fd w))))
     else send_to_agent (h_getenv (l_host k)) (l_conn k) (l_write k) name v body w)"

definition cmd_send :: "links \<Rightarrow> errno + string \<Rightarrow> string \<Rightarrow> string \<Rightarrow> world \<Rightarrow> nat \<times> world" where
  "cmd_send k input name v w = (if \<not> send_verb_ok v then (1, w)
     else (case agent_path MAX_PATHBUF name ''inbox'' w of
         (Inl _, w) \<Rightarrow> (1, w)
       | (Inr _, w) \<Rightarrow>
           (let (live, w) = (case read_pid_file name w of (Inl _, w) \<Rightarrow> (False, w) | (Inr p, w) \<Rightarrow> run_alive p w) in
            if \<not> live then (1, w)
            else (case input of
                Inl _ \<Rightarrow> (1, w)
              | Inr body \<Rightarrow>
                  if length body > MAX_PAYLOAD then (1, w)
                  else (case deliver k name v body w of
                      (SendOk, w) \<Rightarrow> (0, snd (audit_log name (''send verb='' @ v @ '' len='' @ dec_nat (length body)) w))
                    | (_, w) \<Rightarrow> (1, w))))))"

section \<open>Stopping and killing\<close>

definition sys_rmdir :: "string \<Rightarrow> unit io" where
  "sys_rmdir p = call (\<lambda>w. case map_of (fs w) p of
       None \<Rightarrow> (Inl (miss_err (fs w) p), w)
     | Some i \<Rightarrow> if kind i \<noteq> Dir then (Inl ENOTDIR, w)
         else if dir_entries (fs w) p \<noteq> [] then (Inl ENOTEMPTY, w) else (Inr (), w\<lparr>fs := AList.delete p (fs w)\<rparr>))"

text \<open>
  \<open>remove_tree\<close>: nothing, or the error of the last call that failed. The buffer of a path bounds the
  recursion, since every level lengthens the path.
\<close>

definition worse :: "errno option \<Rightarrow> errno + unit \<Rightarrow> errno option" where
  "worse rc x = (case x of Inl e \<Rightarrow> Some e | Inr _ \<Rightarrow> rc)"

function remove_tree :: "string \<Rightarrow> world \<Rightarrow> errno option \<times> world" where
  "remove_tree path w = (case sys_opendir path w of
       (Inl e, w) \<Rightarrow> if e = ENOTDIR \<or> e = ENOENT then (let (x, w) = sys_unlink path w in (worse None x, w)) else (Some e, w)
     | (Inr es, w) \<Rightarrow>
         (let (rc, w) = fold (\<lambda>n (rc, w).
                if n = ''.'' \<or> n = ''..'' then (rc, w)
                else if length (join path n) \<ge> MAX_PATHBUF then (Some (case rc of Some e \<Rightarrow> e | None \<Rightarrow> E0), w)
                else (case sys_lstat (join path n) w of
                    (Inl e, w) \<Rightarrow> (Some e, w)
                  | (Inr i, w) \<Rightarrow>
                      if kind i = Dir then (let (x, w) = remove_tree (join path n) w in (if x = None then rc else x, w))
                      else (let (x, w) = sys_unlink (join path n) w in (worse rc x, w)))) es (None, w);
              (x, w) = sys_rmdir path w
          in (worse rc x, w)))"
  by pat_completeness auto
termination
  by (relation "measure (\<lambda>(path, w). MAX_PATHBUF - length path)") (auto simp: length_join)

declare remove_tree.simps [simp del]

fun pid_gone :: "nat \<Rightarrow> int \<Rightarrow> nat option \<Rightarrow> world \<Rightarrow> bool \<times> world" where
  "pid_gone 0 pid pfd w = (False, w)"
| "pid_gone (Suc k) pid pfd w = (case lifecycle_pidfd_alive pfd (sys_nanosleep w) of
       (Some False, w) \<Rightarrow> (True, w)
     | (Some True, w) \<Rightarrow> pid_gone k pid pfd w
     | (None, w) \<Rightarrow> (case run_alive pid w of (False, w) \<Rightarrow> (True, w) | (True, w) \<Rightarrow> pid_gone k pid pfd w))"

definition wait_pid_gone :: "int \<Rightarrow> nat option \<Rightarrow> nat \<Rightarrow> world \<Rightarrow> bool \<times> world" where
  "wait_pid_gone pid pfd ms w = (case lifecycle_pidfd_alive pfd w of
       (Some False, w) \<Rightarrow> (True, w)
     | (_, w) \<Rightarrow> (case run_alive pid w of (False, w) \<Rightarrow> (True, w) | (True, w) \<Rightarrow> pid_gone ((ms + 49) div 50) pid pfd w))"

text \<open>The leader is signalled through a pidfd if one opens, then its group; an error other than \<open>ESRCH\<close> counts.\<close>

definition signal_direct :: "int \<Rightarrow> nat \<Rightarrow> world \<Rightarrow> (errno + nat option) \<times> world" where
  "signal_direct pid sig w =
     (let (pfd, w) = (case lifecycle_pidfd_open pid w of (Inl _, w) \<Rightarrow> (None, w) | (Inr n, w) \<Rightarrow> (Some n, w));
          (x, w) = (if pfd \<noteq> None then lifecycle_pidfd_signal pfd sig w else sys_kill pid sig w)
      in case x of
           Inl e \<Rightarrow> if e \<noteq> ESRCH then (Inl e, close_opt pfd w) else (Inr pfd, snd (lifecycle_signal_group pid sig w))
         | Inr _ \<Rightarrow> (Inr pfd, snd (lifecycle_signal_group pid sig w)))"

definition stop_process :: "links \<Rightarrow> string \<Rightarrow> int \<Rightarrow> world \<Rightarrow> bool \<times> world" where
  "stop_process k name pid w =
     (let (alive, w) = agentd_is_alive w;
          (x, w) = (if alive then (let (ok, w) = agentd_ok k (''stop '' @ name) w in (if ok then Inr None else Inl EPROTO, w))
                    else signal_direct pid SIGTERM w)
      in case x of
           Inl _ \<Rightarrow> (False, w)
         | Inr pfd \<Rightarrow>
             (let (alive, w) = agentd_is_alive w;
                  (gone, w) = (if alive then (True, w) else wait_pid_gone pid pfd 2000 w);
                  w = close_opt pfd w
              in if \<not> gone then (False, w) else (True, snd (agentd_is_alive w))))"

fun cleanup :: "nat \<Rightarrow> string \<Rightarrow> world \<Rightarrow> errno option \<times> world" where
  "cleanup k dir w = (case remove_tree dir w of
       (None, w) \<Rightarrow> (None, w)
     | (Some e, w) \<Rightarrow> if e = ENOTEMPTY \<and> k > 0 then cleanup (k - 1) dir (sys_nanosleep w) else (Some e, w))"

declare cleanup.simps [simp del]

text \<open>The directory of an agent that exists.\<close>

definition locate_agent :: "string \<Rightarrow> string io" where
  "locate_agent name w = (case agent_dir name w of
       Inl e \<Rightarrow> (Inl e, w)
     | Inr dir \<Rightarrow> (case sys_stat dir w of (Inl e, w) \<Rightarrow> (Inl e, w) | (Inr _, w) \<Rightarrow> (Inr dir, w)))"

definition live_pid :: "string \<Rightarrow> world \<Rightarrow> int option \<times> world" where
  "live_pid name w = (case read_pid_file name w of
       (Inl _, w) \<Rightarrow> (None, w)
     | (Inr p, w) \<Rightarrow> (let (a, w) = run_alive p w in (if a then Some p else None, w)))"

definition cmd_stop :: "links \<Rightarrow> string \<Rightarrow> world \<Rightarrow> nat \<times> world" where
  "cmd_stop k name w = (case locate_agent name w of
       (Inl _, w) \<Rightarrow> (1, w)
     | (Inr dir, w) \<Rightarrow>
         (let w = snd (write_agent_setting name ''desired_state'' ''stopped'' w);
              (p, w) = live_pid name w;
              (ok, w) = (case p of None \<Rightarrow> (True, w) | Some pid \<Rightarrow> stop_process k name pid w)
          in if \<not> ok then (1, w)
             else (let (rc, w) = cleanup 2 dir w in (if rc = None then 0 else 1, w))))"

definition kill_process :: "string \<Rightarrow> int \<Rightarrow> world \<Rightarrow> bool \<times> world" where
  "kill_process name pid w =
     (let (used_cgroup, w) = (case enforcement_read_state name w of
              (Inl _, w) \<Rightarrow> (False, w)
            | (Inr es, w) \<Rightarrow> if cgroup_status es = ENF_STATUS_ACTIVE \<and> cgroup_path es \<noteq> [] then
                (case lifecycle_cgroup_kill (cgroup_path es) w of (Inl _, w) \<Rightarrow> (False, w) | (Inr _, w) \<Rightarrow> (True, w))
              else (False, w));
          (x, w) = (if used_cgroup then (Inr None, w) else signal_direct pid SIGKILL w)
      in case x of
           Inl _ \<Rightarrow> (False, w)
         | Inr pfd \<Rightarrow> (True, close_opt pfd (snd (wait_pid_gone pid pfd 500 w))))"

definition cmd_kill :: "string \<Rightarrow> world \<Rightarrow> nat \<times> world" where
  "cmd_kill name w = (case locate_agent name w of
       (Inl _, w) \<Rightarrow> (1, w)
     | (Inr dir, w) \<Rightarrow>
         (let (p, w) = live_pid name w;
              (ok, w) = (case p of None \<Rightarrow> (True, w) | Some pid \<Rightarrow> kill_process name pid w)
          in if \<not> ok then (1, w)
             else (let (rc, w) = remove_tree dir w in (if rc = None then 0 else 1, w))))"

section \<open>Listings\<close>

text \<open>\<open>%-ns\<close> and \<open>%ns\<close>. A listing yields its exit code and what it prints.\<close>

definition padr :: "nat \<Rightarrow> string \<Rightarrow> string" where
  "padr n s = s @ replicate (n - length s) SP"

definition padl :: "nat \<Rightarrow> string \<Rightarrow> string" where
  "padl n s = replicate (n - length s) SP @ s"

definition first_word :: "nat \<Rightarrow> string \<Rightarrow> string" where
  "first_word n b = take (n - 1) (takeWhile (\<lambda>c. c \<noteq> NL) (cstr b))"

definition list_line :: "string \<Rightarrow> string \<Rightarrow> string \<Rightarrow> string \<Rightarrow> string" where
  "list_line a b c e = padr 24 a @ '' '' @ padr 12 b @ '' '' @ padr 8 c @ '' '' @ padr 5 e @ [NL]"

text \<open>The names of the agents: entries that are valid names and directories.\<close>

definition agent_entry :: "string \<Rightarrow> world \<Rightarrow> bool \<times> world" where
  "agent_entry n w = (if starts_with ''.'' n \<or> \<not> validate_name n \<or> length (join (agent_root w) n) \<ge> MAX_PATHBUF then (False, w)
     else (case sys_stat (join (agent_root w) n) w of (Inl _, w) \<Rightarrow> (False, w) | (Inr i, w) \<Rightarrow> (kind i = Dir, w)))"

definition list_row :: "string \<Rightarrow> string \<times> world \<Rightarrow> string \<times> world" where
  "list_row n = (\<lambda>(out, w).
     let (ok, w) = agent_entry n w in
     if \<not> ok then (out, w)
     else (let (status, w) = (case with_path n ''status'' (\<lambda>p. read_small_file p 256) w of
                (Inl _, w) \<Rightarrow> (''?'', w) | (Inr b, w) \<Rightarrow> (first_word 32 b, w));
              ((pid, alive), w) = (case read_pid_file n w of
                (Inl _, w) \<Rightarrow> ((''-'', False), w) | (Inr p, w) \<Rightarrow> (let (a, w) = run_alive p w in ((dec_int p, a), w)))
          in ((if out = [] then list_line ''NAME'' ''STATUS'' ''PID'' ''ALIVE'' else out) @
                list_line n status pid (if alive then ''yes'' else ''no''), w)))"

definition cmd_list :: "world \<Rightarrow> (nat \<times> string) \<times> world" where
  "cmd_list w = (case sys_opendir (agent_root w) w of
       (Inl e, w) \<Rightarrow> ((if e = ENOENT then 0 else 1, []), w)
     | (Inr es, w) \<Rightarrow> (let (out, w) = fold list_row es ([], w) in ((0, if out = [] then ''(no agents)'' @ [NL] else out), w)))"

definition tasks_line :: "string \<Rightarrow> string \<Rightarrow> string \<Rightarrow> string" where
  "tasks_line a b c = padr 24 a @ '' '' @ padr 10 b @ '' '' @ c @ [NL]"

definition tasks_row :: "string \<Rightarrow> string \<Rightarrow> string \<times> world \<Rightarrow> string \<times> world" where
  "tasks_row agent tid = (\<lambda>(out, w).
     let (st, w) = (case task_read_state agent tid w of (Inl _, w) \<Rightarrow> (''?'', w) | (Inr s, w) \<Rightarrow> (task_state_name s, w));
         (v, w) = (case task_read_string agent tid ''verb'' MAX_VERB w of
            (Inl _, w) \<Rightarrow> ([], w) | (Inr b, w) \<Rightarrow> (takeWhile (\<lambda>c. c \<noteq> NL) (cstr b), w))
     in ((if out = [] then tasks_line ''TASK-ID'' ''STATE'' ''VERB'' else out) @
           tasks_line tid st (if v \<noteq> [] then v else ''-''), w))"

definition cmd_tasks :: "string \<Rightarrow> world \<Rightarrow> (nat \<times> string) \<times> world" where
  "cmd_tasks name w = (if \<not> validate_name name then ((1, []), w)
     else (let (out, w) = task_iterate name (tasks_row name) ([], w) in ((0, if out = [] then ''(no tasks)'' @ [NL] else out), w)))"

definition inode_size :: "inode \<Rightarrow> nat" where
  "inode_size i = (case kind i of Reg c \<Rightarrow> length c | _ \<Rightarrow> 0)"

definition artifact_line :: "string \<Rightarrow> string \<Rightarrow> string \<Rightarrow> string" where
  "artifact_line a b c = padr 24 a @ '' '' @ padl 9 b @ ''  '' @ c @ [NL]"

definition artifact_row :: "string \<Rightarrow> string \<Rightarrow> string \<Rightarrow> string \<times> world \<Rightarrow> string \<times> world" where
  "artifact_row dir tid n = (\<lambda>(out, w).
     if starts_with ''.'' n \<or> length (join dir n) \<ge> MAX_PATHBUF then (out, w)
     else (case sys_stat (join dir n) w of
         (Inl _, w) \<Rightarrow> (out, w)
       | (Inr i, w) \<Rightarrow> ((if out = [] then artifact_line ''TASK-ID'' ''BYTES'' ''FILE'' else out) @
             artifact_line tid (dec_nat (inode_size i)) n, w)))"

definition artifacts_for_task :: "string \<Rightarrow> string \<Rightarrow> string \<times> world \<Rightarrow> string \<times> world" where
  "artifacts_for_task agent tid = (\<lambda>(out, w).
     case agent_path MAX_PATHBUF agent (snprintf_trunc 64 (''tasks/'' @ tid @ ''/artifacts'')) w of
       (Inl _, w) \<Rightarrow> (out, w)
     | (Inr dir, w) \<Rightarrow> (case sys_opendir dir w of
         (Inl _, w) \<Rightarrow> (out, w) | (Inr es, w) \<Rightarrow> fold (artifact_row dir tid) es (out, w)))"

definition cmd_artifacts :: "string \<Rightarrow> world \<Rightarrow> (nat \<times> string) \<times> world" where
  "cmd_artifacts name w = (if \<not> validate_name name then ((1, []), w)
     else (let (out, w) = task_iterate name (artifacts_for_task name) ([], w)
           in ((0, if out = [] then ''(no artifacts)'' @ [NL] else out), w)))"

text \<open>
  The end of a log: everything, unless it has more than \<open>lines\<close> newlines; then what follows the last but
  \<open>lines\<close> of them. \<open>tail_from\<close> scans the reversed buffer.
\<close>

fun tail_from :: "nat \<Rightarrow> string \<Rightarrow> string \<Rightarrow> string" where
  "tail_from k [] out = out"
| "tail_from k (c # s) out = (if c = NL then (case k of 0 \<Rightarrow> out | Suc j \<Rightarrow> tail_from j s (c # out)) else tail_from k s (c # out))"

definition tail_lines :: "nat \<Rightarrow> string \<Rightarrow> string" where
  "tail_lines n b = tail_from n (rev b) []"

definition print_tail :: "string \<Rightarrow> nat \<Rightarrow> world \<Rightarrow> string \<times> world" where
  "print_tail path n w = (case sys_open path [O_RDONLY, O_CLOEXEC] 0 w of
       (Inl _, w) \<Rightarrow> ([], w)
     | (Inr fd, w) \<Rightarrow> (case sys_stat path w of
         (Inl _, w) \<Rightarrow> ([], snd (sys_close fd w))
       | (Inr i, w) \<Rightarrow> if inode_size i = 0 then ([], snd (sys_close fd w))
           else (case read_all fd (min (inode_size i) 1048576) w of
               (Inl _, w) \<Rightarrow> ([], snd (sys_close fd w)) | (Inr b, w) \<Rightarrow> (tail_lines n b, snd (sys_close fd w)))))"

section \<open>Arguments\<close>

definition create_name :: "string \<Rightarrow> string option \<times> string option \<Rightarrow> (string option \<times> string option) option" where
  "create_name a s = (if fst s = None then Some (Some a, snd s) else None)"

fun parse_create :: "string list \<Rightarrow> string option \<times> string option \<Rightarrow> (string option \<times> string option) option" where
  "parse_create [] s = Some s"
| "parse_create [a] s = create_name a s"
| "parse_create (a # v # r) s =
     (if a = ''--profile'' then parse_create r (fst s, Some v)
      else (case create_name a s of None \<Rightarrow> None | Some s \<Rightarrow> parse_create (v # r) s))"

record start_args =
  a_name :: "string option"
  a_exec :: "string option"
  a_fs :: int
  a_sc :: int
  a_cg :: int
  a_mount :: "string option"

text \<open>An option with a value: not one of these, a bad value, or the arguments with the option set.\<close>

definition start_value :: "string \<Rightarrow> string \<Rightarrow> start_args \<Rightarrow> start_args option option" where
  "start_value a v s =
     (if a = ''--exec'' \<or> a = ''--runtime'' then Some (Some (s\<lparr>a_exec := Some v\<rparr>))
      else if a = ''--seccomp'' then
        Some (if v = ''minimal'' then Some (s\<lparr>a_sc := 1\<rparr>) else if v = ''off'' then Some (s\<lparr>a_sc := 0\<rparr>) else None)
      else if a = ''--agentfs'' then Some (Some (s\<lparr>a_mount := Some v\<rparr>)) else None)"

definition start_flag :: "string \<Rightarrow> start_args \<Rightarrow> start_args option" where
  "start_flag a s =
     (if a = ''--enforce-fs'' then Some (s\<lparr>a_fs := 1\<rparr>) else if a = ''--no-enforce-fs'' then Some (s\<lparr>a_fs := 0\<rparr>)
      else if a = ''--cgroup'' then Some (s\<lparr>a_cg := 1\<rparr>) else if a = ''--no-cgroup'' then Some (s\<lparr>a_cg := 0\<rparr>)
      else if a_name s = None then Some (s\<lparr>a_name := Some a\<rparr>) else None)"

fun parse_start :: "string list \<Rightarrow> start_args \<Rightarrow> start_args option" where
  "parse_start [] s = Some s"
| "parse_start [a] s = start_flag a s"
| "parse_start (a # v # r) s = (case start_value a v s of
       Some None \<Rightarrow> None
     | Some (Some s) \<Rightarrow> parse_start r s
     | None \<Rightarrow> (case start_flag a s of None \<Rightarrow> None | Some s \<Rightarrow> parse_start (v # r) s))"

definition main_create :: "string list \<Rightarrow> world \<Rightarrow> nat \<times> world" where
  "main_create args w = (case parse_create args (None, None) of
       Some (Some name, profile) \<Rightarrow> cmd_create name profile w | _ \<Rightarrow> (2, w))"

definition main_start :: "links \<Rightarrow> string list \<Rightarrow> world \<Rightarrow> nat \<times> world" where
  "main_start k args w =
     (case parse_start args \<lparr>a_name = None, a_exec = None, a_fs = -1, a_sc = -1, a_cg = -1, a_mount = None\<rparr> of
        None \<Rightarrow> (2, w)
      | Some s \<Rightarrow> (case (a_name s, a_exec s) of
          (Some n, Some p) \<Rightarrow> cmd_start k n p (a_fs s, a_sc s, a_cg s) (a_mount s) w | _ \<Rightarrow> (2, w)))"

text \<open>The commands that take one or two arguments and change something.\<close>

definition main_two :: "links \<Rightarrow> errno + string \<Rightarrow> string \<Rightarrow> string \<Rightarrow> string \<Rightarrow> (world \<Rightarrow> nat \<times> world) option" where
  "main_two k input c a b =
     (if c = ''set-profile'' then Some (cmd_set_profile a b) else if c = ''config'' then Some (cmd_config a b)
      else if c = ''set-goal'' then Some (cmd_set_goal a b) else if c = ''grant'' then Some (cap_append a ''allow'' b)
      else if c = ''deny'' then Some (cap_append a ''deny'' b) else if c = ''set-limit'' then Some (cmd_set_limit a b)
      else if c = ''send'' then Some (cmd_send k input a b)
      else if c = ''set-restart-policy'' then Some (cmd_set_restart_policy a b) else None)"

definition main_one :: "links \<Rightarrow> string \<Rightarrow> string \<Rightarrow> (world \<Rightarrow> nat \<times> world) option" where
  "main_one k c a =
     (if c = ''stop'' then Some (cmd_stop k a) else if c = ''kill'' then Some (cmd_kill a)
      else if c = ''enable'' then Some (cmd_enable a True) else if c = ''disable'' then Some (cmd_enable a False)
      else if c = ''restart'' then Some (cmd_restart k a) else None)"

text \<open>
  \<open>main\<close> for the commands above; \<open>others\<close> stands for the commands that only print (profiles, show-profile,
  ping, list, inspect, logs, artifacts, tasks, task).
\<close>

definition agentctl_main :: "links \<Rightarrow> errno + string \<Rightarrow> (string list \<Rightarrow> world \<Rightarrow> nat \<times> world) \<Rightarrow> string list \<Rightarrow> world \<Rightarrow> nat \<times> world" where
  "agentctl_main k input others argv w =
     (if refuse_root (h_getenv (l_host k)) w then (1, w)
      else (case argv of
          _ # c # args \<Rightarrow>
            if c = ''create'' then main_create args w
            else if c = ''start'' then main_start k args w
            else if c = ''daemon-shutdown'' then (if args = [] then cmd_daemon_shutdown k w else (2, w))
            else (case args of
                [a] \<Rightarrow> (case main_one k c a of Some f \<Rightarrow> f w | None \<Rightarrow> others (c # args) w)
              | [a, b] \<Rightarrow> (case main_two k input c a b of Some f \<Rightarrow> f w | None \<Rightarrow> others (c # args) w)
              | _ \<Rightarrow> others (c # args) w)
        | _ \<Rightarrow> (2, w)))"

section \<open>What the removal of a directory touches\<close>

lemma fold_invariant: "(\<And>x s. x \<in> set xs \<Longrightarrow> P s \<Longrightarrow> P (f x s)) \<Longrightarrow> P s \<Longrightarrow> P (fold f xs s)"
  by (induction xs arbitrary: s) auto

lemma frame_rmdir [inv_intros]: "frame A w0 d w \<Longrightarrow> A p \<Longrightarrow> frame A w0 d (snd (sys_rmdir p w))"
  unfolding sys_rmdir_def by (rule frame_call) (auto split: option.splits intro: frame_del)

definition subtree :: "string \<Rightarrow> string \<Rightarrow> bool" where
  "subtree d p \<longleftrightarrow> p = d \<or> below d p"

lemma subtree_join: "subtree (join d n) p \<Longrightarrow> subtree d p"
  by (auto simp: subtree_def below_join below_joinD)

text \<open>Whatever calls fail, only the directory and paths below it are removed.\<close>

lemma remove_tree_frame:
  "frame A w0 d w \<Longrightarrow> (\<And>p. subtree path p \<Longrightarrow> A p) \<Longrightarrow> frame A w0 d (snd (remove_tree path w))"
proof (induction path w rule: remove_tree.induct)
  case (1 path w)
  obtain x w1 where x: "sys_opendir path w = (x, w1)" by fastforce
  have f1: "frame A w0 d w1" using frame_opendir [OF "1.prems"(1), of path] x by simp
  have path: "A path" using "1.prems"(2) by (simp add: subtree_def)
  show ?case
  proof (cases x)
    case (Inl e)
    then show ?thesis using x f1 frame_unlink [OF f1 path]
      by (auto simp: remove_tree.simps [of path w] split: prod.splits)
  next
    case (Inr es)
    let ?f = "\<lambda>n (rc, w). if n = ''.'' \<or> n = ''..'' then (rc, w)
                else if length (join path n) \<ge> MAX_PATHBUF then (Some (case rc of Some e \<Rightarrow> e | None \<Rightarrow> E0), w)
                else (case sys_lstat (join path n) w of
                    (Inl e, w) \<Rightarrow> (Some e, w)
                  | (Inr i, w) \<Rightarrow>
                      if kind i = Dir then (let (x, w) = remove_tree (join path n) w in (if x = None then rc else x, w))
                      else (let (x, w) = sys_unlink (join path n) w in (worse rc x, w)))"
    have "frame A w0 d (snd (fold ?f es (None, w1)))"
    proof (rule fold_invariant [where P = "\<lambda>s. frame A w0 d (snd s)"])
      fix n and s :: "errno option \<times> world"
      assume n: "n \<in> set es" and s: "frame A w0 d (snd s)"
      obtain rc v where rv: "s = (rc, v)" by fastforce
      have l: "frame A w0 d (snd (sys_lstat (join path n) v))" using s rv by (auto intro: frame_lstat)
      have u: "\<And>u. frame A w0 d u \<Longrightarrow> frame A w0 d (snd (sys_unlink (join path n) u))"
        by (rule frame_unlink) (auto simp: "1.prems"(2) subtree_def below_join)
      have t: "frame A w0 d (snd (remove_tree (join path n) u))"
        if "frame A w0 d u" "n \<noteq> ''.''" "n \<noteq> ''..''" "length (join path n) < MAX_PATHBUF" "sys_lstat (join path n) v = (Inr i, u)" "kind i = Dir" for u i
        by (rule "1.IH" [OF x [symmetric] Inr n _ _ that(5) [symmetric] refl that(6) that(1)])
          (use that "1.prems"(2) subtree_join in auto)
      show "frame A w0 d (snd (?f n s))" using s l u t rv by (auto split: prod.splits sum.splits) (metis snd_conv)+
    qed (simp add: f1)
    then show ?thesis using x Inr path frame_rmdir [of A w0 d _ path]
      by (auto simp: remove_tree.simps [of path w] split: prod.splits) (metis snd_conv)
  qed
qed

end
