(* ===== verification/Spec2Isabelle.thy ===== *)
theory Spec2Isabelle
  imports Registry Supervision Fanout Reviewer Agentctl
begin

text \<open>
  Verification development for agentctl.
\<close>

end
